(* ===== verification/Go_Prelude.thy ===== *)
theory Go_Prelude
  imports Main "HOL-Library.Word"
begin

section \<open>Go values, errors and effects\<close>

text \<open>
  The vocabulary the component theories share: Go's integers as words of their width
  (\<open>int\<close> is 64 bits, as on every platform the program is deployed on), its strings and
  byte slices as lists of bytes, dynamic values (\<open>interface{}\<close>), and computations that
  may return an error or panic.

  A Go function with results \<open>(T, error)\<close> that reads and writes shared state of type
  \<open>'s\<close> is a value of type \<open>('s, 'a) go\<close>. Its outcome is \<open>Inr x\<close> (a nil error and
  the value \<open>x\<close>), \<open>Inl (Err e)\<close> (the error \<open>e\<close>) or \<open>Inl (Panic m)\<close>. The idiom
  \<^verbatim>\<open>if err != nil { return err }\<close> and the propagation of a panic are both \<open>go_bind\<close>;
  \<^verbatim>\<open>defer\<close> is \<open>go_defer\<close>, which runs on every outcome.
\<close>

named_theorems wp_simps \<open>weakest-precondition equations of the Go computations\<close>

type_synonym goint = "64 word"
type_synonym goduration = "64 word"
type_synonym gotime = int  \<comment> \<open>an instant, in nanoseconds since the Unix epoch (UTC)\<close>

subsection \<open>Signed 64-bit arithmetic\<close>

lemma sint64_range: "- (2 ^ 63) \<le> sint (a :: 64 word)" "sint (a :: 64 word) < 2 ^ 63"
  using sint_ge [of a] sint_lt [of a] by simp_all

lemma sint64_add:
  "- (2 ^ 63) \<le> sint a + sint b \<Longrightarrow> sint a + sint b < 2 ^ 63 \<Longrightarrow>
   sint (a + b :: 64 word) = sint a + sint b"
  by (simp add: sint_word_ariths signed_take_bit_int_eq_self)

lemma sint64_diff:
  "- (2 ^ 63) \<le> sint a - sint b \<Longrightarrow> sint a - sint b < 2 ^ 63 \<Longrightarrow>
   sint (a - b :: 64 word) = sint a - sint b"
  by (simp add: sint_word_ariths signed_take_bit_int_eq_self)

lemma sint64_mult:
  "- (2 ^ 63) \<le> sint a * sint b \<Longrightarrow> sint a * sint b < 2 ^ 63 \<Longrightarrow>
   sint (a * b :: 64 word) = sint a * sint b"
  by (simp add: sint_word_ariths signed_take_bit_int_eq_self)

lemma sint64_of_int:
  "- (2 ^ 63) \<le> k \<Longrightarrow> k < 2 ^ 63 \<Longrightarrow> sint (word_of_int k :: 64 word) = k"
  by (simp add: sint_sbintrunc' signed_take_bit_int_eq_self)

lemma sint64_one [simp]: "sint (1 :: 64 word) = 1"
  by simp

lemma sint64_pred: "1 \<le> sint (n :: 64 word) \<Longrightarrow> sint (n - 1) = sint n - 1"
  using sint64_range [of n] by (subst sint64_diff) auto

lemma sint64_succ: "sint (n :: 64 word) < 2 ^ 63 - 1 \<Longrightarrow> sint (n + 1) = sint n + 1"
  using sint64_range [of n] by (subst sint64_add) auto

subsection \<open>Decimal numerals (\<^verbatim>\<open>fmt.Sprint\<close> of an integer)\<close>

definition digit_char :: "nat \<Rightarrow> char" where
  "digit_char d = char_of (48 + d)"

fun utoa :: "nat \<Rightarrow> string" where
  "utoa n = (if n < 10 then [digit_char n] else utoa (n div 10) @ [digit_char (n mod 10)])"

declare utoa.simps [simp del]

definition itoa :: "int \<Rightarrow> string" where
  "itoa i = (if i < 0 then ''-'' @ utoa (nat (- i)) else utoa (nat i))"

definition digit_value :: "char \<Rightarrow> nat" where
  "digit_value c = of_char c - 48"

definition atou :: "string \<Rightarrow> nat" where
  "atou s = foldl (\<lambda>acc c. 10 * acc + digit_value c) 0 s"

lemma digit_value_char: "d < 10 \<Longrightarrow> digit_value (digit_char d) = d"
  by (simp add: digit_value_def digit_char_def)

lemma atou_utoa [simp]: "atou (utoa n) = n"
proof (induction n rule: utoa.induct)
  case (1 n)
  show ?case
  proof (cases "n < 10")
    case True
    then show ?thesis by (subst utoa.simps) (simp add: atou_def digit_value_char)
  next
    case False
    with 1 have "atou (utoa (n div 10)) = n div 10" by simp
    with False show ?thesis
      by (subst utoa.simps) (simp add: atou_def digit_value_char)
  qed
qed

lemma utoa_nonempty [simp]: "utoa n \<noteq> []"
  by (subst utoa.simps) simp

lemma itoa_nonempty [simp]: "itoa i \<noteq> []"
  by (simp add: itoa_def)

subsection \<open>Dynamic values\<close>

text \<open>
  A \<open>float64\<close> is a finite binary fraction \<open>m * 2 ^ e\<close> or not finite (an infinity or
  NaN). Go leaves the conversion of a value that does not fit the integer type to the
  platform; these are the amd64 results (the sign bit for a 64-bit target, and the low
  byte of the 32-bit conversion for \<open>uint8\<close>).
\<close>

datatype float64 = Finite int int | NonFinite

fun float_trunc :: "float64 \<Rightarrow> int option" where
  "float_trunc (Finite m e) =
     Some (if 0 \<le> e then m * 2 ^ nat e else sgn m * (\<bar>m\<bar> div 2 ^ nat (- e)))"
| "float_trunc NonFinite = None"

definition float_to_int64 :: "float64 \<Rightarrow> 64 word" where
  "float_to_int64 f = (case float_trunc f of
     Some i \<Rightarrow> if - (2 ^ 63) \<le> i \<and> i < 2 ^ 63 then word_of_int i else word_of_int (- (2 ^ 63))
   | None \<Rightarrow> word_of_int (- (2 ^ 63)))"

definition float_to_uint8 :: "float64 \<Rightarrow> 8 word" where
  "float_to_uint8 f = (case float_trunc f of
     Some i \<Rightarrow> if - (2 ^ 31) \<le> i \<and> i < 2 ^ 31 then word_of_int i else 0
   | None \<Rightarrow> 0)"

datatype govalue =
    VNil
  | VBool bool
  | VString string
  | VInt goint
  | VInt32 "32 word"
  | VInt64 "64 word"
  | VUint8 "8 word"
  | VFloat64 float64
  | VNumber string  \<comment> \<open>a \<^verbatim>\<open>json.Number\<close>: the literal of a number\<close>
  | VSlice "govalue list"  \<comment> \<open>\<^verbatim>\<open>[]interface{}\<close>\<close>
  | VMap "(string \<times> govalue) list"  \<comment> \<open>\<^verbatim>\<open>map[string]interface{}\<close>, its entries listed\<close>
  | VOpaque string  \<comment> \<open>any other dynamic type, named\<close>

text \<open>A \<open>map[string]interface{}\<close> read with a plain index yields nil for a missing key.\<close>

type_synonym gotable = "string \<Rightarrow> govalue option"

definition table_get :: "gotable \<Rightarrow> string \<Rightarrow> govalue" where
  "table_get t k = (case t k of Some v \<Rightarrow> v | None \<Rightarrow> VNil)"

lemma table_get_upd [simp]:
  "table_get (t(k \<mapsto> v)) k' = (if k' = k then v else table_get t k')"
  by (simp add: table_get_def)

lemma table_get_empty [simp]: "table_get Map.empty k = VNil"
  by (simp add: table_get_def)

end
