(* ===== verification/App_Errors.thy ===== *)
theory App_Errors
  imports Go_Prelude
begin

section \<open>Error values (schema/errors)\<close>

text \<open>
  The sentinel errors of each file of \<open>schema/errors\<close>, one datatype per file, with their
  texts, and the error values built from them: \<open>WrapErr p e\<close> is
  \<^verbatim>\<open>fmt.Errorf("p: %w", e)\<close>, \<open>TextErr s\<close> an error that is only its text (the result
  of \<^verbatim>\<open>errors.New\<close>, or of \<^verbatim>\<open>fmt.Errorf\<close> with \<^verbatim>\<open>%s\<close>, which keeps the text of its
  argument and loses its identity), \<open>LibErr s\<close> an error a library returned, and
  \<open>AmqpErr p\<close> a \<^verbatim>\<open>*amqp.Error\<close> stored in an \<^verbatim>\<open>error\<close> interface: \<open>AmqpErr None\<close> is
  the interface that holds a nil pointer, which is not a nil \<^verbatim>\<open>error\<close>.
\<close>

datatype broker_error = ErrUnsupportedBroker | ErrEmptyMessage

datatype config_error = ErrInvalidConfig | ErrNilConfig

datatype connection_error = ErrConnectionPoolEmpty | ErrInvalidConnectionPool

datatype store_error = ErrUnsupportedStore

datatype task_error = ErrTaskNotRegistered | ErrTaskMustBeFunc | ErrTaskReturnsNoValue
  | ErrLastReturnValueMustBeError

datatype worker_error = ErrUnregisteredTask | ErrTaskFunctionNotFound

datatype goerror =
    BrokerErr broker_error
  | ConfigErr config_error
  | ConnectionErr connection_error
  | StoreErr store_error
  | TaskErr task_error
  | WorkerErr worker_error
  | WrapErr string goerror
  | TextErr string
  | LibErr string
  | AmqpErr "string option"

fun broker_error_text :: "broker_error \<Rightarrow> string" where
  "broker_error_text ErrUnsupportedBroker = ''unsupported broker''"
| "broker_error_text ErrEmptyMessage = ''received an empty message''"

fun config_error_text :: "config_error \<Rightarrow> string" where
  "config_error_text ErrInvalidConfig = ''config is invalid''"
| "config_error_text ErrNilConfig = ''config is nil''"

fun connection_error_text :: "connection_error \<Rightarrow> string" where
  "connection_error_text ErrConnectionPoolEmpty = ''connection pool is empty''"
| "connection_error_text ErrInvalidConnectionPool = ''connection pool is invalid''"

fun store_error_text :: "store_error \<Rightarrow> string" where
  "store_error_text ErrUnsupportedStore = ''unsupported store''"

fun task_error_text :: "task_error \<Rightarrow> string" where
  "task_error_text ErrTaskNotRegistered = ''task not registered''"
| "task_error_text ErrTaskMustBeFunc = ''task must be a func type''"
| "task_error_text ErrTaskReturnsNoValue = ''task must return at least a single value''"
| "task_error_text ErrLastReturnValueMustBeError = ''last return value of a task must be error''"

fun worker_error_text :: "worker_error \<Rightarrow> string" where
  "worker_error_text ErrUnregisteredTask = ''unregistered task''"
| "worker_error_text ErrTaskFunctionNotFound = ''task function not found''"

text \<open>The text \<^verbatim>\<open>err.Error()\<close> gives, as \<^verbatim>\<open>fmt\<close> prints it.\<close>

fun error_text :: "goerror \<Rightarrow> string" where
  "error_text (BrokerErr e) = broker_error_text e"
| "error_text (ConfigErr e) = config_error_text e"
| "error_text (ConnectionErr e) = connection_error_text e"
| "error_text (StoreErr e) = store_error_text e"
| "error_text (TaskErr e) = task_error_text e"
| "error_text (WorkerErr e) = worker_error_text e"
| "error_text (WrapErr p e) = p @ '': '' @ error_text e"
| "error_text (TextErr s) = s"
| "error_text (LibErr s) = s"
| "error_text (AmqpErr (Some s)) = s"
| "error_text (AmqpErr None) = ''<nil>''"

text \<open>\<open>RetryError\<close>; \<open>dur\<close> is the text \<^verbatim>\<open>%s\<close> gives of a duration.\<close>

record retry_error =
  re_RetryCount :: goint
  re_RetryAfter :: goduration
  re_Err :: "goerror option"

definition retry_error_text :: "(goduration \<Rightarrow> string) \<Rightarrow> retry_error \<Rightarrow> string" where
  "retry_error_text dur re = ''Retry failed after '' @ itoa (sint (re_RetryCount re)) @
     '' retries. Retry after '' @ dur (re_RetryAfter re) @ ''. Original error: '' @
     (case re_Err re of None \<Rightarrow> ''<nil>'' | Some e \<Rightarrow> error_text e)"

end
