(* ===== verification/Go_Effects.thy ===== *)
theory Go_Effects
  imports App_Errors
begin

section \<open>Computations with errors, panics and deferred calls\<close>

text \<open>
  The combinators the stateful components are written with, and their
  weakest-precondition equations. \<open>wp m Q s\<close> says that running \<open>m\<close> from \<open>s\<close> ends in an
  outcome and a state that satisfy \<open>Q\<close>; the equations (collection \<open>wp_simps\<close>) push it
  through a program, so that a component lemma is one unfolding and one simplification.
\<close>

datatype fault = Err goerror | Panic string

type_synonym ('s, 'a) go = "'s \<Rightarrow> (fault + 'a) \<times> 's"

definition go_return :: "'a \<Rightarrow> ('s, 'a) go" where
  "go_return x s = (Inr x, s)"

definition go_fail :: "fault \<Rightarrow> ('s, 'a) go" where
  "go_fail e s = (Inl e, s)"

definition go_bind :: "('s, 'a) go \<Rightarrow> ('a \<Rightarrow> ('s, 'b) go) \<Rightarrow> ('s, 'b) go" where
  "go_bind m f s = (case m s of (Inl e, s') \<Rightarrow> (Inl e, s') | (Inr x, s') \<Rightarrow> f x s')"

definition go_seq :: "('s, 'a) go \<Rightarrow> ('s, 'b) go \<Rightarrow> ('s, 'b) go" where
  "go_seq m n = go_bind m (\<lambda>_. n)"

definition go_update :: "('s \<Rightarrow> 's) \<Rightarrow> ('s, unit) go" where
  "go_update f s = (Inr (), f s)"

text \<open>\<^verbatim>\<open>return fmt.Errorf("p: %w", err)\<close> where \<^verbatim>\<open>err != nil\<close>; a panic is not touched.\<close>

definition go_wrap :: "string \<Rightarrow> ('s, 'a) go \<Rightarrow> ('s, 'a) go" where
  "go_wrap p m s = (case m s of
     (Inl (Err e), s') \<Rightarrow> (Inl (Err (WrapErr p e)), s')
   | other \<Rightarrow> other)"

text \<open>
  \<^verbatim>\<open>defer func() { _ = cleanup() }()\<close>: the cleanup runs however the body ends, its error is
  discarded, and its panic replaces the outcome.
\<close>

definition go_defer :: "('s, 'b) go \<Rightarrow> ('s, 'a) go \<Rightarrow> ('s, 'a) go" where
  "go_defer cleanup body s = (case body s of (r, s') \<Rightarrow>
     (case cleanup s' of
        (Inl (Panic m), s'') \<Rightarrow> (Inl (Panic m), s'')
      | (_, s'') \<Rightarrow> (r, s'')))"

text \<open>A \<^verbatim>\<open>for range\<close> loop that returns at the first error.\<close>

fun go_each :: "('x \<Rightarrow> ('s, unit) go) \<Rightarrow> 'x list \<Rightarrow> ('s, unit) go" where
  "go_each f [] = go_return ()"
| "go_each f (x # xs) = go_seq (f x) (go_each f xs)"

definition wp :: "('s, 'a) go \<Rightarrow> (fault + 'a \<Rightarrow> 's \<Rightarrow> bool) \<Rightarrow> 's \<Rightarrow> bool" where
  "wp m Q s = (case m s of (r, s') \<Rightarrow> Q r s')"

lemma wp_return [wp_simps]: "wp (go_return x) Q s = Q (Inr x) s"
  by (simp add: wp_def go_return_def)

lemma wp_fail [wp_simps]: "wp (go_fail e) Q s = Q (Inl e) s"
  by (simp add: wp_def go_fail_def)

lemma wp_update [wp_simps]: "wp (go_update f) Q s = Q (Inr ()) (f s)"
  by (simp add: wp_def go_update_def)

lemma wp_bind [wp_simps]:
  "wp (go_bind m f) Q s =
   wp m (\<lambda>r s'. case r of Inl e \<Rightarrow> Q (Inl e) s' | Inr x \<Rightarrow> wp (f x) Q s') s"
  by (simp add: wp_def go_bind_def split: prod.splits sum.splits)

lemma wp_seq [wp_simps]:
  "wp (go_seq m n) Q s =
   wp m (\<lambda>r s'. case r of Inl e \<Rightarrow> Q (Inl e) s' | Inr x \<Rightarrow> wp n Q s') s"
  by (simp add: go_seq_def wp_bind)

lemma wp_wrap [wp_simps]:
  "wp (go_wrap p m) Q s =
   wp m (\<lambda>r. Q (case r of Inl (Err e) \<Rightarrow> Inl (Err (WrapErr p e)) | other \<Rightarrow> other)) s"
  by (simp add: wp_def go_wrap_def split: prod.splits sum.splits fault.splits)

lemma wp_defer [wp_simps]:
  "wp (go_defer c b) Q s =
   wp b (\<lambda>r. wp c (\<lambda>r'. Q (case r' of Inl (Panic m) \<Rightarrow> Inl (Panic m) | _ \<Rightarrow> r))) s"
  by (simp add: wp_def go_defer_def split: prod.splits sum.splits fault.splits)

lemma wp_mono: "wp m P s \<Longrightarrow> (\<And>r s'. P r s' \<Longrightarrow> Q r s') \<Longrightarrow> wp m Q s"
  by (auto simp: wp_def split: prod.splits)

lemma wp_conj: "wp m P s \<Longrightarrow> wp m Q s \<Longrightarrow> wp m (\<lambda>r s'. P r s' \<and> Q r s') s"
  by (auto simp: wp_def split: prod.splits)

lemma wpI: "(\<And>r s'. m s = (r, s') \<Longrightarrow> Q r s') \<Longrightarrow> wp m Q s"
  by (auto simp: wp_def split: prod.splits)

lemma wpD: "wp m Q s \<Longrightarrow> m s = (r, s') \<Longrightarrow> Q r s'"
  by (simp add: wp_def)

subsection \<open>Invariants of computations\<close>

text \<open>\<open>keeps I m\<close>: whatever the outcome, a run of \<open>m\<close> from a state with \<open>I\<close> ends in one.\<close>

definition keeps :: "('s \<Rightarrow> bool) \<Rightarrow> ('s, 'a) go \<Rightarrow> bool" where
  "keeps I m \<longleftrightarrow> (\<forall>s. I s \<longrightarrow> I (snd (m s)))"

lemma keepsI: "(\<And>s. I s \<Longrightarrow> wp m (\<lambda>_. I) s) \<Longrightarrow> keeps I m"
  by (simp add: keeps_def wp_def split_beta)

lemma keepsD: "keeps I m \<Longrightarrow> I s \<Longrightarrow> m s = (r, s') \<Longrightarrow> I s'"
  unfolding keeps_def by (metis snd_conv)

lemma keeps_wp: "keeps I m \<Longrightarrow> I s \<Longrightarrow> wp m (\<lambda>_. I) s"
  by (simp add: keeps_def wp_def split_beta)

named_theorems keeps_intros \<open>operations that keep an invariant\<close>

lemma keeps_return [keeps_intros]: "keeps I (go_return x)"
  by (simp add: keeps_def go_return_def)

lemma keeps_fail [keeps_intros]: "keeps I (go_fail e)"
  by (simp add: keeps_def go_fail_def)

lemma keeps_bind [keeps_intros]: "keeps I m \<Longrightarrow> (\<And>x. keeps I (f x)) \<Longrightarrow> keeps I (go_bind m f)"
  by (rule keepsI) (auto simp: wp_simps intro!: wp_mono [OF keeps_wp] split: sum.splits
      dest: keeps_wp)

lemma keeps_seq [keeps_intros]: "keeps I m \<Longrightarrow> keeps I n \<Longrightarrow> keeps I (go_seq m n)"
  unfolding go_seq_def by (rule keeps_bind)

lemma keeps_wrap [keeps_intros]: "keeps I m \<Longrightarrow> keeps I (go_wrap p m)"
  by (rule keepsI) (simp add: wp_simps keeps_wp)

lemma keeps_defer [keeps_intros]: "keeps I c \<Longrightarrow> keeps I b \<Longrightarrow> keeps I (go_defer c b)"
  by (rule keepsI) (auto simp: wp_simps intro!: wp_mono [OF keeps_wp] dest: keeps_wp)

lemma keeps_each [keeps_intros]: "(\<And>x. keeps I (f x)) \<Longrightarrow> keeps I (go_each f xs)"
  by (induction xs) (auto intro: keeps_intros)

end
