(* ===== verification/Schema.thy ===== *)
theory Schema
  imports Go_Effects
begin

section \<open>Task signatures and task states (schema/task.go)\<close>

text \<open>
  A slice is an option of a list: \<open>None\<close> is the nil slice, which JSON and the length tests
  of the code treat differently from a present empty one. \<open>json.RawMessage\<close> is a byte
  slice. A \<^verbatim>\<open>*time.Time\<close> is an optional instant.
\<close>

record arg =
  Arg_Name :: string
  Arg_Type :: string
  Arg_Value :: govalue

record signature =
  UUID :: string
  Name :: string
  Args :: "arg list option"
  RawArgs :: "string option"
  RoutingKey :: string
  Priority :: "8 word"
  RetryCount :: goint
  RetryTimeout :: goint
  WaitTime :: goint
  RetriesDone :: goint
  TaskTimeOut :: goint
  IgnoreWhenTaskNotRegistered :: bool
  CreatedAt :: "gotime option"
  ETA :: "gotime option"

text \<open>
  The two message structures the program declares and does not use; a \<^verbatim>\<open>reflect.Value\<close> is a
  dynamic value, and a context an opaque handle.
\<close>

record task_job =
  job_TaskFunc :: govalue
  job_UseContext :: bool
  job_Context :: "nat option"
  job_Args :: "govalue list option"

record amqp_message =
  ByteMsg :: "string option"
  MsgPriority :: "8 word"
  MsgRoutingKey :: string
  MsgExpiration :: "64 word"

text \<open>The zero value of the struct, from which composite literals start.\<close>

definition zero_signature :: signature where
  "zero_signature = \<lparr>UUID = [], Name = [], Args = None, RawArgs = None, RoutingKey = [],
     Priority = 0, RetryCount = 0, RetryTimeout = 0, WaitTime = 0, RetriesDone = 0,
     TaskTimeOut = 0, IgnoreWhenTaskNotRegistered = False, CreatedAt = None, ETA = None\<rparr>"

record task_state =
  Request :: signature
  StateError :: "goerror option"
  Status :: string
  Response :: "govalue list"

definition NewPendingTaskState :: "signature \<Rightarrow> task_state" where
  "NewPendingTaskState task =
     \<lparr>Request = task, StateError = None, Status = ''Pending'', Response = []\<rparr>"

definition NewCompleteTaskState :: "signature \<Rightarrow> task_state" where
  "NewCompleteTaskState task =
     \<lparr>Request = task, StateError = None, Status = ''Complete'', Response = []\<rparr>"

definition NewFailedTaskState :: "signature \<Rightarrow> task_state" where
  "NewFailedTaskState task =
     \<lparr>Request = task, StateError = None, Status = ''Failed'', Response = []\<rparr>"

definition NewCancelledTaskState :: "signature \<Rightarrow> task_state" where
  "NewCancelledTaskState task =
     \<lparr>Request = task, StateError = None, Status = ''Cancelled'', Response = []\<rparr>"

text \<open>
  \<open>uuid\<close> is the text \<^verbatim>\<open>uuid.New().String()\<close> returns at this call. The error result of
  the Go function is always nil.
\<close>

definition task_uuid :: "string \<Rightarrow> string" where
  "task_uuid uuid = ''task_'' @ uuid"

definition NewSignature :: "string \<Rightarrow> string \<Rightarrow> arg list option \<Rightarrow> signature" where
  "NewSignature uuid name args =
     zero_signature\<lparr>UUID := task_uuid uuid, Name := name, Args := args\<rparr>"

text \<open>
  The JSON encoder and the number-preserving decoder for a \<open>Signature\<close>, as one value the
  message components take: \<open>json_marshal\<close> is \<^verbatim>\<open>json.Marshal(signature)\<close>, \<open>json_decode\<close>
  the \<^verbatim>\<open>Decode\<close> of a decoder on which \<^verbatim>\<open>UseNumber\<close> was called.
\<close>

record json_codec =
  json_marshal :: "signature \<Rightarrow> goerror + string"
  json_decode :: "string \<Rightarrow> goerror + signature"

definition BytesToSignature :: "json_codec \<Rightarrow> string \<Rightarrow> goerror + signature" where
  "BytesToSignature codec data = (case json_decode codec data of
     Inl err \<Rightarrow> Inl (TextErr (''failed to decode signature: '' @ error_text err))
   | Inr signature \<Rightarrow> Inr signature)"

lemma BytesToSignature_ok [simp]:
  "BytesToSignature codec data = Inr s \<longleftrightarrow> json_decode codec data = Inr s"
  by (simp add: BytesToSignature_def split: sum.splits)

lemma task_uuid_nonempty [simp]: "task_uuid u \<noteq> []"
  by (simp add: task_uuid_def)

end
