(* ===== verification/Config.thy ===== *)
theory Config
  imports Go_Effects
begin

section \<open>Configuration (config)\<close>

text \<open>
  \<open>AMQPConfig\<close>, \<open>MongoDBConfig\<close> and \<open>Config\<close> as records (a nil pointer to a section is
  \<open>None\<close>), and the provider object that validates, stores and hands out the configuration.
  The validator and the environment parser are libraries: \<open>validate\<close> is the result of
  \<^verbatim>\<open>validator.New().Struct(cfg)\<close>, \<open>parse\<close> what \<^verbatim>\<open>env.ParseWithOptions\<close> writes into the
  structure it is given and the error it returns.
\<close>

record amqp_config =
  Url :: string
  Exchange :: string
  ExchangeType :: string
  QueueDeclareArgs :: gotable
  QueueBindingArgs :: gotable
  BindingKey :: string
  PrefetchCount :: goint
  AutoDelete :: bool
  DelayedQueue :: string
  FailedQueue :: string
  TimeoutQueue :: string
  ConnectionPoolSize :: goint
  HeartBeatInterval :: goint
  ConnectionTimeout :: goint

record mongo_config =
  MongoClient :: "nat option"
  URI :: string
  MaxPoolSize :: "64 word"
  DbName :: string

record config =
  Broker :: string
  Store :: string
  MaxTaskExecutionDuration :: goint
  TaskQueueName :: string
  StoreQueueName :: string
  AMQP :: "amqp_config option"
  MongoDB :: "mongo_config option"

definition empty_config :: config where
  "empty_config = \<lparr>Broker = [], Store = [], MaxTaskExecutionDuration = 0, TaskQueueName = [],
     StoreQueueName = [], AMQP = None, MongoDB = None\<rparr>"

text \<open>
  The constraints the \<^verbatim>\<open>validate\<close> tags of the two structures state, as the validator
  documents them: \<open>required\<close> rejects the zero value, \<open>oneof\<close> any other value than those
  listed, and a section behind a pointer is checked when it is present.
\<close>

definition amqp_tags_ok :: "amqp_config \<Rightarrow> bool" where
  "amqp_tags_ok a \<longleftrightarrow> Url a \<noteq> [] \<and> PrefetchCount a \<noteq> 0"

definition config_tags_ok :: "config \<Rightarrow> bool" where
  "config_tags_ok c \<longleftrightarrow> Broker c \<noteq> [] \<and> Broker c = ''amqp'' \<and> TaskQueueName c \<noteq> [] \<and>
     (case AMQP c of None \<Rightarrow> True | Some a \<Rightarrow> amqp_tags_ok a)"

definition validator_documented :: "(config \<Rightarrow> goerror option) \<Rightarrow> bool" where
  "validator_documented validate \<longleftrightarrow> (\<forall>c. validate c = None \<longleftrightarrow> config_tags_ok c)"

subsection \<open>The provider object\<close>

record config_provider =
  applicationConfig :: config

definition NewConfigProvider :: config_provider where
  "NewConfigProvider = \<lparr>applicationConfig = empty_config\<rparr>"

definition ValidateConfig :: "(config \<Rightarrow> goerror option) \<Rightarrow> config \<Rightarrow> (config_provider, unit) go" where
  "ValidateConfig validate cfg =
     (case validate cfg of Some err \<Rightarrow> go_fail (Err err) | None \<Rightarrow> go_return ())"

definition ReadFromEnv :: "(config \<Rightarrow> goerror option) \<Rightarrow> (config \<Rightarrow> config \<times> goerror option) \<Rightarrow>
    (config_provider, unit) go" where
  "ReadFromEnv validate parse cp =
     (let (cfg, err) = parse (applicationConfig cp); cp' = cp\<lparr>applicationConfig := cfg\<rparr>
      in case err of Some e \<Rightarrow> go_fail (Err e) cp' | None \<Rightarrow> ValidateConfig validate cfg cp')"

definition SetApplicationConfig :: "(config \<Rightarrow> goerror option) \<Rightarrow> config \<Rightarrow> (config_provider, unit) go" where
  "SetApplicationConfig validate config =
     go_seq (ValidateConfig validate config)
       (go_update (\<lambda>cp. cp\<lparr>applicationConfig :=
          (if MaxTaskExecutionDuration config = 0
           then config\<lparr>MaxTaskExecutionDuration := 10\<rparr> else config)\<rparr>))"

definition GetConfig :: "config_provider \<Rightarrow> config option" where
  "GetConfig cp = (if applicationConfig cp = empty_config then None else Some (applicationConfig cp))"

text \<open>The package-level provider, which may be set to nil: created on the first request.\<close>

definition SetConfigProvider :: "config_provider option \<Rightarrow> (config_provider option, unit) go" where
  "SetConfigProvider provider = go_update (\<lambda>global. provider)"

definition GetConfigProvider :: "config_provider option \<Rightarrow> config_provider \<times> config_provider option" where
  "GetConfigProvider global =
     (case global of None \<Rightarrow> (NewConfigProvider, Some NewConfigProvider) | Some p \<Rightarrow> (p, Some p))"

subsection \<open>What a stored configuration satisfies\<close>

lemma nonzero_duration_not_empty: "MaxTaskExecutionDuration c \<noteq> 0 \<Longrightarrow> c \<noteq> empty_config"
  by (auto simp: empty_config_def)

text \<open>
  After a configuration is accepted, \<open>GetConfig\<close> returns it, with the execution limit
  defaulted to 10 seconds: it is never nil.
\<close>

lemma SetApplicationConfig_GetConfig:
  assumes "SetApplicationConfig validate c cp = (Inr (), cp')"
  shows "\<exists>c'. GetConfig cp' = Some c' \<and> validate c = None \<and>
    c' = c\<lparr>MaxTaskExecutionDuration := MaxTaskExecutionDuration c'\<rparr> \<and>
    MaxTaskExecutionDuration c' =
      (if MaxTaskExecutionDuration c = 0 then 10 else MaxTaskExecutionDuration c)"
  using assms nonzero_duration_not_empty
  by (auto simp: SetApplicationConfig_def ValidateConfig_def GetConfig_def go_seq_def go_bind_def
      go_update_def go_return_def go_fail_def split: option.splits if_splits)

lemma SetApplicationConfig_rejects:
  assumes "SetApplicationConfig validate c cp = (Inl e, cp')"
  shows "cp' = cp \<and> (\<exists>err. validate c = Some err \<and> e = Err err)"
  using assms
  by (auto simp: SetApplicationConfig_def ValidateConfig_def go_seq_def go_bind_def
      go_update_def go_return_def go_fail_def split: option.splits if_splits)

end
