(* ===== verification/Amqp_Interface.thy ===== *)
theory Amqp_Interface
  imports Schema Config
begin

section \<open>The AMQP interface (AmqpProviderInterface)\<close>

text \<open>
  The messages and channel calls of the AMQP client library as the program uses them, the
  interface \<open>AmqpProviderInterface\<close> as a record of operations over a state \<open>'w\<close> (a Go
  interface value is a table of methods), and the contract its clients rely on, as a locale.
\<close>

record publishing =
  ContentType :: string
  PubPriority :: "8 word"
  PubBody :: string
  DeliveryMode :: "8 word"
  PubHeaders :: gotable
  Expiration :: string

text \<open>\<open>amqp.Persistent\<close>\<close>

definition Persistent :: "8 word" where
  "Persistent = 2"

text \<open>A message as the server receives it: exchange, routing key, content.\<close>

type_synonym message = "string \<times> string \<times> publishing"

type_synonym conn = nat
type_synonym chan = nat

text \<open>An \<open>interface{}\<close> that should hold a \<^verbatim>\<open>*amqp.Connection\<close> (perhaps a nil one).\<close>

datatype goiface = IfConn "conn option" | IfOther

datatype channel_call =
    ExchangeDeclare string string bool bool bool bool
  | QueueDeclare string bool bool bool bool gotable
  | QueueBind string string string bool
  | Qos goint goint bool
  | Consume string string bool bool bool bool

record 'w amqp_iface =
  i_CreateConnectionPool :: "('w, unit) go"
  i_GetConnectionFromPool :: "('w, goiface) go"
  i_ReleaseConnectionToPool :: "goiface \<Rightarrow> ('w, unit) go"
  i_CreateAmqpChannel :: "conn option \<Rightarrow> bool \<Rightarrow> ('w, chan \<times> bool) go"
  i_CloseAmqpChannel :: "chan \<Rightarrow> ('w, unit) go"
  i_DeclareExchange :: "chan \<Rightarrow> string \<Rightarrow> string \<Rightarrow> ('w, unit) go"
  i_DeclareQueue :: "chan \<Rightarrow> string \<Rightarrow> gotable \<Rightarrow> ('w, unit) go"
  i_QueueExchangeBind :: "chan \<Rightarrow> string \<Rightarrow> string \<Rightarrow> string \<Rightarrow> ('w, unit) go"
  i_SetChannelQoS :: "chan \<Rightarrow> goint \<Rightarrow> ('w, unit) go"
  i_CreateConsumer :: "chan \<Rightarrow> string \<Rightarrow> string \<Rightarrow> ('w, unit) go"
  i_AmqpPublishWithConfirm :: "string \<Rightarrow> publishing \<Rightarrow> string \<Rightarrow> ('w, unit) go"

text \<open>
  The publishing contract: \<open>log w\<close> is the list of messages the server has confirmed. A nil
  error means the message was confirmed, once; any other outcome means it was not.
\<close>

locale amqp_publisher =
  fixes ap :: "'w amqp_iface"
    and log :: "'w \<Rightarrow> message list"
  assumes publish_confirmed:
      "i_AmqpPublishWithConfirm ap key msg ex w = (Inr (), w') \<Longrightarrow>
       log w' = log w @ [(ex, key, msg)]"
    and publish_failed:
      "i_AmqpPublishWithConfirm ap key msg ex w = (Inl e, w') \<Longrightarrow> log w' = log w"

text \<open>
  The topology contract: \<open>calls w\<close> is the list of the declaring calls that succeeded. Each
  declaring operation that returns nil has made its call, with the flags the provider fixes,
  and an operation that fails, or that is not a declaration, has made none.
\<close>

locale amqp_topology =
  fixes ap :: "'w amqp_iface"
    and calls_of :: "'w \<Rightarrow> channel_call list"
  assumes exchange_declared:
      "i_DeclareExchange ap ch ex ty w = (r, w') \<Longrightarrow>
       calls_of w' = calls_of w @ (if r = Inr () then [ExchangeDeclare ex ty True False False False] else [])"
    and queue_declared:
      "i_DeclareQueue ap ch q args w = (r, w') \<Longrightarrow>
       calls_of w' = calls_of w @ (if r = Inr () then [QueueDeclare q True False False False args] else [])"
    and queue_bound:
      "i_QueueExchangeBind ap ch q key ex w = (r, w') \<Longrightarrow>
       calls_of w' = calls_of w @ (if r = Inr () then [QueueBind q key ex False] else [])"
    and get_no_call: "i_GetConnectionFromPool ap w = (g, w') \<Longrightarrow> calls_of w' = calls_of w"
    and release_no_call: "i_ReleaseConnectionToPool ap i w = (r, w') \<Longrightarrow> calls_of w' = calls_of w"
    and create_channel_no_call: "i_CreateAmqpChannel ap c b w = (cr, w') \<Longrightarrow> calls_of w' = calls_of w"
    and close_channel_no_call: "i_CloseAmqpChannel ap ch w = (r, w') \<Longrightarrow> calls_of w' = calls_of w"

end
