(* ===== verification/Go_Utils.thy ===== *)
theory Go_Utils
  imports Go_Effects
begin

section \<open>Utilities (internal/utils)\<close>

subsection \<open>Fibonacci\<close>

text \<open>
  The doubly recursive function on Go's 64-bit \<open>int\<close>: the sum wraps around, and an argument
  of at most 1, negative ones included, is returned as it is.
\<close>

function Fibonacci :: "goint \<Rightarrow> goint" where
  "Fibonacci n = (if sint n \<le> 1 then n else Fibonacci (n - 1) + Fibonacci (n - 2))"
  by pat_completeness auto
termination
proof (relation "measure (\<lambda>n :: goint. nat (sint n))")
  show "wf (measure (\<lambda>n :: goint. nat (sint n)))" by simp
next
  fix n :: goint
  assume "\<not> sint n \<le> 1"
  then show "(n - 1, n) \<in> measure (\<lambda>n :: goint. nat (sint n))"
    by (simp add: sint64_pred)
next
  fix n :: goint
  assume n: "\<not> sint n \<le> 1"
  have "sint (n - 2) = sint n - 2"
    using n sint64_range [of n] by (subst sint64_diff) auto
  with n show "(n - 2, n) \<in> measure (\<lambda>n :: goint. nat (sint n))" by simp
qed

declare Fibonacci.simps [simp del]

text \<open>The mathematical sequence, and a step of ten by which its values are reached.\<close>

fun fib :: "nat \<Rightarrow> nat" where
  "fib 0 = 0"
| "fib (Suc 0) = 1"
| "fib (Suc (Suc n)) = fib (Suc n) + fib n"

lemma fib_add10: "fib (n + 10) = 34 * fib n + 55 * fib (Suc n)"
proof -
  have "n + 10 = Suc (Suc (Suc (Suc (Suc (Suc (Suc (Suc (Suc (Suc n)))))))))" by simp
  then show ?thesis by (simp only: fib.simps)
qed

lemma fib_add10_Suc: "fib (Suc (n + 10)) = 55 * fib n + 89 * fib (Suc n)"
  using fib_add10 [of "Suc n"] by simp

lemma fib_49_50: "fib 49 = 7778742049" "fib 50 = 12586269025"
proof -
  have "fib 9 = 34 \<and> fib 10 = 55" by (simp add: eval_nat_numeral)
  then have "fib 19 = 4181 \<and> fib 20 = 6765"
    using fib_add10 [of 9] fib_add10_Suc [of 9] by simp
  then have "fib 29 = 514229 \<and> fib 30 = 832040"
    using fib_add10 [of 19] fib_add10_Suc [of 19] by simp
  then have "fib 39 = 63245986 \<and> fib 40 = 102334155"
    using fib_add10 [of 29] fib_add10_Suc [of 29] by simp
  then show "fib 49 = 7778742049" "fib 50 = 12586269025"
    using fib_add10 [of 39] fib_add10_Suc [of 39] by simp_all
qed

lemma fib_mono: "m \<le> n \<Longrightarrow> fib m \<le> fib n"
proof (induction n)
  case (Suc n)
  have "fib n \<le> fib (Suc n)" by (cases n) auto
  with Suc show ?case by (cases "m = Suc n") auto
qed simp

lemma fib_pos: "0 < n \<Longrightarrow> 0 < fib n"
  by (induction n rule: fib.induct) auto

lemma fib_gt_10: "7 \<le> n \<Longrightarrow> 13 \<le> fib n"
  using fib_mono [of 7 n] by (simp add: eval_nat_numeral)

lemma sint_of_nat64: "n < 2 ^ 63 \<Longrightarrow> sint (of_nat n :: 64 word) = int n"
  using sint64_of_int [of "int n"] by simp

lemma Fibonacci_of_nat: "n < 2 ^ 63 \<Longrightarrow> Fibonacci (of_nat n) = of_nat (fib n)"
proof (induction n rule: fib.induct)
  case (3 n)
  have ge: "\<not> sint (of_nat (Suc (Suc n)) :: goint) \<le> 1"
    using 3(3) sint_of_nat64 [of "Suc (Suc n)"] by simp
  have "(of_nat (Suc (Suc n)) :: goint) - 1 = of_nat (Suc n)"
    "(of_nat (Suc (Suc n)) :: goint) - 2 = of_nat n" by simp_all
  then show ?case
    using 3 by (subst Fibonacci.simps) (simp only: ge if_False, simp)
qed (simp_all add: Fibonacci.simps)

lemma Fibonacci_nonpos: "sint n \<le> 1 \<Longrightarrow> Fibonacci n = n"
  by (simp add: Fibonacci.simps)

text \<open>
  \<open>JitterMsecSleep\<close> sleeps for a random number of milliseconds; \<open>r\<close> is the number drawn
  from \<open>[0, max - min]\<close>, the result the duration slept.
\<close>

definition JitterMsecSleep :: "goint \<Rightarrow> goint \<Rightarrow> goint \<Rightarrow> goduration" where
  "JitterMsecSleep r mn mx = (r + mn) * 1000000"

subsection \<open>Reading dynamic values\<close>

fun GetString :: "govalue \<Rightarrow> string" where
  "GetString (VString s) = s"
| "GetString _ = []"

fun GetInt :: "govalue \<Rightarrow> goint" where
  "GetInt (VInt32 i) = word_of_int (sint i)"
| "GetInt (VInt64 i) = i"
| "GetInt (VInt i) = i"
| "GetInt (VFloat64 f) = float_to_int64 f"
| "GetInt _ = 0"

fun GetUInt8 :: "govalue \<Rightarrow> 8 word" where
  "GetUInt8 (VInt i) = ucast i"
| "GetUInt8 (VFloat64 f) = float_to_uint8 f"
| "GetUInt8 _ = 0"

fun GetBool :: "govalue \<Rightarrow> bool" where
  "GetBool (VBool b) = b"
| "GetBool _ = False"

fun GetInt64Ok :: "govalue \<Rightarrow> 64 word \<times> bool" where
  "GetInt64Ok (VInt64 i) = (i, True)"
| "GetInt64Ok (VFloat64 f) = (float_to_int64 f, True)"
| "GetInt64Ok _ = (0, False)"

lemma sint_of_int32:
  "- (2 ^ 31) \<le> k \<Longrightarrow> k < 2 ^ 31 \<Longrightarrow> sint (word_of_int k :: 32 word) = k"
  by (simp add: sint_sbintrunc' signed_take_bit_int_eq_self)

text \<open>An \<open>int\<close> that was narrowed to 32 bits on the wire is read back unchanged if it fits.\<close>

lemma GetInt_narrowed:
  "- (2 ^ 31) \<le> sint i \<Longrightarrow> sint i < 2 ^ 31 \<Longrightarrow> GetInt (VInt32 (word_of_int (sint i))) = i"
  by (simp only: GetInt.simps sint_of_int32) simp

end
