(* ===== verification/Amqp_Provider.thy ===== *)
theory Amqp_Provider
  imports Amqp_Interface Go_Utils
begin

section \<open>The AMQP provider and its connection pool (internal/provider/amqp.go)\<close>

text \<open>
  The provider's fields, and beside them what the AMQP library and the server know: which
  connections are closed, which have a watcher goroutine, which channels are open on which
  connection, the messages written to a channel (\<open>handed\<close>) and those the server confirmed
  (\<open>confirmed\<close>), and the calls on channels that succeeded (\<open>calls\<close>). Every library call
  takes a tick; the outcome of the call at tick \<open>t\<close> is given by the parameter \<open>net\<close>, and a
  new connection or channel is named by the tick of the call that made it.

  The mutex of the provider makes each operation that takes it one atomic step. A nil
  slice of connections behaves as an empty one in every operation (\<open>len\<close>, \<open>range\<close> and
  \<open>append\<close> agree on both), so the pool is a list.
\<close>

record dial_settings =
  DialUrl :: string
  DialHeartbeat :: goduration
  DialLocale :: string
  DialTimeout :: goduration

datatype confirm_result = ConfirmChanClosed | Confirmation bool | ConfirmTimeout

record amqp_net =
  dial :: "dial_settings \<Rightarrow> nat \<Rightarrow> goerror option"
  open_channel :: "nat \<Rightarrow> goerror option"
  confirm_mode :: "nat \<Rightarrow> goerror option"
  close_channel :: "nat \<Rightarrow> goerror option"
  publish_on :: "nat \<Rightarrow> goerror option"
  confirmation :: "nat \<Rightarrow> confirm_result"
  channel_op :: "channel_call \<Rightarrow> nat \<Rightarrow> goerror option"

record provider =
  amqpConf :: "amqp_config option"
  ConnectionPool :: "conn option list"
  tick :: nat
  closed :: "conn set"
  watched :: "conn option set"
  channels :: "(chan \<times> conn) set"
  handed :: "message list"
  confirmed :: "message list"
  calls :: "channel_call list"

definition NewAmqpProvider :: "amqp_config option \<Rightarrow> provider" where
  "NewAmqpProvider amqpConfig = \<lparr>amqpConf = amqpConfig, ConnectionPool = [], tick = 0,
     closed = {}, watched = {}, channels = {}, handed = [], confirmed = [], calls = []\<rparr>"

text \<open>A library call: it takes a tick, and yields it when it succeeds.\<close>

definition lib_call :: "(nat \<Rightarrow> goerror option) \<Rightarrow> (provider, nat) go" where
  "lib_call outcome p = (case outcome (tick p) of
     Some e \<Rightarrow> (Inl (Err e), p\<lparr>tick := Suc (tick p)\<rparr>)
   | None \<Rightarrow> (Inr (tick p), p\<lparr>tick := Suc (tick p)\<rparr>))"

text \<open>\<open>c.Close()\<close> on a connection also closes the channels on it.\<close>

definition close_conn :: "conn \<Rightarrow> provider \<Rightarrow> provider" where
  "close_conn c p = p\<lparr>closed := insert c (closed p),
     channels := {x \<in> channels p. snd x \<noteq> c}\<rparr>"

fun close_open :: "conn list \<Rightarrow> provider \<Rightarrow> provider" where
  "close_open [] p = p"
| "close_open (c # cs) p = close_open cs (if c \<in> closed p then p else close_conn c p)"

subsection \<open>Channels\<close>

definition nil_deref :: fault where
  "nil_deref = Panic ''invalid memory address or nil pointer dereference''"

definition CreateAmqpChannel ::
    "amqp_net \<Rightarrow> conn option \<Rightarrow> bool \<Rightarrow> (provider, chan \<times> bool) go" where
  "CreateAmqpChannel net conn confirm = (case conn of
     None \<Rightarrow> go_fail nil_deref
   | Some c \<Rightarrow>
       go_bind (lib_call (open_channel net)) (\<lambda>channel.
         go_seq (go_update (\<lambda>p. p\<lparr>channels := insert (channel, c) (channels p)\<rparr>))
          (if confirm
           then go_seq (lib_call (confirm_mode net)) (go_return (channel, True))
           else go_return (channel, False))))"

definition CloseAmqpChannel :: "amqp_net \<Rightarrow> chan \<Rightarrow> (provider, unit) go" where
  "CloseAmqpChannel net channel =
     go_seq (go_update (\<lambda>p. p\<lparr>channels := {x \<in> channels p. fst x \<noteq> channel}\<rparr>))
       (go_seq (lib_call (close_channel net)) (go_return ()))"

definition call_on_channel :: "amqp_net \<Rightarrow> channel_call \<Rightarrow> (provider, unit) go" where
  "call_on_channel net c =
     go_seq (lib_call (channel_op net c)) (go_update (\<lambda>p. p\<lparr>calls := calls p @ [c]\<rparr>))"

definition CreateConsumer :: "amqp_net \<Rightarrow> chan \<Rightarrow> string \<Rightarrow> string \<Rightarrow> (provider, unit) go" where
  "CreateConsumer net channel queueName consumerTag =
     call_on_channel net (Consume queueName consumerTag False False False False)"

definition DeclareExchange :: "amqp_net \<Rightarrow> chan \<Rightarrow> string \<Rightarrow> string \<Rightarrow> (provider, unit) go" where
  "DeclareExchange net channel exchangeName exchangeType =
     call_on_channel net (ExchangeDeclare exchangeName exchangeType True False False False)"

definition DeclareQueue :: "amqp_net \<Rightarrow> chan \<Rightarrow> string \<Rightarrow> gotable \<Rightarrow> (provider, unit) go" where
  "DeclareQueue net channel queueName declareQueueArgs =
     call_on_channel net (QueueDeclare queueName True False False False declareQueueArgs)"

definition QueueExchangeBind ::
    "amqp_net \<Rightarrow> chan \<Rightarrow> string \<Rightarrow> string \<Rightarrow> string \<Rightarrow> (provider, unit) go" where
  "QueueExchangeBind net channel queueName routingKey exchangeName =
     call_on_channel net (QueueBind queueName routingKey exchangeName False)"

definition SetChannelQoS :: "amqp_net \<Rightarrow> chan \<Rightarrow> goint \<Rightarrow> (provider, unit) go" where
  "SetChannelQoS net channel prefetchCount = call_on_channel net (Qos prefetchCount 0 False)"

definition AmqpPublish ::
    "amqp_net \<Rightarrow> chan \<Rightarrow> string \<Rightarrow> publishing \<Rightarrow> string \<Rightarrow> (provider, unit) go" where
  "AmqpPublish net channel routingKey amqpMsg exchangeName =
     go_seq (lib_call (publish_on net))
       (go_update (\<lambda>p. p\<lparr>handed := handed p @ [(exchangeName, routingKey, amqpMsg)]\<rparr>))"

subsection \<open>Connections\<close>

definition seconds :: "goint \<Rightarrow> goduration" where
  "seconds n = n * 1000000000"

definition dial_settings_of :: "amqp_config \<Rightarrow> dial_settings" where
  "dial_settings_of c =
     (let hb = seconds (HeartBeatInterval c);
          heartbeat = (if sint hb \<le> 0 then seconds 10 else hb);
          dt = seconds (ConnectionTimeout c);
          dialTimeout = (if sint dt \<le> 0 then seconds 5 else dt)
      in \<lparr>DialUrl = Url c, DialHeartbeat = heartbeat, DialLocale = ''en_US'',
          DialTimeout = dialTimeout\<rparr>)"

definition CreateConnection :: "amqp_net \<Rightarrow> (provider, conn) go" where
  "CreateConnection net p = (case amqpConf p of
     None \<Rightarrow> go_fail (Err (ConfigErr ErrNilConfig)) p
   | Some c \<Rightarrow> lib_call (dial net (dial_settings_of c)) p)"

definition watchConnection :: "conn option \<Rightarrow> provider \<Rightarrow> provider" where
  "watchConnection conn p = p\<lparr>watched := insert conn (watched p)\<rparr>"

text \<open>
  The dialling loop of \<open>CreateConnectionPool\<close> and \<open>refillConnectionPool\<close>: on an error the
  connections made so far are closed.
\<close>

fun dial_loop :: "amqp_net \<Rightarrow> nat \<Rightarrow> conn list \<Rightarrow> (provider, conn list) go" where
  "dial_loop net 0 acc p = (Inr acc, p)"
| "dial_loop net (Suc n) acc p = (case CreateConnection net p of
     (Inl e, p') \<Rightarrow> (Inl e, close_open acc p')
   | (Inr c, p') \<Rightarrow> dial_loop net n (acc @ [c]) p')"

definition install_pool :: "conn list \<Rightarrow> provider \<Rightarrow> provider" where
  "install_pool conns p =
     fold (\<lambda>c. watchConnection (Some c)) conns (p\<lparr>ConnectionPool := map Some conns\<rparr>)"

definition CreateConnectionPool :: "amqp_net \<Rightarrow> (provider, unit) go" where
  "CreateConnectionPool net p = (case amqpConf p of
     None \<Rightarrow> go_fail nil_deref p
   | Some c \<Rightarrow>
      (if sint (ConnectionPoolSize c) < 1 then go_fail (Err (ConfigErr ErrInvalidConfig)) p
       else go_bind
         (go_wrap ''CreateConnectionPool failed''
            (dial_loop net (nat (sint (ConnectionPoolSize c))) []))
         (\<lambda>connPool. go_update (install_pool connPool)) p))"

definition refillConnectionPool :: "amqp_net \<Rightarrow> (provider, unit) go" where
  "refillConnectionPool net p = (case amqpConf p of
     None \<Rightarrow> go_fail nil_deref p
   | Some c \<Rightarrow>
      (let p0 = close_open (List.map_filter id (ConnectionPool p)) p
       in if sint (ConnectionPoolSize c) < 0
          then go_fail (Panic ''makeslice: cap out of range'') p0
          else go_bind
            (go_wrap ''failed to refill connection pool''
               (dial_loop net (nat (sint (ConnectionPoolSize c))) []))
            (\<lambda>newPool. go_update (install_pool newPool)) p0))"

definition pop_connection :: "amqp_net \<Rightarrow> (provider, goiface) go" where
  "pop_connection net p = (case ConnectionPool p of
     [] \<Rightarrow> go_fail (Panic ''index out of range [0] with length 0'') p
   | amqpConn # rest \<Rightarrow>
      (let p' = p\<lparr>ConnectionPool := rest\<rparr>
       in if (case amqpConn of None \<Rightarrow> True | Some c \<Rightarrow> c \<in> closed p')
          then go_bind (go_wrap ''failed to recreate AMQP connection'' (CreateConnection net))
            (\<lambda>newAmqpConn. go_seq (go_update (watchConnection (Some newAmqpConn)))
               (go_return (IfConn (Some newAmqpConn)))) p'
          else go_return (IfConn amqpConn) p'))"

definition GetConnectionFromPool :: "amqp_net \<Rightarrow> (provider, goiface) go" where
  "GetConnectionFromPool net =
     go_seq (\<lambda>p. if ConnectionPool p = [] then refillConnectionPool net p else go_return () p)
       (pop_connection net)"

definition ReleaseConnectionToPool :: "amqp_net \<Rightarrow> goiface \<Rightarrow> (provider, unit) go" where
  "ReleaseConnectionToPool net conn p = (case conn of
     IfOther \<Rightarrow> go_return () p
   | IfConn amqpConnection \<Rightarrow>
      (if (case amqpConnection of None \<Rightarrow> True | Some c \<Rightarrow> c \<in> closed p)
       then go_bind (go_wrap ''failed to recreate AMQP connection'' (CreateConnection net))
         (\<lambda>newConn. go_seq (go_update (watchConnection amqpConnection))
            (go_update (\<lambda>p. p\<lparr>ConnectionPool := ConnectionPool p @ [Some newConn]\<rparr>))) p
       else go_update (\<lambda>p. p\<lparr>ConnectionPool := ConnectionPool p @ [amqpConnection]\<rparr>) p))"

definition DiscardConnection :: "goiface \<Rightarrow> (provider, unit) go" where
  "DiscardConnection conn = (case conn of
     IfConn (Some c) \<Rightarrow> go_update (close_conn c)
   | IfConn None \<Rightarrow> go_fail nil_deref
   | IfOther \<Rightarrow> go_return ())"

definition GetAmqpConnection :: "amqp_net \<Rightarrow> (provider, conn option) go" where
  "GetAmqpConnection net = go_bind (GetConnectionFromPool net)
     (\<lambda>amqpConn. case amqpConn of IfConn c \<Rightarrow> go_return c | IfOther \<Rightarrow> go_return None)"

text \<open>The watcher's reaction to a connection that failed: replaced in place, if it is pooled.\<close>

fun replace_first :: "'a \<Rightarrow> 'a \<Rightarrow> 'a list \<Rightarrow> 'a list" where
  "replace_first x y [] = []"
| "replace_first x y (z # zs) = (if z = x then y # zs else z # replace_first x y zs)"

definition replaceDeadConnection :: "amqp_net \<Rightarrow> conn \<Rightarrow> provider \<Rightarrow> provider" where
  "replaceDeadConnection net dead p =
     (if Some dead \<in> set (ConnectionPool p)
      then (case CreateConnection net p of
              (Inl _, p') \<Rightarrow> p'
            | (Inr newConn, p') \<Rightarrow> watchConnection (Some newConn)
                (p'\<lparr>ConnectionPool := replace_first (Some dead) (Some newConn) (ConnectionPool p')\<rparr>))
      else p)"

subsection \<open>Publishing with a confirmation\<close>

text \<open>
  The part of \<open>AmqpPublishWithConfirm\<close> after the connection was obtained; the second
  component is the final value of the local variable \<open>publishHadError\<close>. The log
  \<open>confirmed\<close> holds the confirmations the program has seen: a message whose confirmation
  comes after the five seconds the code waits may have been accepted by the server all the
  same, and is not in it (it is in \<open>handed\<close>, the log of what was written to a channel).
\<close>

definition await_confirm ::
    "amqp_net \<Rightarrow> message \<Rightarrow> provider \<Rightarrow> (fault + unit) \<times> bool \<times> provider" where
  "await_confirm net m p =
     (let p' = p\<lparr>tick := Suc (tick p)\<rparr>
      in case confirmation net (tick p) of
           ConfirmChanClosed \<Rightarrow>
             (Inl (Err (TextErr ''publish confirm channel closed (connection probably reset)'')), True, p')
         | Confirmation ack \<Rightarrow>
             (if \<not> ack then (Inl (Err (TextErr ''message not acked by broker'')), True, p')
              else (Inr (), False, p'\<lparr>confirmed := confirmed p' @ [m]\<rparr>))
         | ConfirmTimeout \<Rightarrow> (Inl (Err (TextErr ''publish confirm timeout'')), True, p'))"

definition publish_on_connection ::
    "amqp_net \<Rightarrow> conn option \<Rightarrow> string \<Rightarrow> publishing \<Rightarrow> string \<Rightarrow> provider \<Rightarrow>
     (fault + unit) \<times> bool \<times> provider" where
  "publish_on_connection net conn routingKey amqpMsg exchangeName p =
     (case CreateAmqpChannel net conn True p of
        (Inl (Err e), p1) \<Rightarrow> (Inl (Err e), True, p1)
      | (Inl (Panic m), p1) \<Rightarrow> (Inl (Panic m), False, p1)
      | (Inr (channel, _), p1) \<Rightarrow>
         (let (r, publishHadError, p3) =
            (case AmqpPublish net channel routingKey amqpMsg exchangeName p1 of
               (Inl (Err e), p2) \<Rightarrow> (Inl (Err (WrapErr ''failed to publish'' e)), True, p2)
             | (Inl (Panic m), p2) \<Rightarrow> (Inl (Panic m), False, p2)
             | (Inr _, p2) \<Rightarrow> await_confirm net (exchangeName, routingKey, amqpMsg) p2)
          in (r, publishHadError, snd (CloseAmqpChannel net channel p3))))"

definition AmqpPublishWithConfirm ::
    "amqp_net \<Rightarrow> string \<Rightarrow> publishing \<Rightarrow> string \<Rightarrow> (provider, unit) go" where
  "AmqpPublishWithConfirm net routingKey amqpMsg exchangeName =
     go_bind (GetAmqpConnection net) (\<lambda>conn p.
       let (r, publishHadError, p') = publish_on_connection net conn routingKey amqpMsg exchangeName p
       in go_defer
            (if publishHadError then DiscardConnection (IfConn conn)
             else ReleaseConnectionToPool net (IfConn conn))
            (\<lambda>p. (r, p)) p')"

text \<open>\<open>CloseConnection\<close> does nothing.\<close>

definition CloseConnection :: "(provider, unit) go" where
  "CloseConnection = go_return ()"

end
