(* ===== verification/Amqp_Pool.thy ===== *)
theory Amqp_Pool
  imports Amqp_Provider
begin

section \<open>Correctness of the connection pool\<close>

text \<open>
  Effect equations of the provider's operations, the ownership invariant of the pool (every
  connection is idle in the pool or held by one borrower, never both and never twice), the
  relation \<open>nothing_lost\<close> between two states (every connection still has an owner), the step
  relation of a pool shared by any number of borrowers, watchers and a failing network,
  and the publishing contract \<open>amqp_publisher\<close> for \<open>AmqpPublishWithConfirm\<close>.
\<close>

subsection \<open>Effects of the library calls\<close>

lemma wp_lib_call [wp_simps]:
  "wp (lib_call f) Q p = (case f (tick p) of
     Some e \<Rightarrow> Q (Inl (Err e)) (p\<lparr>tick := Suc (tick p)\<rparr>)
   | None \<Rightarrow> Q (Inr (tick p)) (p\<lparr>tick := Suc (tick p)\<rparr>))"
  by (simp add: wp_def lib_call_def split: option.split)

lemma wp_CreateConnection [wp_simps]:
  "wp (CreateConnection net) Q p = (case amqpConf p of
     None \<Rightarrow> Q (Inl (Err (ConfigErr ErrNilConfig))) p
   | Some c \<Rightarrow> (case dial net (dial_settings_of c) (tick p) of
       Some e \<Rightarrow> Q (Inl (Err e)) (p\<lparr>tick := Suc (tick p)\<rparr>)
     | None \<Rightarrow> Q (Inr (tick p)) (p\<lparr>tick := Suc (tick p)\<rparr>)))"
  by (simp add: wp_def CreateConnection_def lib_call_def go_fail_def split: option.split)

lemma close_open_eq:
  "close_open cs p = p\<lparr>closed := closed p \<union> set cs,
     channels := {x \<in> channels p. snd x \<notin> set cs - closed p}\<rparr>"
proof (induction cs arbitrary: p)
  case (Cons c cs)
  show ?case
    by (cases "c \<in> closed p") (auto simp: Cons close_conn_def insert_absorb intro!: arg_cong2 [where f = "\<lambda>a b. p\<lparr>closed := a, channels := b\<rparr>"])
qed simp

lemma install_pool_eq:
  "install_pool conns p =
     p\<lparr>ConnectionPool := map Some conns, watched := watched p \<union> Some ` set conns\<rparr>"
proof -
  have "fold (\<lambda>c. watchConnection (Some c)) cs q = q\<lparr>watched := watched q \<union> Some ` set cs\<rparr>" for cs q
    by (induction cs arbitrary: q) (auto simp: watchConnection_def)
  then show ?thesis by (simp add: install_pool_def)
qed

text \<open>
  The dialling loop: \<open>n\<close> fresh connections, named by consecutive ticks, or an error after
  which every connection it made is closed and nothing else has changed.
\<close>

definition dial_loop_post :: "nat \<Rightarrow> conn list \<Rightarrow> provider \<Rightarrow> fault + conn list \<Rightarrow> provider \<Rightarrow> bool" where
  "dial_loop_post n acc p r p' \<longleftrightarrow> (case r of
     Inr conns \<Rightarrow> conns = acc @ [tick p ..< tick p + n] \<and> p' = p\<lparr>tick := tick p + n\<rparr>
   | Inl e \<Rightarrow> (\<exists>k t. k \<le> n \<and> tick p + k \<le> t \<and> (\<exists>err. e = Err err) \<and>
       p' = close_open (acc @ [tick p ..< tick p + k]) (p\<lparr>tick := t\<rparr>)))"

lemma dial_loop_post_err:
  assumes "k \<le> n" "tick p + k \<le> t"
    and "p' = close_open (acc @ [tick p ..< tick p + k]) (p\<lparr>tick := t\<rparr>)"
  shows "dial_loop_post n acc p (Inl (Err err)) p'"
  unfolding dial_loop_post_def sum.case using assms by blast

lemma dial_loop_spec: "wp (dial_loop net n acc) (dial_loop_post n acc p) p"
proof (induction n arbitrary: acc p)
  case 0
  show ?case by (simp add: wp_def dial_loop_post_def)
next
  case (Suc n)
  show ?case
  proof (cases "CreateConnection net p")
    case (Pair r p1)
    show ?thesis
    proof (cases r)
      case (Inl e)
      have "wp (CreateConnection net) (\<lambda>r p'. r = Inl e \<longrightarrow>
          (\<exists>err. e = Err err) \<and> (\<exists>t. tick p \<le> t \<and> p' = p\<lparr>tick := t\<rparr>)) p"
        by (auto simp: wp_simps split: option.splits intro: exI [of _ "tick p"] exI [of _ "Suc (tick p)"])
      from wpD [OF this Pair] Inl obtain t err where
        t: "e = Err err" "tick p \<le> t" "p1 = p\<lparr>tick := t\<rparr>" by auto
      have "dial_loop_post (Suc n) acc p (Inl (Err err)) (close_open acc p1)"
        by (rule dial_loop_post_err [of 0 _ _ t]) (simp_all add: t)
      with Pair Inl t show ?thesis by (simp add: wp_def)
    next
      case (Inr c)
      have "wp (CreateConnection net) (\<lambda>r p'. r = Inr c \<longrightarrow>
          c = tick p \<and> p' = p\<lparr>tick := Suc (tick p)\<rparr>) p"
        by (auto simp: wp_simps split: option.splits)
      from wpD [OF this Pair] Inr have c: "c = tick p" "p1 = p\<lparr>tick := Suc (tick p)\<rparr>" by auto
      have split: "[tick p..<tick p + Suc k] = tick p # [Suc (tick p)..<Suc (tick p) + k]" for k
        by (simp add: upt_conv_Cons)
      from Suc [of "acc @ [c]" p1]
      have "wp (dial_loop net n (acc @ [c])) (dial_loop_post (Suc n) acc p) p1"
      proof (rule wp_mono)
        fix r s'
        assume post: "dial_loop_post n (acc @ [c]) p1 r s'"
        show "dial_loop_post (Suc n) acc p r s'"
        proof (cases r)
          case (Inr conns)
          with post c show ?thesis by (simp add: dial_loop_post_def upt_conv_Cons)
        next
          case (Inl e)
          with post c obtain k t err where k: "k \<le> n" "Suc (tick p) + k \<le> t" "e = Err err"
            "s' = close_open ((acc @ [c]) @ [tick p1 ..< tick p1 + k]) (p1\<lparr>tick := t\<rparr>)"
            by (auto simp: dial_loop_post_def)
          then have "s' = close_open (acc @ [tick p ..< tick p + Suc k]) (p\<lparr>tick := t\<rparr>)"
            using c by (simp only: split) simp
          with k Inl show ?thesis
            by (auto intro: dial_loop_post_err [of "Suc k" _ _ t])
        qed
      qed
      with Pair Inr show ?thesis by (simp add: wp_def)
    qed
  qed
qed

subsection \<open>The ownership invariant\<close>

text \<open>\<open>idle p\<close>: the connections in the pool. \<open>out\<close>: those borrowed and not yet given back.\<close>

definition idle :: "provider \<Rightarrow> conn list" where
  "idle p = map the (ConnectionPool p)"

definition pool_inv :: "conn list \<Rightarrow> provider \<Rightarrow> bool" where
  "pool_inv out p \<longleftrightarrow> None \<notin> set (ConnectionPool p) \<and> distinct (idle p @ out) \<and>
     (\<forall>c \<in> set (idle p) \<union> set out \<union> closed p. c < tick p) \<and>
     (\<forall>c. Some c \<in> watched p \<longrightarrow> c < tick p)"

text \<open>What every pool operation leaves alone: the traffic, and the order of time.\<close>

definition pool_frame :: "provider \<Rightarrow> provider \<Rightarrow> bool" where
  "pool_frame p p' \<longleftrightarrow> tick p \<le> tick p' \<and> closed p \<subseteq> closed p' \<and> channels p' \<subseteq> channels p \<and>
     handed p' = handed p \<and> confirmed p' = confirmed p \<and> calls p' = calls p \<and>
     amqpConf p' = amqpConf p"

lemma pool_frame_refl [simp]: "pool_frame p p"
  by (simp add: pool_frame_def)

lemma pool_frame_trans [trans]: "pool_frame p q \<Longrightarrow> pool_frame q r \<Longrightarrow> pool_frame p r"
  by (auto simp: pool_frame_def)

lemma pool_inv_tick [simp]: "pool_inv out p \<Longrightarrow> tick p \<le> t \<Longrightarrow> pool_inv out (p\<lparr>tick := t\<rparr>)"
  by (auto simp: pool_inv_def idle_def intro: less_le_trans)

lemma pool_inv_same:
  "pool_inv out p \<Longrightarrow> ConnectionPool q = ConnectionPool p \<Longrightarrow> closed q = closed p \<Longrightarrow>
   watched q = watched p \<Longrightarrow> tick p \<le> tick q \<Longrightarrow> pool_inv out q"
  by (auto simp: pool_inv_def idle_def intro: less_le_trans)

lemma pool_inv_close:
  "pool_inv out p \<Longrightarrow> \<forall>c \<in> set cs. c < tick p \<Longrightarrow> pool_inv out (close_open cs p)"
  by (auto simp: pool_inv_def idle_def close_open_eq)

lemma pool_inv_fresh: "pool_inv out p \<Longrightarrow> tick p \<notin> set (idle p) \<union> set out \<union> closed p"
  by (auto simp: pool_inv_def)

lemma dial_loop_inv:
  assumes inv: "pool_inv out p"
  shows "wp (dial_loop net n []) (\<lambda>r p'. pool_inv out p' \<and> pool_frame p p' \<and>
     ConnectionPool p' = ConnectionPool p \<and>
     (case r of Inr cs \<Rightarrow> length cs = n \<and> distinct cs \<and>
          (\<forall>c \<in> set cs. tick p \<le> c \<and> c < tick p') \<and> closed p' = closed p
        | Inl e \<Rightarrow> \<exists>err. e = Err err)) p"
proof (rule wp_mono [OF dial_loop_spec])
  fix r p'
  assume post: "dial_loop_post n [] p r p'"
  show "pool_inv out p' \<and> pool_frame p p' \<and> ConnectionPool p' = ConnectionPool p \<and>
     (case r of Inr cs \<Rightarrow> length cs = n \<and> distinct cs \<and>
          (\<forall>c \<in> set cs. tick p \<le> c \<and> c < tick p') \<and> closed p' = closed p
        | Inl e \<Rightarrow> \<exists>err. e = Err err)"
  proof (cases r)
    case (Inr cs)
    with post inv show ?thesis by (auto simp: dial_loop_post_def pool_frame_def)
  next
    case (Inl e)
    with post obtain k t where kt: "tick p + k \<le> t" "\<exists>err. e = Err err"
      "p' = close_open [tick p ..< tick p + k] (p\<lparr>tick := t\<rparr>)"
      by (auto simp: dial_loop_post_def)
    then have "pool_inv out p'" using inv by (auto intro!: pool_inv_close)
    with kt Inl show ?thesis by (auto simp: pool_frame_def close_open_eq)
  qed
qed

lemma install_pool_inv:
  assumes "pool_inv out p" "distinct cs" "\<forall>c \<in> set cs. c < tick p"
    and "set cs \<inter> set out = {}"
  shows "pool_inv out (install_pool cs p)"
  using assms by (auto simp: pool_inv_def idle_def install_pool_eq comp_def)

subsection \<open>The operations keep the invariant\<close>

text \<open>Dialling a fresh pool and installing it, as both pool constructors do.\<close>

definition installed_post :: "nat \<Rightarrow> conn list \<Rightarrow> provider \<Rightarrow> fault + unit \<Rightarrow> provider \<Rightarrow> bool" where
  "installed_post n out p r p' \<longleftrightarrow> pool_inv out p' \<and> pool_frame p p' \<and> (case r of
     Inr _ \<Rightarrow> length (ConnectionPool p') = n \<and> set (idle p') \<inter> closed p' = {}
   | Inl _ \<Rightarrow> ConnectionPool p' = ConnectionPool p)"

lemma dial_install_inv:
  assumes inv: "pool_inv out p"
  shows "wp (go_bind (go_wrap msg (dial_loop net n [])) (\<lambda>cs. go_update (install_pool cs)))
     (installed_post n out p) p"
  unfolding wp_simps
proof (rule wp_mono [OF dial_loop_inv [OF inv, of net n]], goal_cases)
  case (1 r p')
  show ?case
  proof (cases r)
    case (Inl e)
    with 1 show ?thesis by (auto simp: installed_post_def split: fault.split)
  next
    case (Inr cs)
    with 1 have p': "pool_inv out p'" "pool_frame p p'" "length cs = n" "distinct cs"
      "\<forall>c\<in>set cs. tick p \<le> c \<and> c < tick p'" "closed p' = closed p" by auto
    have old: "\<forall>c\<in>set out \<union> closed p. c < tick p" using inv by (auto simp: pool_inv_def)
    have "c \<notin> set out \<union> closed p" if "c \<in> set cs" for c
      using p'(5) old that by (meson leD)
    then have "set cs \<inter> set out = {}" "set cs \<inter> closed p = {}" by auto
    then have "pool_inv out (install_pool cs p')"
      using p' by (intro install_pool_inv) auto
    moreover have "set (idle (install_pool cs p')) \<inter> closed p = {}"
      using \<open>set cs \<inter> closed p = {}\<close> by (simp add: install_pool_eq idle_def comp_def)
    moreover have "pool_frame p (install_pool cs p')"
      using p'(2) by (simp add: install_pool_eq pool_frame_def)
    ultimately show ?thesis
      using Inr p' by (simp add: wp_update installed_post_def install_pool_eq)
  qed
qed

lemma CreateConnectionPool_inv:
  assumes inv: "pool_inv out p"
  shows "wp (CreateConnectionPool net) (\<lambda>r p'. pool_inv out p' \<and> pool_frame p p' \<and>
     (case r of Inr _ \<Rightarrow> \<exists>c. amqpConf p = Some c \<and> 1 \<le> sint (ConnectionPoolSize c) \<and>
          int (length (ConnectionPool p')) = sint (ConnectionPoolSize c) \<and>
          set (idle p') \<inter> closed p' = {}
        | Inl _ \<Rightarrow> ConnectionPool p' = ConnectionPool p)) p"
proof (cases "\<exists>c. amqpConf p = Some c \<and> 1 \<le> sint (ConnectionPoolSize c)")
  case True
  then obtain c where c: "amqpConf p = Some c" "1 \<le> sint (ConnectionPoolSize c)" by blast
  from dial_install_inv [OF inv, of "''CreateConnectionPool failed''" net
      "nat (sint (ConnectionPoolSize c))"] c
  show ?thesis
    by (auto simp: wp_def CreateConnectionPool_def installed_post_def split: prod.splits sum.splits)
qed (use inv in \<open>auto simp: wp_def CreateConnectionPool_def go_fail_def split: option.split\<close>)

lemma refillConnectionPool_inv:
  assumes inv: "pool_inv out p" and empty: "ConnectionPool p = []"
  shows "wp (refillConnectionPool net) (\<lambda>r p'. pool_inv out p' \<and> pool_frame p p' \<and>
     (case r of Inr _ \<Rightarrow> \<exists>c. amqpConf p = Some c \<and> 0 \<le> sint (ConnectionPoolSize c) \<and>
          int (length (ConnectionPool p')) = sint (ConnectionPoolSize c) \<and>
          set (idle p') \<inter> closed p' = {}
        | Inl _ \<Rightarrow> ConnectionPool p' = [])) p"
proof (cases "\<exists>c. amqpConf p = Some c \<and> 0 \<le> sint (ConnectionPoolSize c)")
  case True
  then obtain c where c: "amqpConf p = Some c" "0 \<le> sint (ConnectionPoolSize c)" by blast
  from dial_install_inv [OF inv, of "''failed to refill connection pool''" net
      "nat (sint (ConnectionPoolSize c))"] c empty
  show ?thesis
    by (auto simp: wp_def refillConnectionPool_def installed_post_def map_filter_def
        split: prod.splits sum.splits)
qed (use inv empty in \<open>auto simp: wp_def refillConnectionPool_def go_fail_def map_filter_def
      split: option.split\<close>)

text \<open>
  A connection that was popped is open at that moment and belongs to the borrower alone.
\<close>

definition borrowed_post :: "conn list \<Rightarrow> provider \<Rightarrow> fault + goiface \<Rightarrow> provider \<Rightarrow> bool" where
  "borrowed_post out p r p' \<longleftrightarrow> pool_frame p p' \<and> (case r of
     Inr i \<Rightarrow> \<exists>c. i = IfConn (Some c) \<and> c \<notin> closed p' \<and> c \<notin> set out \<and> pool_inv (c # out) p'
   | Inl _ \<Rightarrow> pool_inv out p')"

lemma pop_connection_inv:
  assumes inv: "pool_inv out p"
  shows "wp (pop_connection net) (borrowed_post out p) p"
proof (cases "ConnectionPool p")
  case Nil
  with inv show ?thesis by (simp add: wp_def pop_connection_def go_fail_def borrowed_post_def)
next
  case (Cons k rest)
  with inv obtain c where k: "k = Some c" by (cases k) (auto simp: pool_inv_def)
  let ?p = "p\<lparr>ConnectionPool := rest\<rparr>"
  have inv': "pool_inv (c # out) ?p" "pool_inv out ?p"
    using inv Cons k by (auto simp: pool_inv_def idle_def)
  show ?thesis
  proof (cases "c \<in> closed p")
    case False
    with Cons k inv' show ?thesis
      by (auto simp: wp_def pop_connection_def go_return_def borrowed_post_def pool_frame_def
          pool_inv_def)
  next
    case True
    have "wp (go_bind (go_wrap ''failed to recreate AMQP connection'' (CreateConnection net))
        (\<lambda>newAmqpConn. go_seq (go_update (watchConnection (Some newAmqpConn)))
           (go_return (IfConn (Some newAmqpConn))))) (borrowed_post out p) ?p"
      using inv' by (auto simp: wp_simps borrowed_post_def pool_frame_def watchConnection_def
          pool_inv_def idle_def split: option.splits dest: less_trans)
    with Cons k True show ?thesis
      by (simp add: wp_def pop_connection_def)
  qed
qed

lemma GetConnectionFromPool_inv:
  assumes inv: "pool_inv out p"
  shows "wp (GetConnectionFromPool net) (borrowed_post out p) p"
proof -
  have pop: "wp (pop_connection net) (borrowed_post out p) q"
    if "pool_inv out q" "pool_frame p q" for q
    using pop_connection_inv [OF that(1)]
    by (rule wp_mono) (use that(2) in \<open>auto simp: borrowed_post_def intro: pool_frame_trans\<close>)
  show ?thesis
  proof (cases "ConnectionPool p = []")
    case True
    have "wp (go_seq (refillConnectionPool net) (pop_connection net)) (borrowed_post out p) p"
      unfolding wp_simps
      by (rule wp_mono [OF refillConnectionPool_inv [OF inv True]])
        (auto simp: pop borrowed_post_def split: sum.splits)
    with True show ?thesis
      by (simp add: wp_def GetConnectionFromPool_def go_seq_def go_bind_def)
  next
    case False
    with pop [OF inv] show ?thesis
      by (simp add: wp_def GetConnectionFromPool_def go_seq_def go_bind_def go_return_def)
  qed
qed

text \<open>Giving a borrowed connection back, or dropping it.\<close>

lemma pool_inv_return:
  assumes "pool_inv out p" "c \<in> set out"
  shows "pool_inv (remove1 c out) p" "c \<notin> set (idle p)" "c < tick p"
    "c \<notin> set (remove1 c out)"
  using assms by (auto simp: pool_inv_def distinct_remove1 dest: notin_set_remove1)

lemma pool_inv_append:
  assumes "pool_inv out p" "c \<notin> set (idle p)" "c \<notin> set out" "c < tick p"
  shows "pool_inv out (p\<lparr>ConnectionPool := ConnectionPool p @ [Some c]\<rparr>)"
  using assms by (auto simp: pool_inv_def idle_def)

lemma ReleaseConnectionToPool_inv:
  assumes inv: "pool_inv out p" and c: "c \<in> set out"
  shows "wp (ReleaseConnectionToPool net (IfConn (Some c)))
     (\<lambda>r p'. pool_inv (remove1 c out) p' \<and> pool_frame p p' \<and>
        (c \<notin> closed p \<longrightarrow> r = Inr () \<and> ConnectionPool p' = ConnectionPool p @ [Some c])) p"
proof (cases "c \<in> closed p")
  case False
  then show ?thesis
    using pool_inv_append [OF pool_inv_return(1,2,4,3) [OF inv c]]
    by (simp add: wp_def ReleaseConnectionToPool_def go_update_def pool_frame_def)
next
  case True
  let ?t = "tick p"
  let ?p = "p\<lparr>tick := Suc ?t, watched := insert (Some c) (watched p)\<rparr>"
  have inv': "pool_inv (remove1 c out) (p\<lparr>tick := Suc ?t\<rparr>)" "pool_inv (remove1 c out) p"
    "pool_inv (remove1 c out) ?p"
    using pool_inv_return [OF inv c] by (auto simp: pool_inv_def idle_def less_Suc_eq)
  have fresh: "?t \<notin> set (idle ?p)" "?t \<notin> set (remove1 c out)"
    using pool_inv_fresh [OF inv'(2)] by (auto simp: idle_def)
  have "pool_inv (remove1 c out) (?p\<lparr>ConnectionPool := ConnectionPool ?p @ [Some ?t]\<rparr>)"
    using pool_inv_append [OF inv'(3) fresh] by simp
  with True inv' show ?thesis
    unfolding wp_def ReleaseConnectionToPool_def
    by (simp flip: wp_def add: wp_simps watchConnection_def pool_frame_def split: option.splits
        del: pool_inv_tick)
qed

lemma DiscardConnection_inv:
  assumes inv: "pool_inv out p" and c: "c \<in> set out"
  shows "wp (DiscardConnection (IfConn (Some c)))
     (\<lambda>r p'. r = Inr () \<and> pool_inv (remove1 c out) p' \<and> pool_frame p p' \<and>
        c \<in> closed p' \<and> c \<notin> set (idle p') \<and> ConnectionPool p' = ConnectionPool p) p"
  using pool_inv_return [OF inv c]
  by (auto simp: wp_def DiscardConnection_def go_update_def close_conn_def pool_frame_def
      pool_inv_def idle_def)

lemma map_the_replace_first:
  "None \<notin> set xs \<Longrightarrow> map the (replace_first (Some x) (Some y) xs) = replace_first x y (map the xs)"
  by (induction xs) (auto split: option.split)

lemma set_replace_first: "set (replace_first x y xs) \<subseteq> insert y (set xs)"
  by (induction xs) auto

lemma distinct_replace_first: "distinct xs \<Longrightarrow> y \<notin> set xs \<Longrightarrow> distinct (replace_first x y xs)"
  using set_replace_first by (induction xs) fastforce+

lemma length_replace_first [simp]: "length (replace_first x y xs) = length xs"
  by (induction xs) auto

lemma replaceDeadConnection_inv:
  assumes inv: "pool_inv out p"
  shows "pool_inv out (replaceDeadConnection net c p)" "pool_frame p (replaceDeadConnection net c p)"
proof -
  let ?t = "tick p"
  let ?q = "p\<lparr>tick := Suc ?t, ConnectionPool := replace_first (Some c) (Some ?t) (ConnectionPool p),
    watched := insert (Some ?t) (watched p)\<rparr>"
  have cases: "replaceDeadConnection net c p \<in> {p, p\<lparr>tick := Suc ?t\<rparr>, ?q}"
    by (auto simp: replaceDeadConnection_def CreateConnection_def lib_call_def go_fail_def
        watchConnection_def split: option.splits)
  have none: "None \<notin> set (ConnectionPool p)" and dist: "distinct (idle p)"
    using inv by (auto simp: pool_inv_def)
  have idle: "idle ?q = replace_first c ?t (idle p)"
    using map_the_replace_first [OF none] by (simp add: idle_def)
  have "None \<notin> set (ConnectionPool ?q)"
    using none set_replace_first [of "Some c" "Some ?t" "ConnectionPool p"] by auto
  moreover have "distinct (idle ?q @ out)"
    using inv dist pool_inv_fresh [OF inv] set_replace_first [of c ?t "idle p"]
    by (auto simp: idle pool_inv_def intro!: distinct_replace_first)
  moreover have "\<forall>c \<in> set (idle ?q) \<union> set out \<union> closed ?q. c < tick ?q"
    using inv set_replace_first [of c ?t "idle p"] by (auto simp: idle pool_inv_def less_Suc_eq)
  ultimately have "pool_inv out ?q"
    using inv by (auto simp: pool_inv_def less_Suc_eq)
  with cases inv show "pool_inv out (replaceDeadConnection net c p)" by auto
  from cases show "pool_frame p (replaceDeadConnection net c p)"
    by (auto simp: pool_frame_def)
qed

subsection \<open>Pool operations do not touch the confirmed messages and calls\<close>

abbreviation log_is :: "message list \<times> channel_call list \<Rightarrow> provider \<Rightarrow> bool" where
  "log_is L p \<equiv> (confirmed p, calls p) = L"

lemma keeps_lib_call [keeps_intros]: "keeps (log_is L) (lib_call f)"
  by (rule keepsI) (simp add: wp_simps split: option.split)

lemma keeps_update [keeps_intros]:
  "(\<And>p. confirmed (f p) = confirmed p \<and> calls (f p) = calls p) \<Longrightarrow> keeps (log_is L) (go_update f)"
  by (rule keepsI) (simp add: wp_simps)

lemma keeps_CreateConnection [keeps_intros]: "keeps (log_is L) (CreateConnection net)"
  by (rule keepsI) (simp add: wp_simps split: option.split)

lemma confirmed_simps [simp]:
  "confirmed (close_open cs p) = confirmed p"
  "confirmed (close_conn c p) = confirmed p"
  "confirmed (install_pool cs p) = confirmed p"
  "confirmed (watchConnection w p) = confirmed p"
  "calls (close_open cs p) = calls p"
  "calls (close_conn c p) = calls p"
  "calls (install_pool cs p) = calls p"
  "calls (watchConnection w p) = calls p"
  by (simp_all add: close_open_eq close_conn_def install_pool_eq watchConnection_def)

lemma keeps_dial_loop [keeps_intros]: "keeps (log_is L) (dial_loop net n acc)"
  by (rule keepsI, rule wp_mono [OF dial_loop_spec])
    (auto simp: dial_loop_post_def split: sum.splits)

lemma keeps_from: "(\<And>s. \<exists>m s'. keeps I m \<and> f s = m s' \<and> (I s \<longrightarrow> I s')) \<Longrightarrow> keeps I f"
  unfolding keeps_def by metis

lemma keeps_refill [keeps_intros]: "keeps (log_is L) (refillConnectionPool net)"
proof (rule keeps_from)
  fix p
  let ?dial = "\<lambda>c. go_bind (go_wrap ''failed to refill connection pool''
    (dial_loop net (nat (sint (ConnectionPoolSize c))) [])) (\<lambda>cs. go_update (install_pool cs))"
  have "keeps (log_is L) (?dial c)" for c by (intro keeps_intros) simp
  moreover have "keeps (log_is L) (go_fail e :: (provider, unit) go)" for e by (rule keeps_fail)
  ultimately show "\<exists>m s'. keeps (log_is L) m \<and> refillConnectionPool net p = m s' \<and>
      (log_is L p \<longrightarrow> log_is L s')"
    by (cases "amqpConf p") (fastforce simp: refillConnectionPool_def Let_def)+
qed

lemma keeps_pop [keeps_intros]: "keeps (log_is L) (pop_connection net)"
proof (rule keeps_from)
  fix p
  let ?new = "go_bind (go_wrap ''failed to recreate AMQP connection'' (CreateConnection net))
    (\<lambda>n. go_seq (go_update (watchConnection (Some n))) (go_return (IfConn (Some n))))"
  have "keeps (log_is L) ?new" by (intro keeps_intros) simp
  moreover have "keeps (log_is L) (go_fail e :: (provider, goiface) go)" for e by (rule keeps_fail)
  moreover have "keeps (log_is L) (go_return e :: (provider, goiface) go)" for e by (rule keeps_return)
  ultimately show "\<exists>m s'. keeps (log_is L) m \<and> pop_connection net p = m s' \<and>
      (log_is L p \<longrightarrow> log_is L s')"
    by (cases "ConnectionPool p") (fastforce simp: pop_connection_def Let_def)+
qed

lemma keeps_GetAmqpConnection [keeps_intros]: "keeps (log_is L) (GetAmqpConnection net)"
proof -
  have "keeps (log_is L) (\<lambda>p. if ConnectionPool p = [] then refillConnectionPool net p else go_return () p)"
    by (rule keeps_from) (auto intro: keeps_intros)
  then show ?thesis
    unfolding GetAmqpConnection_def GetConnectionFromPool_def
    by (intro keeps_intros) (auto intro!: keeps_intros split: goiface.split)
qed

lemma keeps_Release [keeps_intros]: "keeps (log_is L) (ReleaseConnectionToPool net i)"
proof (cases i)
  case (IfConn c)
  let ?new = "go_bind (go_wrap ''failed to recreate AMQP connection'' (CreateConnection net))
    (\<lambda>n. go_seq (go_update (watchConnection c))
       (go_update (\<lambda>p. p\<lparr>ConnectionPool := ConnectionPool p @ [Some n]\<rparr>)))"
  have "keeps (log_is L) ?new" by (intro keeps_intros) simp_all
  moreover have "keeps (log_is L) (go_update (\<lambda>p. p\<lparr>ConnectionPool := ConnectionPool p @ [c]\<rparr>))"
    by (intro keeps_intros) simp
  ultimately show ?thesis
    by (intro keeps_from) (auto simp: IfConn ReleaseConnectionToPool_def)
next
  case IfOther
  then have "ReleaseConnectionToPool net i = go_return ()"
    by (simp add: fun_eq_iff ReleaseConnectionToPool_def)
  then show ?thesis by (simp add: keeps_return)
qed

lemma keeps_Discard [keeps_intros]: "keeps (log_is L) (DiscardConnection i)"
  by (auto simp: DiscardConnection_def intro!: keeps_intros split: goiface.split option.split)

subsection \<open>Publishing with a confirmation\<close>

text \<open>
  The attempt on one connection: nil exactly when the server confirmed the message, and then
  the connection counts as healthy; on an error the flag is set, so that the connection will
  be dropped; and the only channel that may stay open is on a connection to be dropped.
\<close>

lemma publish_on_connection_spec:
  assumes "publish_on_connection net (Some c) key msg ex p = (r, bad, p')"
  shows "confirmed p' = confirmed p @ (if r = Inr () then [(ex, key, msg)] else [])"
    and "bad \<longleftrightarrow> r \<noteq> Inr ()" and "\<forall>e. r = Inl e \<longrightarrow> (\<exists>err. e = Err err)"
    and "ConnectionPool p' = ConnectionPool p" "closed p' = closed p" "watched p' = watched p"
    and "amqpConf p' = amqpConf p" "calls p' = calls p" "tick p < tick p'"
    and "\<forall>x \<in> channels p'. x \<in> channels p \<or> (bad \<and> snd x = c)"
    and "\<exists>hs. handed p' = handed p @ hs \<and> (r = Inr () \<longrightarrow> hs = [(ex, key, msg)])"
  using assms
  by (auto simp: publish_on_connection_def CreateAmqpChannel_def CloseAmqpChannel_def
      AmqpPublish_def await_confirm_def go_bind_def go_seq_def go_update_def go_return_def
      lib_call_def Let_def split: option.splits confirm_result.splits if_splits)

lemma publish_on_nil_connection:
  "publish_on_connection net None key msg ex p = (Inl nil_deref, False, p)"
  by (simp add: publish_on_connection_def CreateAmqpChannel_def go_fail_def nil_deref_def)

lemma Release_no_panic: "ReleaseConnectionToPool net i p = (r, p') \<Longrightarrow> r \<noteq> Inl (Panic m)"
  by (auto simp: ReleaseConnectionToPool_def CreateConnection_def lib_call_def go_bind_def go_wrap_def
      go_seq_def go_update_def go_return_def go_fail_def
      split: goiface.splits option.splits if_splits prod.splits sum.splits fault.splits)

lemma wp_finish_publish:
  assumes "publish_on_connection net conn key msg ex p1 = (r1, bad, p2)"
  shows "wp (\<lambda>p. let (r, b, p') = publish_on_connection net conn key msg ex p
       in go_defer (if b then DiscardConnection (IfConn conn)
                    else ReleaseConnectionToPool net (IfConn conn)) (\<lambda>p. (r, p)) p') Q p1 =
     wp (if bad then DiscardConnection (IfConn conn) else ReleaseConnectionToPool net (IfConn conn))
       (\<lambda>r'. Q (case r' of Inl (Panic m) \<Rightarrow> Inl (Panic m) | _ \<Rightarrow> r1)) p2"
  using assms by (simp add: wp_def go_defer_def split: prod.splits sum.splits fault.splits)

lemma AmqpPublishWithConfirm_log:
  assumes run: "AmqpPublishWithConfirm net key msg ex p = (r, p')"
  shows "confirmed p' = confirmed p @ (if r = Inr () then [(ex, key, msg)] else []) \<and>
    calls p' = calls p"
proof (cases "GetAmqpConnection net p")
  case (Pair r0 p1)
  have "log_is (confirmed p, calls p) p1"
    by (rule keepsD [OF keeps_GetAmqpConnection _ Pair]) simp
  then have get: "confirmed p1 = confirmed p" "calls p1 = calls p" by simp_all
  show ?thesis
  proof (cases r0)
    case (Inl e)
    with run Pair get show ?thesis by (auto simp: AmqpPublishWithConfirm_def go_bind_def)
  next
    case (Inr conn)
    obtain r1 bad p2 where att: "publish_on_connection net conn key msg ex p1 = (r1, bad, p2)"
      by (metis prod_cases3)
    let ?clean = "if bad then DiscardConnection (IfConn conn) else ReleaseConnectionToPool net (IfConn conn)"
    obtain r2 p3 where clean: "?clean p2 = (r2, p3)" by fastforce
    have "keeps (log_is (confirmed p2, calls p2)) ?clean"
      by (cases bad) (simp_all only: if_True if_False keeps_Discard keeps_Release)
    from keepsD [OF this refl clean] have p3: "confirmed p3 = confirmed p2" "calls p3 = calls p2"
      by simp_all
    have "go_defer ?clean (\<lambda>p. (r1, p)) p2 =
        (case r2 of Inl (Panic m) \<Rightarrow> (Inl (Panic m), p3) | _ \<Rightarrow> (r1, p3))"
      by (simp only: go_defer_def prod.case clean)
    with run have fin: "(r, p') = (case r2 of Inl (Panic m) \<Rightarrow> (Inl (Panic m), p3) | _ \<Rightarrow> (r1, p3))"
      by (simp only: AmqpPublishWithConfirm_def go_bind_def Pair Inr att Let_def prod.case sum.case)
    have p2: "confirmed p2 = confirmed p1 @ (if r1 = Inr () then [(ex, key, msg)] else []) \<and>
        calls p2 = calls p1 \<and> (bad \<longrightarrow> r1 \<noteq> Inr ())"
    proof (cases conn)
      case None
      with att show ?thesis by (auto simp: publish_on_nil_connection)
    next
      case (Some c)
      from publish_on_connection_spec(1,2,8) [OF att [unfolded Some]] show ?thesis by simp
    qed
    show ?thesis
    proof (cases "\<exists>m. r2 = Inl (Panic m)")
      case True
      then have "bad" using clean by (auto dest: Release_no_panic split: if_splits)
      with True fin p2 p3 get show ?thesis by auto
    next
      case False
      then have "r = r1" "p' = p3" using fin by (auto split: sum.splits fault.splits)
      with p2 p3 get show ?thesis by simp
    qed
  qed
qed

text \<open>The provider as a value of the interface, and the contract it meets.\<close>

definition amqp_provider :: "amqp_net \<Rightarrow> provider amqp_iface" where
  "amqp_provider net = \<lparr>
     i_CreateConnectionPool = CreateConnectionPool net,
     i_GetConnectionFromPool = GetConnectionFromPool net,
     i_ReleaseConnectionToPool = ReleaseConnectionToPool net,
     i_CreateAmqpChannel = CreateAmqpChannel net,
     i_CloseAmqpChannel = CloseAmqpChannel net,
     i_DeclareExchange = DeclareExchange net,
     i_DeclareQueue = DeclareQueue net,
     i_QueueExchangeBind = QueueExchangeBind net,
     i_SetChannelQoS = SetChannelQoS net,
     i_CreateConsumer = CreateConsumer net,
     i_AmqpPublishWithConfirm = AmqpPublishWithConfirm net\<rparr>"

interpretation prov: amqp_publisher "amqp_provider net" confirmed for net
  by unfold_locales (auto simp: amqp_provider_def dest: AmqpPublishWithConfirm_log)

lemma call_on_channel_calls:
  "call_on_channel net c p = (r, p') \<Longrightarrow> calls p' = calls p @ (if r = Inr () then [c] else [])"
  by (auto simp: call_on_channel_def lib_call_def go_seq_def go_bind_def go_update_def
      split: option.splits)

lemma keeps_Get [keeps_intros]: "keeps (log_is L) (GetConnectionFromPool net)"
proof -
  have "keeps (log_is L) (\<lambda>p. if ConnectionPool p = [] then refillConnectionPool net p else go_return () p)"
    by (rule keeps_from) (auto intro: keeps_intros)
  then show ?thesis
    unfolding GetConnectionFromPool_def by (intro keeps_intros)
qed

lemma keeps_CreateAmqpChannel [keeps_intros]: "keeps (log_is L) (CreateAmqpChannel net conn b)"
  by (auto simp: CreateAmqpChannel_def intro!: keeps_intros split: option.split)

lemma keeps_CloseAmqpChannel [keeps_intros]: "keeps (log_is L) (CloseAmqpChannel net ch)"
  unfolding CloseAmqpChannel_def by (intro keeps_intros) simp

lemma keeps_calls: "keeps (log_is (confirmed p, calls p)) m \<Longrightarrow> m p = (r, p') \<Longrightarrow> calls p' = calls p"
  by (drule keepsD [where s = p]) auto

interpretation topo: amqp_topology "amqp_provider net" calls for net
  by unfold_locales
    (auto simp: amqp_provider_def DeclareExchange_def DeclareQueue_def QueueExchangeBind_def
      dest: call_on_channel_calls keeps_calls [OF keeps_Get] keeps_calls [OF keeps_Release]
        keeps_calls [OF keeps_CreateAmqpChannel] keeps_calls [OF keeps_CloseAmqpChannel])

subsection \<open>A whole publish returns the pool to its borrowers' view\<close>

text \<open>
  From a pool owned as \<open>pool_inv out\<close> a publish, successful or not, ends with nothing more
  borrowed than before, and it leaves no channel of its own open.
\<close>

lemma GetAmqpConnection_inv:
  assumes "pool_inv out p"
  shows "wp (GetAmqpConnection net) (\<lambda>r p'. pool_frame p p' \<and> (case r of
     Inr conn \<Rightarrow> \<exists>c. conn = Some c \<and> c \<notin> closed p' \<and> c \<notin> set out \<and> pool_inv (c # out) p'
   | Inl _ \<Rightarrow> pool_inv out p')) p"
  unfolding GetAmqpConnection_def wp_bind
  by (rule wp_mono [OF GetConnectionFromPool_inv [OF assms]])
    (auto simp: borrowed_post_def wp_simps split: sum.splits)

lemma AmqpPublishWithConfirm_inv:
  assumes inv: "pool_inv out p"
  shows "wp (AmqpPublishWithConfirm net key msg ex) (\<lambda>r p'. pool_inv out p' \<and>
     channels p' \<subseteq> channels p \<and> tick p \<le> tick p' \<and> calls p' = calls p \<and> amqpConf p' = amqpConf p) p"
  unfolding AmqpPublishWithConfirm_def wp_bind
proof (rule wp_mono [OF GetAmqpConnection_inv [OF inv]], goal_cases)
  case (1 r p1)
  show ?case
  proof (cases r)
    case (Inl e)
    with 1 show ?thesis by (auto simp: pool_frame_def)
  next
    case (Inr conn)
    with 1 obtain c where c: "conn = Some c" "pool_inv (c # out) p1" "pool_frame p p1"
      "c \<notin> set out" by auto
    obtain r1 bad p2 where att: "publish_on_connection net (Some c) key msg ex p1 = (r1, bad, p2)"
      by (metis prod_cases3)
    note att' = publish_on_connection_spec [OF att]
    have inv2: "pool_inv (c # out) p2"
      by (rule pool_inv_same [OF c(2) att'(4-6)]) (use att'(9) in simp)
    have rel: "wp (ReleaseConnectionToPool net (IfConn (Some c)))
        (\<lambda>_ p'. pool_inv out p' \<and> pool_frame p2 p') p2"
      by (rule wp_mono [OF ReleaseConnectionToPool_inv [OF inv2, of c net]]) auto
    have dis: "wp (DiscardConnection (IfConn (Some c)))
        (\<lambda>_ p'. pool_inv out p' \<and> p' = close_conn c p2) p2"
      using DiscardConnection_inv [OF inv2, of c]
      by (auto simp: wp_def DiscardConnection_def go_update_def)
    have ch: "channels p2 \<subseteq> channels p" if "\<not> bad"
      using that att'(10) c(3) by (auto simp: pool_frame_def)
    have ch2: "channels (close_conn c p2) \<subseteq> channels p"
      using att'(10) c(3) by (auto simp: pool_frame_def close_conn_def)
    have t: "tick p \<le> tick p2" "calls p2 = calls p" "amqpConf p2 = amqpConf p"
      using c(3) att'(7-9) by (auto simp: pool_frame_def)
    have d: "wp (DiscardConnection (IfConn (Some c))) (\<lambda>_ p'. pool_inv out p' \<and>
        channels p' \<subseteq> channels p \<and> tick p \<le> tick p' \<and> calls p' = calls p \<and> amqpConf p' = amqpConf p) p2"
      using dis by (rule wp_mono) (use ch2 t in \<open>auto simp: close_conn_def\<close>)
    have e: "wp (ReleaseConnectionToPool net (IfConn (Some c))) (\<lambda>_ p'. pool_inv out p' \<and>
        channels p' \<subseteq> channels p \<and> tick p \<le> tick p' \<and> calls p' = calls p \<and> amqpConf p' = amqpConf p) p2" if "\<not> bad"
      using rel by (rule wp_mono) (use ch [OF that] t subset_trans in \<open>simp add: pool_frame_def, blast\<close>)
    from d e have "wp (if bad then DiscardConnection (IfConn (Some c))
        else ReleaseConnectionToPool net (IfConn (Some c))) (\<lambda>_ p'. pool_inv out p' \<and>
        channels p' \<subseteq> channels p \<and> tick p \<le> tick p' \<and> calls p' = calls p \<and> amqpConf p' = amqpConf p) p2"
      by (cases bad) simp_all
    then show ?thesis by (simp only: Inr c(1) sum.case wp_finish_publish [OF att])
  qed
qed

text \<open>With a usable configuration, obtaining a connection never panics.\<close>

lemma pop_no_panic: "ConnectionPool p \<noteq> [] \<Longrightarrow> pop_connection net p = (r, p') \<Longrightarrow> r \<noteq> Inl (Panic m)"
  by (auto simp: pop_connection_def CreateConnection_def lib_call_def go_bind_def go_wrap_def
      go_seq_def go_update_def go_return_def go_fail_def Let_def
      split: list.splits option.splits if_splits prod.splits sum.splits fault.splits)

lemma GetConnectionFromPool_no_panic:
  assumes inv: "pool_inv out p" and conf: "amqpConf p = Some a" "1 \<le> sint (ConnectionPoolSize a)"
    and run: "GetConnectionFromPool net p = (r, p')"
  shows "r \<noteq> Inl (Panic m)"
proof (cases "ConnectionPool p = []")
  case True
  obtain r1 p1 where fill: "refillConnectionPool net p = (r1, p1)" by fastforce
  from wpD [OF refillConnectionPool_inv [OF inv True] fill] conf
  have len: "r1 = Inr () \<Longrightarrow> ConnectionPool p1 \<noteq> []" by auto
  have no: "r1 \<noteq> Inl (Panic m)"
  proof -
    obtain r0 p0 where d: "dial_loop net (nat (sint (ConnectionPoolSize a))) [] p = (r0, p0)"
      by fastforce
    from wpD [OF dial_loop_inv [OF inv] d] have "\<forall>e. r0 = Inl e \<longrightarrow> (\<exists>err. e = Err err)"
      by auto
    with fill d conf True show ?thesis
      by (auto simp: refillConnectionPool_def map_filter_def go_bind_def go_wrap_def go_update_def
          split: sum.splits fault.splits if_splits)
  qed
  from run True fill show ?thesis
    using pop_no_panic [of p1 net r p' m] len no
    by (auto simp: GetConnectionFromPool_def go_seq_def go_bind_def split: sum.splits)
next
  case False
  with run pop_no_panic [of p net r p' m] show ?thesis
    by (simp add: GetConnectionFromPool_def go_seq_def go_bind_def go_return_def)
qed

subsection \<open>Nothing is lost\<close>

text \<open>
  The invariant says that no connection has two owners; that each has one is a relation
  between two states. A connection is accounted for while it is idle, borrowed or closed.
  From one state to the next nothing is lost when every connection accounted for still is,
  and so is every connection whose watcher was started in between.
\<close>

definition accounted :: "conn list \<Rightarrow> provider \<Rightarrow> conn set" where
  "accounted out p = set (idle p) \<union> set out \<union> closed p"

definition nothing_lost :: "conn list \<Rightarrow> provider \<Rightarrow> conn list \<Rightarrow> provider \<Rightarrow> bool" where
  "nothing_lost out p out' p' \<longleftrightarrow> accounted out p \<subseteq> accounted out' p' \<and>
     (\<forall>c. Some c \<in> watched p' - watched p \<longrightarrow> c \<in> accounted out' p')"

lemma nothing_lost_trans [trans]:
  "nothing_lost out p out1 p1 \<Longrightarrow> nothing_lost out1 p1 out2 p2 \<Longrightarrow> nothing_lost out p out2 p2"
  unfolding nothing_lost_def by blast

lemma nothing_lost_same:
  "ConnectionPool p' = ConnectionPool p \<Longrightarrow> closed p \<subseteq> closed p' \<Longrightarrow> watched p' = watched p \<Longrightarrow>
   nothing_lost out p out p'"
  by (auto simp: nothing_lost_def accounted_def idle_def)

lemma nothing_lost_refl [simp]: "nothing_lost out p out p"
  by (simp add: nothing_lost_same)

lemma dial_loop_same:
  assumes "dial_loop net n [] p = (r, p')"
  shows "ConnectionPool p' = ConnectionPool p \<and> closed p \<subseteq> closed p' \<and> watched p' = watched p"
  using wpD [OF dial_loop_spec assms] 
  by (auto simp: dial_loop_post_def close_open_eq split: sum.splits)

lemma refill_lossless:
  assumes "ConnectionPool p = []" "refillConnectionPool net p = (r, p')"
  shows "nothing_lost out p out p'"
proof (cases "\<exists>c. amqpConf p = Some c \<and> 0 \<le> sint (ConnectionPoolSize c)")
  case True
  then obtain c where c: "amqpConf p = Some c" "0 \<le> sint (ConnectionPoolSize c)" by blast
  obtain r0 p0 where d: "dial_loop net (nat (sint (ConnectionPoolSize c))) [] p = (r0, p0)" by fastforce
  note same = dial_loop_same [OF d]
  have "nothing_lost out p out p0" using same by (intro nothing_lost_same) auto
  moreover have "nothing_lost out p out (install_pool cs p0)" for cs
    using same assms(1) by (auto simp: nothing_lost_def accounted_def idle_def install_pool_eq image_iff)
  ultimately show ?thesis
    using assms c d by (auto simp: refillConnectionPool_def map_filter_def go_bind_def go_wrap_def
        go_update_def split: sum.splits fault.splits)
qed (use assms in \<open>auto simp: refillConnectionPool_def go_fail_def map_filter_def split: option.splits if_splits\<close>)

text \<open>The borrower's list after an attempt to borrow.\<close>

abbreviation lent :: "fault + goiface \<Rightarrow> conn list \<Rightarrow> conn list" where
  "lent r out \<equiv> (case r of Inr (IfConn (Some c)) \<Rightarrow> c # out | _ \<Rightarrow> out)"

lemma pop_lossless:
  assumes "pool_inv out p" "pop_connection net p = (r, p')"
  shows "nothing_lost out p (lent r out) p'"
proof (cases "ConnectionPool p")
  case Nil
  with assms show ?thesis by (auto simp: pop_connection_def go_fail_def)
next
  case (Cons k rest)
  with assms(1) obtain c where k: "k = Some c" by (cases k) (auto simp: pool_inv_def)
  show ?thesis
    using assms(2) Cons k
    by (auto simp: pop_connection_def Let_def go_bind_def go_wrap_def go_seq_def go_return_def go_fail_def
        go_update_def CreateConnection_def lib_call_def watchConnection_def nothing_lost_def
        accounted_def idle_def split: option.splits if_splits)
qed

lemma Get_lossless:
  assumes "pool_inv out p" "GetConnectionFromPool net p = (r, p')"
  shows "nothing_lost out p (lent r out) p'"
proof (cases "ConnectionPool p = []")
  case True
  obtain r1 p1 where fill: "refillConnectionPool net p = (r1, p1)" by fastforce
  have inv: "pool_inv out p1" using wpD [OF refillConnectionPool_inv [OF assms(1) True] fill] by simp
  from refill_lossless [OF True fill, of out] pop_lossless [OF inv, of net] assms(2) True fill show ?thesis
    by (auto simp: GetConnectionFromPool_def go_seq_def go_bind_def split: sum.splits
        intro: nothing_lost_trans)
next
  case False
  with assms pop_lossless [OF assms(1)] show ?thesis
    by (simp add: GetConnectionFromPool_def go_seq_def go_bind_def go_return_def)
qed

lemma Release_lossless:
  assumes "ReleaseConnectionToPool net (IfConn (Some c)) p = (r, p')"
  shows "nothing_lost (c # out) p out p'"
  using assms by (auto simp: ReleaseConnectionToPool_def go_bind_def go_wrap_def go_seq_def go_update_def
      CreateConnection_def lib_call_def go_fail_def watchConnection_def nothing_lost_def accounted_def
      idle_def split: option.splits if_splits)

lemma Discard_lossless:
  assumes "DiscardConnection (IfConn (Some c)) p = (r, p')"
  shows "nothing_lost (c # out) p out p'"
  using assms by (auto simp: DiscardConnection_def go_update_def close_conn_def nothing_lost_def
      accounted_def idle_def)

text \<open>
  A publish returns the connection it borrowed: to the back of the pool when the message was
  confirmed, closed otherwise; and nothing else is lost on the way.
\<close>

lemma AmqpPublishWithConfirm_returns:
  assumes inv: "pool_inv out p" and run: "AmqpPublishWithConfirm net key msg ex p = (r, p')"
  shows "nothing_lost out p out p' \<and> (\<forall>c p1. GetAmqpConnection net p = (Inr (Some c), p1) \<longrightarrow>
    (if r = Inr () then ConnectionPool p' = ConnectionPool p1 @ [Some c]
     else c \<in> closed p' \<and> ConnectionPool p' = ConnectionPool p1))"
proof -
  obtain r0 p1 where get: "GetConnectionFromPool net p = (r0, p1)" by fastforce
  note post = wpD [OF GetConnectionFromPool_inv [OF inv] get]
  note lost = Get_lossless [OF inv get]
  show ?thesis
  proof (cases r0)
    case (Inl e)
    with run get lost show ?thesis by (auto simp: AmqpPublishWithConfirm_def GetAmqpConnection_def go_bind_def)
  next
    case (Inr i)
    with post obtain c where c: "i = IfConn (Some c)" "c \<notin> closed p1" "pool_inv (c # out) p1"
      by (auto simp: borrowed_post_def)
    obtain r1 bad p2 where att: "publish_on_connection net (Some c) key msg ex p1 = (r1, bad, p2)"
      by (metis prod_cases3)
    note att' = publish_on_connection_spec [OF att]
    have lost2: "nothing_lost out p (c # out) p2"
      using lost nothing_lost_same [of p2 p1 "c # out"] att'(4-6) Inr c(1) by (auto intro: nothing_lost_trans)
    have inv2: "pool_inv (c # out) p2"
      by (rule pool_inv_same [OF c(3) att'(4-6)]) (use att'(9) in simp)
    have run': "go_defer (if bad then DiscardConnection (IfConn (Some c)) else ReleaseConnectionToPool net (IfConn (Some c)))
        (\<lambda>p. (r1, p)) p2 = (r, p')"
      using run att get Inr c(1) by (simp add: AmqpPublishWithConfirm_def GetAmqpConnection_def go_bind_def go_return_def)
    show ?thesis
    proof (cases bad)
      case True
      obtain r2 p3 where d: "DiscardConnection (IfConn (Some c)) p2 = (r2, p3)" by fastforce
      from wpD [OF DiscardConnection_inv [OF inv2, of c] d] run' d True att'(2,4) Inr c(1) get
        Discard_lossless [OF d, of out] lost2
      show ?thesis by (auto simp: go_defer_def GetAmqpConnection_def go_bind_def go_return_def intro: nothing_lost_trans)
    next
      case False
      obtain r2 p3 where d: "ReleaseConnectionToPool net (IfConn (Some c)) p2 = (r2, p3)" by fastforce
      from wpD [OF ReleaseConnectionToPool_inv [OF inv2, of c] d] run' d False att'(2,4,5) Inr c(1,2) get
        Release_lossless [OF d, of out] lost2
      show ?thesis by (auto simp: go_defer_def GetAmqpConnection_def go_bind_def go_return_def intro: nothing_lost_trans)
    qed
  qed
qed

subsection \<open>A pool shared by borrowers, watchers and a failing network\<close>

text \<open>
  One step of the shared pool: any operation of the provider, by any borrower; a connection
  dies; or a watcher is told that its connection failed. The second component of the state
  is the list of the connections that are borrowed.
\<close>

inductive pool_step :: "amqp_net \<Rightarrow> provider \<times> conn list \<Rightarrow> provider \<times> conn list \<Rightarrow> bool"
  for net where
  create: "CreateConnectionPool net p = (r, p') \<Longrightarrow> pool_step net (p, out) (p', out)"
| get: "GetConnectionFromPool net p = (Inr (IfConn (Some c)), p') \<Longrightarrow>
    pool_step net (p, out) (p', c # out)"
| get_error: "GetConnectionFromPool net p = (Inl e, p') \<Longrightarrow> pool_step net (p, out) (p', out)"
| use: "c \<in> set out \<Longrightarrow> publish_on_connection net (Some c) key msg ex p = (r, bad, p') \<Longrightarrow>
    pool_step net (p, out) (p', out)"
| release: "c \<in> set out \<Longrightarrow> ReleaseConnectionToPool net (IfConn (Some c)) p = (r, p') \<Longrightarrow>
    pool_step net (p, out) (p', remove1 c out)"
| discard: "c \<in> set out \<Longrightarrow> DiscardConnection (IfConn (Some c)) p = (r, p') \<Longrightarrow>
    pool_step net (p, out) (p', remove1 c out)"
| die: "c < tick p \<Longrightarrow> pool_step net (p, out) (p\<lparr>closed := insert c (closed p)\<rparr>, out)"
| watcher: "Some c \<in> watched p \<Longrightarrow> c \<in> closed p \<Longrightarrow>
    pool_step net (p, out)
      (replaceDeadConnection net c (p\<lparr>watched := watched p - {Some c}\<rparr>), out)"

inductive pool_reach :: "amqp_net \<Rightarrow> amqp_config option \<Rightarrow> provider \<times> conn list \<Rightarrow> bool"
  for net conf where
  start: "pool_reach net conf (NewAmqpProvider conf, [])"
| step: "pool_reach net conf s \<Longrightarrow> pool_step net s t \<Longrightarrow> pool_reach net conf t"

inductive_cases pool_stepE: "pool_step net (p, out) t"

lemma pool_step_inv: "pool_step net s t \<Longrightarrow> pool_inv (snd s) (fst s) \<Longrightarrow> pool_inv (snd t) (fst t)"
proof (induction rule: pool_step.induct)
  case (create p r p' out)
  with wpD [OF CreateConnectionPool_inv] show ?case by fastforce
next
  case (get p c p' out)
  with wpD [OF GetConnectionFromPool_inv] show ?case by (fastforce simp: borrowed_post_def)
next
  case (get_error p e p' out)
  with wpD [OF GetConnectionFromPool_inv] show ?case by (fastforce simp: borrowed_post_def)
next
  case (use c out key msg ex p r bad p')
  note att = publish_on_connection_spec [OF use(2)]
  show ?case
    using use(3) pool_inv_same [OF _ att(4-6)] att(9) by simp
next
  case (release c out p r p')
  with wpD [OF ReleaseConnectionToPool_inv] show ?case by fastforce
next
  case (discard c out p r p')
  with wpD [OF DiscardConnection_inv] show ?case by fastforce
next
  case (die c p out)
  then show ?case by (auto simp: pool_inv_def idle_def)
next
  case (watcher c p out)
  then have "pool_inv out (p\<lparr>watched := watched p - {Some c}\<rparr>)"
    by (auto simp: pool_inv_def idle_def)
  then show ?case by (simp add: replaceDeadConnection_inv)
qed

lemma pool_reach_inv: "pool_reach net conf s \<Longrightarrow> pool_inv (snd s) (fst s)"
proof (induction rule: pool_reach.induct)
  case start
  show ?case by (simp add: pool_inv_def idle_def NewAmqpProvider_def)
next
  case (step s t)
  then show ?case by (blast intro: pool_step_inv)
qed

end
