(* ===== verification/Amqp_Broker.thy ===== *)
theory Amqp_Broker
  imports Amqp_Pool
begin

section \<open>The AMQP broker (internal/broker/amqp/broker.go)\<close>

text \<open>
  The broker over the AMQP interface: the message a signature becomes, its time to live and
  its routing key, publishing, and the exchange, queues and bindings declared at start-up.
  \<open>bamqp b\<close> is the section \<^verbatim>\<open>*b.config.AMQP\<close>: \<open>NewAMQPBroker\<close> returns no broker when
  that pointer is nil.
\<close>

record amqp_broker =
  bconfig :: config
  bamqp :: amqp_config

subsection \<open>Configuration accessors\<close>

definition getTaskQueue :: "amqp_broker \<Rightarrow> string" where
  "getTaskQueue b = TaskQueueName (bconfig b)"

definition getDelayedQueue :: "amqp_broker \<Rightarrow> string" where
  "getDelayedQueue b = DelayedQueue (bamqp b)"

definition getFailedQueue :: "amqp_broker \<Rightarrow> string" where
  "getFailedQueue b = FailedQueue (bamqp b)"

definition getTimeoutQueue :: "amqp_broker \<Rightarrow> string" where
  "getTimeoutQueue b = TimeoutQueue (bamqp b)"

definition getQueuePrefetchCount :: "amqp_broker \<Rightarrow> goint" where
  "getQueuePrefetchCount b = PrefetchCount (bamqp b)"

definition getDelayedQueueDLX :: "amqp_broker \<Rightarrow> string" where
  "getDelayedQueueDLX b = Exchange (bamqp b)"

definition getExchangeName :: "amqp_broker \<Rightarrow> string" where
  "getExchangeName b = Exchange (bamqp b)"

definition getExchangeType :: "amqp_broker \<Rightarrow> string" where
  "getExchangeType b = ExchangeType (bamqp b)"

definition isDirectExchange :: "amqp_broker \<Rightarrow> bool" where
  "isDirectExchange b \<longleftrightarrow> ExchangeType (bamqp b) = ''direct''"

definition getRoutingKey :: "amqp_broker \<Rightarrow> string" where
  "getRoutingKey b =
     (if BindingKey (bamqp b) = [] then getTaskQueue b
      else if isDirectExchange b then BindingKey (bamqp b)
      else getTaskQueue b)"

subsection \<open>The message of a signature\<close>

text \<open>\<^verbatim>\<open>t.Unix()\<close>, and \<^verbatim>\<open>a.Sub(b)\<close>, which saturates at the limits of a \<open>Duration\<close>.\<close>

definition unix_seconds :: "gotime \<Rightarrow> 64 word" where
  "unix_seconds t = word_of_int (t div 1000000000)"

definition time_sub :: "gotime \<Rightarrow> gotime \<Rightarrow> goduration" where
  "time_sub a b = word_of_int (max (- (2 ^ 63)) (min (2 ^ 63 - 1) (a - b)))"

definition buildHeadersFromSignature :: "signature \<Rightarrow> gotable" where
  "buildHeadersFromSignature sig =
     (let headers = [
        ''uuid'' \<mapsto> VString (UUID sig),
        ''task_name'' \<mapsto> VString (Name sig),
        ''retry_count'' \<mapsto> VInt (RetryCount sig),
        ''retry_timeout'' \<mapsto> VInt (RetryTimeout sig),
        ''timeout'' \<mapsto> VInt (TaskTimeOut sig),
        ''wait_time'' \<mapsto> VInt (WaitTime sig),
        ''retries_done'' \<mapsto> VInt (RetriesDone sig),
        ''ignore_if_unregistered'' \<mapsto> VBool (IgnoreWhenTaskNotRegistered sig)];
      headers = (case CreatedAt sig of None \<Rightarrow> headers
        | Some t \<Rightarrow> headers(''created_at'' \<mapsto> VInt64 (unix_seconds t)))
      in case ETA sig of None \<Rightarrow> headers
        | Some t \<Rightarrow> headers(''eta'' \<mapsto> VInt64 (unix_seconds t)))"

text \<open>Whether the signature is sent as raw arguments with its metadata in the headers.\<close>

definition sends_raw :: "signature \<Rightarrow> bool" where
  "sends_raw sig \<longleftrightarrow> (case RawArgs sig of None \<Rightarrow> False | Some r \<Rightarrow> r \<noteq> [] \<and> r \<noteq> ''null'')"

definition prepareMessageBodyAndHeaders ::
    "json_codec \<Rightarrow> signature \<Rightarrow> goerror + string \<times> gotable" where
  "prepareMessageBodyAndHeaders codec sig =
     (if sends_raw sig
      then Inr (case RawArgs sig of Some r \<Rightarrow> r | None \<Rightarrow> [], buildHeadersFromSignature sig)
      else (case json_marshal codec sig of
          Inl err \<Rightarrow> Inl (WrapErr ''JSON marshal error'' err)
        | Inr body \<Rightarrow> Inr (body, Map.empty)))"

text \<open>The expiration of the message in milliseconds, 0 for none; \<open>now\<close> is \<^verbatim>\<open>time.Now()\<close>.\<close>

definition getTaskTTL :: "gotime \<Rightarrow> signature \<Rightarrow> 64 word" where
  "getTaskTTL now sig = (case ETA sig of
     None \<Rightarrow> 0
   | Some eta \<Rightarrow>
      (if 1 < Priority sig \<and> TaskTimeOut sig \<noteq> 0 \<and> CreatedAt sig \<noteq> None then 5
       else if now < eta then word_of_int (sint (time_sub eta now) div 1000000)
       else 0))"

subsection \<open>Publishing\<close>

text \<open>
  \<open>Publish\<close> may write the routing key of the signature it is given, so the signature is
  part of the result.
\<close>

definition Publish :: "'w amqp_iface \<Rightarrow> json_codec \<Rightarrow> amqp_broker \<Rightarrow> gotime \<Rightarrow> signature \<Rightarrow> 'w \<Rightarrow>
    (fault + unit) \<times> signature \<times> 'w" where
  "Publish ap codec b now sig w =
     (case prepareMessageBodyAndHeaders codec sig of
        Inl err \<Rightarrow> (Inl (Err err), sig, w)
      | Inr (body, headers) \<Rightarrow>
         (let msg = \<lparr>ContentType = ''application/json'', PubPriority = Priority sig,
                PubBody = body, DeliveryMode = Persistent, PubHeaders = headers, Expiration = []\<rparr>;
              delayMs = getTaskTTL now sig;
              (msg, sig) =
                (if 0 < sint delayMs then (msg\<lparr>Expiration := itoa (sint delayMs)\<rparr>, sig)
                 else if RoutingKey sig = [] then (msg, sig\<lparr>RoutingKey := getRoutingKey b\<rparr>)
                 else (msg, sig));
              (r, w') = i_AmqpPublishWithConfirm ap (RoutingKey sig) msg (getExchangeName b) w
          in (r, sig, w')))"

subsection \<open>Start-up\<close>

definition getConnection :: "'w amqp_iface \<Rightarrow> ('w, conn option) go" where
  "getConnection ap = go_bind (i_GetConnectionFromPool ap)
     (\<lambda>amqpConn. case amqpConn of IfConn c \<Rightarrow> go_return c | IfOther \<Rightarrow> go_return None)"

definition declare_extra_queue :: "'w amqp_iface \<Rightarrow> amqp_broker \<Rightarrow> chan \<Rightarrow> string \<Rightarrow> ('w, unit) go" where
  "declare_extra_queue ap b channel q =
     (if q \<noteq> []
      then go_seq (i_DeclareQueue ap channel q (QueueDeclareArgs (bamqp b)))
        (i_QueueExchangeBind ap channel q q (Exchange (bamqp b)))
      else go_return ())"

definition delayed_queue_args :: "amqp_broker \<Rightarrow> gotable" where
  "delayed_queue_args b = [
     ''x-dead-letter-exchange'' \<mapsto> VString (getDelayedQueueDLX b),
     ''x-dead-letter-routing-key'' \<mapsto> VString (getRoutingKey b)]"

definition declare_topology :: "'w amqp_iface \<Rightarrow> amqp_broker \<Rightarrow> chan \<Rightarrow> ('w, unit) go" where
  "declare_topology ap b channel =
     go_seq (i_DeclareExchange ap channel (getExchangeName b) (getExchangeType b))
    (go_seq (i_DeclareQueue ap channel (getTaskQueue b) (QueueDeclareArgs (bamqp b)))
    (go_seq (i_DeclareQueue ap channel (getDelayedQueue b) (delayed_queue_args b))
    (go_seq (i_QueueExchangeBind ap channel (getTaskQueue b) (BindingKey (bamqp b)) (Exchange (bamqp b)))
    (go_seq (i_QueueExchangeBind ap channel (getDelayedQueue b) (getDelayedQueue b) (getDelayedQueueDLX b))
    (go_seq (declare_extra_queue ap b channel (getFailedQueue b))
      (declare_extra_queue ap b channel (getTimeoutQueue b)))))))"

definition setupExchangeQueueBinding :: "'w amqp_iface \<Rightarrow> amqp_broker \<Rightarrow> ('w, unit) go" where
  "setupExchangeQueueBinding ap b =
     go_bind (getConnection ap) (\<lambda>amqpConn.
       go_defer (i_ReleaseConnectionToPool ap (IfConn amqpConn))
        (go_bind (i_CreateAmqpChannel ap amqpConn False) (\<lambda>(channel, _).
           go_defer (i_CloseAmqpChannel ap channel) (declare_topology ap b channel))))"

definition NewAMQPBroker :: "'w amqp_iface \<Rightarrow> config option \<Rightarrow> ('w, amqp_broker) go" where
  "NewAMQPBroker ap cfg = (case cfg of
     None \<Rightarrow> go_fail nil_deref
   | Some c \<Rightarrow>
       go_seq (i_CreateConnectionPool ap)
        (case AMQP c of
           None \<Rightarrow> go_fail nil_deref
         | Some a \<Rightarrow> go_seq (setupExchangeQueueBinding ap \<lparr>bconfig = c, bamqp = a\<rparr>)
             (go_return \<lparr>bconfig = c, bamqp = a\<rparr>)))"

subsection \<open>What is published\<close>

text \<open>
  The abstract content of a publish: the message and the signature after it, as functions of
  the signature and the time.
\<close>

definition published_signature :: "amqp_broker \<Rightarrow> gotime \<Rightarrow> signature \<Rightarrow> signature" where
  "published_signature b now sig =
     (if sint (getTaskTTL now sig) \<le> 0 \<and> RoutingKey sig = []
      then sig\<lparr>RoutingKey := getRoutingKey b\<rparr> else sig)"

definition published_message ::
    "json_codec \<Rightarrow> amqp_broker \<Rightarrow> gotime \<Rightarrow> signature \<Rightarrow> goerror + message" where
  "published_message codec b now sig =
     (case prepareMessageBodyAndHeaders codec sig of
        Inl err \<Rightarrow> Inl err
      | Inr (body, headers) \<Rightarrow> Inr (getExchangeName b, RoutingKey (published_signature b now sig),
          \<lparr>ContentType = ''application/json'', PubPriority = Priority sig, PubBody = body,
           DeliveryMode = Persistent, PubHeaders = headers,
           Expiration = (if 0 < sint (getTaskTTL now sig) then itoa (sint (getTaskTTL now sig)) else [])\<rparr>))"

lemma Publish_eq:
  "Publish ap codec b now sig w = (case published_message codec b now sig of
     Inl err \<Rightarrow> (Inl (Err err), sig, w)
   | Inr (ex, key, msg) \<Rightarrow>
       (case i_AmqpPublishWithConfirm ap key msg ex w of (r, w') \<Rightarrow>
          (r, published_signature b now sig, w')))"
  by (auto simp: Publish_def published_message_def published_signature_def Let_def not_less
      split: sum.splits prod.splits)

text \<open>
  The contract of the broker interface, for its client the task registrar: a nil error adds
  exactly the message of the signature to the confirmed ones, an error or panic adds none,
  and of the signature only the routing key may change.
\<close>

locale task_broker =
  fixes pub :: "gotime \<Rightarrow> signature \<Rightarrow> 'w \<Rightarrow> (fault + unit) \<times> signature \<times> 'w"
    and log :: "'w \<Rightarrow> message list"
    and content :: "gotime \<Rightarrow> signature \<Rightarrow> goerror + message"
  assumes pub_confirmed: "pub now sig w = (Inr (), sig', w') \<Longrightarrow>
      \<exists>m. content now sig = Inr m \<and> log w' = log w @ [m]"
    and pub_failed: "pub now sig w = (Inl e, sig', w') \<Longrightarrow> log w' = log w"
    and pub_signature: "pub now sig w = (r, sig', w') \<Longrightarrow>
      sig' = sig\<lparr>RoutingKey := RoutingKey sig'\<rparr>"

context amqp_publisher
begin

lemma Publish_confirmed:
  assumes "Publish ap codec b now sig w = (Inr (), sig', w')"
  shows "\<exists>m. published_message codec b now sig = Inr m \<and> log w' = log w @ [m]"
  using assms publish_confirmed
  by (auto simp: Publish_eq split: sum.splits prod.splits)

lemma Publish_failed:
  assumes "Publish ap codec b now sig w = (Inl e, sig', w')"
  shows "log w' = log w"
  using assms publish_failed by (auto simp: Publish_eq split: sum.splits prod.splits)

lemma Publish_signature:
  assumes "Publish ap codec b now sig w = (r, sig', w')"
  shows "sig' = sig\<lparr>RoutingKey := RoutingKey sig'\<rparr>"
  using assms
  by (auto simp: Publish_eq published_signature_def split: sum.splits prod.splits if_splits)

end

text \<open>The AMQP broker meets the contract; so does a broker over any provider that publishes reliably.\<close>

interpretation amqp: task_broker "Publish (amqp_provider net) codec b" confirmed
    "published_message codec b" for net codec b
  by unfold_locales
    (auto dest: prov.Publish_confirmed prov.Publish_failed prov.Publish_signature)

sublocale amqp_publisher \<subseteq> brk: task_broker "Publish ap codec b" log "published_message codec b"
  for codec b
  by unfold_locales (auto dest: Publish_confirmed Publish_failed Publish_signature)

subsection \<open>The time to live\<close>

text \<open>The TTL as a number: 5 for the priority rule, else the milliseconds left until the ETA.\<close>

definition ttl_ms :: "gotime \<Rightarrow> signature \<Rightarrow> int" where
  "ttl_ms now sig = (case ETA sig of
     None \<Rightarrow> 0
   | Some eta \<Rightarrow>
      (if 1 < Priority sig \<and> TaskTimeOut sig \<noteq> 0 \<and> CreatedAt sig \<noteq> None then 5
       else if now < eta then min (2 ^ 63 - 1) (eta - now) div 1000000 else 0))"

lemma sint_time_sub: "b < a \<Longrightarrow> sint (time_sub a b) = min (2 ^ 63 - 1) (a - b)"
  unfolding time_sub_def by (subst sint64_of_int) auto

lemma sint_getTaskTTL: "sint (getTaskTTL now sig) = ttl_ms now sig"
proof (cases "ETA sig")
  case (Some eta)
  have "0 \<le> min (2 ^ 63 - 1) (eta - now) div 1000000 \<and>
      min (2 ^ 63 - 1) (eta - now) div 1000000 < (2 ^ 63 :: int)" if "now < eta"
  proof -
    have "min (2 ^ 63 - 1) (eta - now) div 1000000 \<le> (2 ^ 63 - 1) div (1000000 :: int)"
      by (intro zdiv_mono1) auto
    then show ?thesis using that by (auto intro: div_int_pos_iff [THEN iffD2])
  qed
  with Some show ?thesis
    by (auto simp: getTaskTTL_def ttl_ms_def sint_time_sub sint64_of_int
        simp del: of_int_mult of_int_diff)
qed (simp add: getTaskTTL_def ttl_ms_def)

lemma ttl_ms_nonneg: "0 \<le> ttl_ms now sig"
  by (auto simp: ttl_ms_def div_int_pos_iff split: option.split)

subsection \<open>The declared topology\<close>

definition extra_queue_calls :: "amqp_broker \<Rightarrow> string \<Rightarrow> channel_call list" where
  "extra_queue_calls b q = (if q = [] then [] else
     [QueueDeclare q True False False False (QueueDeclareArgs (bamqp b)),
      QueueBind q q (Exchange (bamqp b)) False])"

definition topology_calls :: "amqp_broker \<Rightarrow> channel_call list" where
  "topology_calls b =
     [ExchangeDeclare (getExchangeName b) (getExchangeType b) True False False False,
      QueueDeclare (getTaskQueue b) True False False False (QueueDeclareArgs (bamqp b)),
      QueueDeclare (getDelayedQueue b) True False False False (delayed_queue_args b),
      QueueBind (getTaskQueue b) (BindingKey (bamqp b)) (Exchange (bamqp b)) False,
      QueueBind (getDelayedQueue b) (getDelayedQueue b) (getDelayedQueueDLX b) False]
     @ extra_queue_calls b (getFailedQueue b) @ extra_queue_calls b (getTimeoutQueue b)"

context amqp_topology
begin

text \<open>A computation that, when it returns nil, has made exactly the calls \<open>cs\<close>.\<close>

definition makes :: "channel_call list \<Rightarrow> ('w, 'a) go \<Rightarrow> bool" where
  "makes cs m \<longleftrightarrow> (\<forall>w x w'. m w = (Inr x, w') \<longrightarrow> calls_of w' = calls_of w @ cs)"

lemma makes_seq: "makes cs m \<Longrightarrow> makes ds n \<Longrightarrow> makes (cs @ ds) (go_seq m n)"
  by (auto simp: makes_def go_seq_def go_bind_def split: prod.splits sum.splits)

lemma makes_bind: "makes cs m \<Longrightarrow> (\<And>x. makes ds (f x)) \<Longrightarrow> makes (cs @ ds) (go_bind m f)"
  by (auto simp: makes_def go_bind_def split: prod.splits sum.splits)

lemma makes_return: "makes [] (go_return x)"
  by (simp add: makes_def go_return_def)

lemma makes_defer:
  assumes "makes cs m" and "\<And>w r w'. c w = (r, w') \<Longrightarrow> calls_of w' = calls_of w"
  shows "makes cs (go_defer c m)"
  unfolding makes_def
proof (intro allI impI)
  fix w x w'
  assume run: "go_defer c m w = (Inr x, w')"
  obtain r w1 where m: "m w = (r, w1)" by fastforce
  obtain r' w2 where c: "c w1 = (r', w2)" by fastforce
  from run m c have "r = Inr x" "w' = w2"
    by (auto simp: go_defer_def split: sum.splits fault.splits)
  with assms(1) m assms(2) [OF c] show "calls_of w' = calls_of w @ cs"
    by (auto simp: makes_def)
qed

lemma makes_getConnection: "makes [] (getConnection ap)"
proof -
  have get: "makes [] (i_GetConnectionFromPool ap)"
    by (auto simp: makes_def dest: get_no_call)
  have "makes [] (case i of IfConn c \<Rightarrow> go_return c | IfOther \<Rightarrow> go_return None)" for i
    by (simp add: makes_return split: goiface.split)
  from makes_bind [OF get this] show ?thesis by (simp add: getConnection_def)
qed

lemma makes_extra: "makes (extra_queue_calls b q) (declare_extra_queue ap b ch q)"
proof (cases "q = []")
  case False
  have "makes ([QueueDeclare q True False False False (QueueDeclareArgs (bamqp b))] @
      [QueueBind q q (Exchange (bamqp b)) False])
    (go_seq (i_DeclareQueue ap ch q (QueueDeclareArgs (bamqp b)))
      (i_QueueExchangeBind ap ch q q (Exchange (bamqp b))))"
    by (intro makes_seq) (auto simp: makes_def dest: queue_declared queue_bound)
  with False show ?thesis by (simp add: extra_queue_calls_def declare_extra_queue_def)
qed (simp add: extra_queue_calls_def declare_extra_queue_def makes_return)

lemma makes_topology: "makes (topology_calls b) (declare_topology ap b ch)"
proof -
  have "makes ([ExchangeDeclare (getExchangeName b) (getExchangeType b) True False False False] @
      [QueueDeclare (getTaskQueue b) True False False False (QueueDeclareArgs (bamqp b))] @
      [QueueDeclare (getDelayedQueue b) True False False False (delayed_queue_args b)] @
      [QueueBind (getTaskQueue b) (BindingKey (bamqp b)) (Exchange (bamqp b)) False] @
      [QueueBind (getDelayedQueue b) (getDelayedQueue b) (getDelayedQueueDLX b) False] @
      extra_queue_calls b (getFailedQueue b) @ extra_queue_calls b (getTimeoutQueue b))
    (declare_topology ap b ch)"
    unfolding declare_topology_def
    by (intro makes_seq makes_extra)
      (auto simp: makes_def dest: exchange_declared queue_declared queue_bound)
  then show ?thesis by (simp add: topology_calls_def)
qed

lemma setup_makes_topology: "makes (topology_calls b) (setupExchangeQueueBinding ap b)"
proof -
  have ch: "makes (topology_calls b) (case x of (channel, u) \<Rightarrow>
      go_defer (i_CloseAmqpChannel ap channel) (declare_topology ap b channel))" for x
    by (cases x) (auto intro: makes_defer makes_topology close_channel_no_call)
  have "makes ([] @ topology_calls b) (go_bind (i_CreateAmqpChannel ap c False)
      (\<lambda>(channel, u). go_defer (i_CloseAmqpChannel ap channel) (declare_topology ap b channel)))" for c
    by (intro makes_bind ch) (auto simp: makes_def dest: create_channel_no_call)
  then have "makes (topology_calls b) (go_defer (i_ReleaseConnectionToPool ap (IfConn c))
      (go_bind (i_CreateAmqpChannel ap c False)
      (\<lambda>(channel, u). go_defer (i_CloseAmqpChannel ap channel) (declare_topology ap b channel))))" for c
    by (intro makes_defer release_no_call) simp_all
  from makes_bind [OF makes_getConnection this] show ?thesis
    by (simp add: setupExchangeQueueBinding_def)
qed

end

end
