(* ===== verification/Validation.thy ===== *)
theory Validation
  imports Schema
begin

section \<open>Task validation (internal/validation)\<close>

text \<open>
  What \<^verbatim>\<open>reflect\<close> shows of a type: its kind, the parameter and result types of a
  function type, and whether the type implements \<open>error\<close>. A registered task is a dynamic
  value: the nil interface, a function of exactly the type \<^verbatim>\<open>func(*schema.Signature) error\<close>
  (the only one the processor can call), or a value of any other type.
\<close>

datatype gokind = KFunc | KStruct | KPtr | KInterface | KString | KInt | KOtherKind

datatype gotype =
    FuncType "string option" "gotype list" "gotype list" bool
  | PlainType string gokind bool

fun kind_of :: "gotype \<Rightarrow> gokind" where
  "kind_of (FuncType _ _ _ _) = KFunc"
| "kind_of (PlainType _ k _) = k"

fun num_out :: "gotype \<Rightarrow> nat" where
  "num_out (FuncType _ _ outs _) = length outs"
| "num_out (PlainType _ _ _) = 0"

fun out_types :: "gotype \<Rightarrow> gotype list" where
  "out_types (FuncType _ _ outs _) = outs"
| "out_types (PlainType _ _ _) = []"

fun implements_error :: "gotype \<Rightarrow> bool" where
  "implements_error (FuncType _ _ _ e) = e"
| "implements_error (PlainType _ _ e) = e"

definition error_type :: gotype where
  "error_type = PlainType ''error'' KInterface True"

definition signature_ptr_type :: gotype where
  "signature_ptr_type = PlainType ''*schema.Signature'' KPtr False"

definition task_func_type :: gotype where
  "task_func_type = FuncType None [signature_ptr_type] [error_type] False"

text \<open>
  A call of a task function runs in its own goroutine under an execution limit. Given the
  signature and the limit, it is described by what its caller sees at the \<^verbatim>\<open>select\<close> that
  waits for it: the signature as the function has left it by then (the argument is a
  pointer), and whether the call returned, panicked, or was still running when the limit
  expired.
\<close>

datatype task_outcome = Returned "goerror option" | Panicked string | StillRunning

datatype task_value =
    NilTask
  | TaskFunc "signature \<Rightarrow> goduration \<Rightarrow> signature \<times> task_outcome"
  | OtherTask gotype

fun reflect_type :: "task_value \<Rightarrow> gotype option" where
  "reflect_type NilTask = None"
| "reflect_type (TaskFunc _) = Some task_func_type"
| "reflect_type (OtherTask t) = Some t"

text \<open>\<^verbatim>\<open>reflect.ValueOf(nil).Type()\<close> panics.\<close>

definition ValidateTask :: "task_value \<Rightarrow> fault + unit" where
  "ValidateTask task = (case reflect_type task of
     None \<Rightarrow> Inl (Panic ''reflect: call of reflect.Value.Type on zero Value'')
   | Some t \<Rightarrow>
       if kind_of t \<noteq> KFunc then Inl (Err (TaskErr ErrTaskMustBeFunc))
       else if num_out t < 1 then Inl (Err (TaskErr ErrTaskReturnsNoValue))
       else if \<not> implements_error (out_types t ! (num_out t - 1))
            then Inl (Err (TaskErr ErrLastReturnValueMustBeError))
       else Inr ())"

lemma ValidateTask_TaskFunc [simp]: "ValidateTask (TaskFunc f) = Inr ()"
  by (simp add: ValidateTask_def task_func_type_def error_type_def)

text \<open>Exactly the functions whose last result is an error are accepted.\<close>

lemma ValidateTask_ok_iff:
  "ValidateTask task = Inr () \<longleftrightarrow>
   (\<exists>nm ins outs e. reflect_type task = Some (FuncType nm ins outs e) \<and> outs \<noteq> [] \<and>
      implements_error (last outs))"
proof (cases "reflect_type task")
  case (Some t)
  then show ?thesis
    by (cases t) (auto simp: ValidateTask_def last_conv_nth not_less_eq)
qed (simp add: ValidateTask_def)

end
