(* ===== verification/Task_Registrar.thy ===== *)
theory Task_Registrar
  imports Amqp_Broker Validation
begin

section \<open>The task registrar (internal/task/memory/task.go)\<close>

text \<open>
  The registrar keeps the registered task functions and processes deliveries: it rebuilds
  the signature, checks the start timeout, runs the task under the execution limit, and
  acknowledges the delivery or sends a replacement through the broker. The broker and the
  configuration provider are interfaces: \<open>pub\<close> is \<^verbatim>\<open>r.broker.Publish\<close>, \<open>cfg\<close> what
  \<^verbatim>\<open>r.configProvider.GetConfig()\<close> returns.
\<close>

record registrar =
  registeredTasks :: "string \<Rightarrow> task_value option"
  registeredTasksCount :: "64 word"

definition NewDefaultTaskRegistrar :: registrar where
  "NewDefaultTaskRegistrar = \<lparr>registeredTasks = Map.empty, registeredTasksCount = 0\<rparr>"

subsection \<open>Registering and looking up\<close>

fun validate_all :: "(string \<times> task_value) list \<Rightarrow> fault + unit" where
  "validate_all [] = Inr ()"
| "validate_all ((_, taskFunc) # rest) =
     (case ValidateTask taskFunc of Inl err \<Rightarrow> Inl err | Inr _ \<Rightarrow> validate_all rest)"

fun store_all :: "(string \<times> task_value) list \<Rightarrow> registrar \<Rightarrow> registrar" where
  "store_all [] r = r"
| "store_all ((k, v) # rest) r = store_all rest
     (r\<lparr>registeredTasksCount := registeredTasksCount r + 1,
        registeredTasks := (registeredTasks r)(k \<mapsto> v)\<rparr>)"

text \<open>
  The argument is a Go map; \<open>en1\<close> and \<open>en2\<close> list its entries in the order the first and
  the second \<^verbatim>\<open>range\<close> loop visit them.
\<close>

definition RegisterTasks ::
    "(string \<times> task_value) list \<Rightarrow> (string \<times> task_value) list \<Rightarrow> (registrar, unit) go" where
  "RegisterTasks en1 en2 r =
     (case validate_all en1 of Inl err \<Rightarrow> (Inl err, r) | Inr _ \<Rightarrow> (Inr (), store_all en2 r))"

definition RegisterTasksWithOptions :: "(string \<times> task_value) list \<Rightarrow> (registrar, unit) go" where
  "RegisterTasksWithOptions namedTaskFuncs = go_return ()"

definition IsTaskRegistered :: "registrar \<Rightarrow> string \<Rightarrow> bool" where
  "IsTaskRegistered r name = (case registeredTasks r name of None \<Rightarrow> False | Some _ \<Rightarrow> True)"

definition GetRegisteredTask :: "registrar \<Rightarrow> string \<Rightarrow> goerror + task_value" where
  "GetRegisteredTask r name = (case registeredTasks r name of
     None \<Rightarrow> Inl (TextErr (''Task not registered error: '' @ name))
   | Some taskFunc \<Rightarrow> Inr taskFunc)"

definition GetRegisteredTaskCount :: "registrar \<Rightarrow> 64 word" where
  "GetRegisteredTaskCount r = registeredTasksCount r"

subsection \<open>Sending\<close>

text \<open>
  The clock readings and the random identifier one call takes: \<open>m_retry\<close> is \<^verbatim>\<open>time.Now()\<close>
  in \<open>retryTask\<close>, \<open>m_created\<close> in \<open>SendTaskWithContext\<close>, \<open>m_publish\<close> in \<open>getTaskTTL\<close>.
\<close>

record moments =
  m_retry :: gotime
  m_created :: gotime
  m_publish :: gotime
  m_uuid :: string

text \<open>The broker's publish operation, as the registrar calls it.\<close>

type_synonym 'w publish_op = "gotime \<Rightarrow> signature \<Rightarrow> 'w \<Rightarrow> (fault + unit) \<times> signature \<times> 'w"

definition stamp :: "moments \<Rightarrow> signature \<Rightarrow> signature" where
  "stamp mo sig =
     (let sig = (if UUID sig = [] then sig\<lparr>UUID := task_uuid (m_uuid mo)\<rparr> else sig)
      in if CreatedAt sig = None then sig\<lparr>CreatedAt := Some (m_created mo)\<rparr> else sig)"

definition SendTaskWithContext :: "'w publish_op \<Rightarrow> moments \<Rightarrow> signature \<Rightarrow> 'w \<Rightarrow>
    (fault + unit) \<times> signature \<times> 'w" where
  "SendTaskWithContext pub mo sig w =
     (case pub (m_publish mo) (stamp mo sig) w of
        (Inl (Err err), sig', w') \<Rightarrow>
          (Inl (Err (TextErr (''Publish message error: '' @ error_text err))), sig', w')
      | (Inl (Panic m), sig', w') \<Rightarrow> (Inl (Panic m), sig', w')
      | (Inr _, sig', w') \<Rightarrow> (Inr (), sig', w'))"

definition SendTask :: "'w publish_op \<Rightarrow> moments \<Rightarrow> signature \<Rightarrow> 'w \<Rightarrow>
    (fault + unit) \<times> signature \<times> 'w" where
  "SendTask pub mo sig w = SendTaskWithContext pub mo sig w"

subsection \<open>Retrying and timing out\<close>

definition getRetryInterval :: "goint \<Rightarrow> goduration" where
  "getRetryInterval retryCount =
     (let delay = Fibonacci retryCount * 1000000000; maxDelay = 10 * 1000000000
      in if sint maxDelay < sint delay then maxDelay else delay)"

definition retryTask :: "'w publish_op \<Rightarrow> config option \<Rightarrow> moments \<Rightarrow> signature \<Rightarrow> 'w \<Rightarrow>
    (fault + unit) \<times> signature \<times> 'w" where
  "retryTask pub cfg mo sig w = (case cfg of
     None \<Rightarrow> (Inl nil_deref, sig, w)
   | Some c \<Rightarrow>
      (if sint (RetryCount sig) < 1 \<or> sint (RetryCount sig - 1) < sint (RetriesDone sig)
       then (case AMQP c of
           None \<Rightarrow> (Inl nil_deref, sig, w)
         | Some a \<Rightarrow>
            (if FailedQueue a = [] then (Inr (), sig, w)
             else SendTask pub mo (sig\<lparr>RoutingKey := FailedQueue a\<rparr>) w))
       else (let retryInterval = getRetryInterval (RetriesDone sig + 1)
         in if 0 < sint retryInterval
            then (let sig = sig\<lparr>RetriesDone := RetriesDone sig + 1\<rparr>
              in case AMQP c of
                   None \<Rightarrow> (Inl nil_deref, sig, w)
                 | Some a \<Rightarrow> SendTask pub mo
                     (sig\<lparr>RoutingKey := DelayedQueue a,
                         ETA := Some (m_retry mo + sint retryInterval)\<rparr>) w)
            else SendTask pub mo sig w)))"

text \<open>
  The elapsed time is compared as an exact number of seconds. (The code compares two
  \<^verbatim>\<open>float64\<close> values; below \<open>2 ^ 22\<close> seconds, 48 days, the nanosecond fraction of the
  elapsed time survives the conversion and the comparison is the exact one.)
\<close>

definition checkTaskTimeout :: "gotime \<Rightarrow> signature \<Rightarrow> bool" where
  "checkTaskTimeout now sig =
     (if TaskTimeOut sig = 0 then False
      else (case CreatedAt sig of
          None \<Rightarrow> False
        | Some t \<Rightarrow> sint (TaskTimeOut sig) * 1000000000 \<le> sint (time_sub now t)))"

definition pushToTimeoutAmqpQueue :: "'w publish_op \<Rightarrow> config option \<Rightarrow> moments \<Rightarrow> signature \<Rightarrow> 'w \<Rightarrow>
    (fault + unit) \<times> signature \<times> 'w" where
  "pushToTimeoutAmqpQueue pub cfg mo sig w = (case Option.bind cfg AMQP of
     None \<Rightarrow> (Inl nil_deref, sig, w)
   | Some a \<Rightarrow>
      (if TimeoutQueue a = [] then (Inr (), sig, w)
       else SendTask pub mo (sig\<lparr>TaskTimeOut := 0, RoutingKey := TimeoutQueue a\<rparr>) w))"

subsection \<open>Deliveries\<close>

record delivery =
  Headers :: gotable
  Body :: string
  ack_error :: "goerror option"  \<comment> \<open>what \<^verbatim>\<open>Ack\<close> returns on this delivery\<close>

datatype ack = Ack bool | Nack bool bool

datatype job = DeliveryJob delivery | OtherJob

definition SignatureFromAmqpHeadersAndBody :: "gotable \<Rightarrow> string \<Rightarrow> goerror + signature" where
  "SignatureFromAmqpHeadersAndBody headers body =
     (let s = zero_signature\<lparr>
          Name := GetString (table_get headers ''task_name''),
          UUID := GetString (table_get headers ''uuid''),
          RawArgs := Some body,
          RoutingKey := GetString (table_get headers ''routing_key''),
          Priority := GetUInt8 (table_get headers ''priority''),
          RetryCount := GetInt (table_get headers ''retry_count''),
          RetryTimeout := GetInt (table_get headers ''retry_timeout''),
          WaitTime := GetInt (table_get headers ''wait_time''),
          RetriesDone := GetInt (table_get headers ''retries_done''),
          TaskTimeOut := GetInt (table_get headers ''timeout''),
          IgnoreWhenTaskNotRegistered := GetBool (table_get headers ''ignore_if_unregistered'')\<rparr>;
        s = (case GetInt64Ok (table_get headers ''created_at'') of
            (createdAtUnix, ok) \<Rightarrow>
              if ok then s\<lparr>CreatedAt := Some (sint createdAtUnix * 1000000000)\<rparr> else s);
        s = (case GetInt64Ok (table_get headers ''eta'') of
            (etaUnix, ok) \<Rightarrow> if ok then s\<lparr>ETA := Some (sint etaUnix * 1000000000)\<rparr> else s)
      in Inr s)"

text \<open>
  The body of \<open>amqpProcessSignature\<close> once the deferred recovery is in place. The result is
  the error returned (or the panic), the acknowledgements sent, the signature as it was
  left, and the state of the broker. \<open>now\<close> is the clock of the start-timeout check.
\<close>

definition settle_retry :: "(fault + unit) \<times> signature \<times> 'w \<Rightarrow>
    (fault + unit) \<times> ack list \<times> signature \<times> 'w" where
  "settle_retry res = (case res of
     (Inr _, sig, w) \<Rightarrow> (Inr (), [Ack False], sig, w)
   | (Inl (Err retryErr), sig, w) \<Rightarrow> (Inl (Err retryErr), [Nack False True], sig, w)
   | (Inl (Panic m), sig, w) \<Rightarrow> (Inl (Panic m), [], sig, w))"

definition process_body :: "'w publish_op \<Rightarrow> registrar \<Rightarrow> config \<Rightarrow> moments \<Rightarrow> gotime \<Rightarrow>
    delivery \<Rightarrow> signature \<Rightarrow> 'w \<Rightarrow> (fault + unit) \<times> ack list \<times> signature \<times> 'w" where
  "process_body pub reg c mo now amqpJob sig w =
     (if checkTaskTimeout now sig
      then (case pushToTimeoutAmqpQueue pub (Some c) mo sig w of
          (Inr _, sig, w) \<Rightarrow> (Inr (), [Ack False], sig, w)
        | (Inl (Err _), sig, w) \<Rightarrow> (Inr (), [Nack False True], sig, w)
        | (Inl (Panic m), sig, w) \<Rightarrow> (Inl (Panic m), [], sig, w))
      else (case GetRegisteredTask reg (Name sig) of
          Inr (TaskFunc taskFunc) \<Rightarrow>
            (case taskFunc sig (seconds (MaxTaskExecutionDuration c)) of
               (sig, Returned None) \<Rightarrow>
                 (case ack_error amqpJob of None \<Rightarrow> Inr () | Some e \<Rightarrow> Inl (Err e),
                  [Ack False], sig, w)
             | (sig, Returned (Some _)) \<Rightarrow> settle_retry (retryTask pub (Some c) mo sig w)
             | (sig, Panicked _) \<Rightarrow> settle_retry (retryTask pub (Some c) mo sig w)
             | (sig, StillRunning) \<Rightarrow> settle_retry (retryTask pub (Some c) mo sig w))
        | _ \<Rightarrow> (Inl (Err (TaskErr ErrTaskMustBeFunc)), [Nack False False], sig, w)))"

text \<open>
  \<open>amqpProcessSignature\<close>: reading the execution limit from a nil configuration panics before
  the recovery is deferred; a panic of the body is recovered by one more retry (with its own
  clock readings \<open>mo'\<close>), and the function then returns nil.
\<close>

definition amqpProcessSignature :: "'w publish_op \<Rightarrow> registrar \<Rightarrow> config option \<Rightarrow> moments \<Rightarrow>
    moments \<Rightarrow> gotime \<Rightarrow> delivery \<Rightarrow> signature \<Rightarrow> 'w \<Rightarrow>
    (fault + unit) \<times> ack list \<times> signature \<times> 'w" where
  "amqpProcessSignature pub reg cfg mo mo' now amqpJob sig w = (case cfg of
     None \<Rightarrow> (Inl nil_deref, [], sig, w)
   | Some c \<Rightarrow>
      (case process_body pub reg c mo now amqpJob sig w of
         (Inl (Panic _), acks, sig, w) \<Rightarrow>
           (case retryTask pub cfg mo' sig w of
              (Inl (Err _), sig, w) \<Rightarrow> (Inr (), acks @ [Nack False True], sig, w)
            | (Inl (Panic m), sig, w) \<Rightarrow> (Inl (Panic m), acks, sig, w)
            | (Inr _, sig, w) \<Rightarrow> (Inr (), acks @ [Ack False], sig, w))
       | other \<Rightarrow> other))"

text \<open>
  The signature of a delivery: rebuilt from headers and raw arguments when the header
  \<open>task_name\<close> is present (whatever its value), decoded from the body otherwise.
\<close>

definition signature_of_delivery :: "json_codec \<Rightarrow> delivery \<Rightarrow> goerror + signature" where
  "signature_of_delivery codec amqpJob =
     (if Headers amqpJob ''task_name'' \<noteq> None
      then SignatureFromAmqpHeadersAndBody (Headers amqpJob) (Body amqpJob)
      else BytesToSignature codec (Body amqpJob))"

definition amqpMsgProcessor :: "'w publish_op \<Rightarrow> json_codec \<Rightarrow> registrar \<Rightarrow> config option \<Rightarrow>
    moments \<Rightarrow> moments \<Rightarrow> gotime \<Rightarrow> job \<Rightarrow> 'w \<Rightarrow> (fault + unit) \<times> ack list \<times> 'w" where
  "amqpMsgProcessor pub codec reg cfg mo mo' now job w = (case job of
     OtherJob \<Rightarrow> (Inl (Err (TextErr ''unsupported operation'')), [], w)
   | DeliveryJob amqpJob \<Rightarrow>
      (if Body amqpJob = []
       then (Inl (Err (BrokerErr ErrEmptyMessage)), [Nack False False], w)
       else (case signature_of_delivery codec amqpJob of
           Inl err \<Rightarrow> (Inl (Err err), [Nack False False], w)
         | Inr signature \<Rightarrow>
            (case amqpProcessSignature pub reg cfg mo mo' now amqpJob signature w of
               (r, acks, _, w') \<Rightarrow> (r, acks, w')))))"

definition Processor :: "'w publish_op \<Rightarrow> json_codec \<Rightarrow> registrar \<Rightarrow> config option \<Rightarrow>
    moments \<Rightarrow> moments \<Rightarrow> gotime \<Rightarrow> job \<Rightarrow> 'w \<Rightarrow> (fault + unit) \<times> ack list \<times> 'w" where
  "Processor pub codec reg cfg mo mo' now job w = (case job of
     DeliveryJob _ \<Rightarrow> amqpMsgProcessor pub codec reg cfg mo mo' now job w
   | OtherJob \<Rightarrow> (Inr (), [], w))"

end
