(* ===== verification/Task_Processing.thy ===== *)
theory Task_Processing
  imports Task_Registrar
begin

section \<open>What processing a delivery does\<close>

text \<open>
  The decisions of the registrar as functions of the signature (\<open>retry_plan\<close>), the exact
  retry delays with the bound up to which they hold, and the settlement of a delivery, proved
  over the \<open>task_broker\<close> contract and transferred to the AMQP broker.
\<close>

subsection \<open>Retry delays\<close>

lemma sint_seconds:
  assumes "- 9223372036 \<le> sint n" "sint n \<le> 9223372036"
  shows "sint (n * 1000000000 :: 64 word) = sint n * 1000000000"
  using assms by (subst sint64_mult) auto

text \<open>Up to the 49th retry the delay is the Fibonacci number of seconds, capped at ten.\<close>

lemma getRetryInterval_exact:
  assumes "k \<le> 49"
  shows "sint (getRetryInterval (of_nat k)) = min (int (fib k)) 10 * 1000000000"
proof -
  have le: "fib k \<le> 7778742049"
    using fib_mono [OF assms] by (simp add: fib_49_50)
  have "sint (Fibonacci (of_nat k)) = int (fib k)"
    using assms le by (simp add: Fibonacci_of_nat sint_of_nat64)
  with le have "sint (Fibonacci (of_nat k) * 1000000000) = int (fib k) * 1000000000"
    by (subst sint_seconds) auto
  then show ?thesis by (simp add: getRetryInterval_def Let_def)
qed

text \<open>The 50th delay overflows 64 bits and comes out negative.\<close>

lemma getRetryInterval_50: "sint (getRetryInterval 50) = - 5860475048709551616"
proof -
  have "Fibonacci 50 = 12586269025"
    using Fibonacci_of_nat [of 50] by (simp add: fib_49_50)
  then show ?thesis by (simp add: getRetryInterval_def Let_def)
qed

lemma getRetryInterval_nonpos:
  assumes "- 9223372036 \<le> sint n" "sint n \<le> 0"
  shows "sint (getRetryInterval n) = sint n * 1000000000"
  using assms by (simp add: getRetryInterval_def Let_def Fibonacci_nonpos sint_seconds)

lemma getRetryInterval_max: "sint (getRetryInterval n) \<le> 10000000000"
  by (simp add: getRetryInterval_def Let_def)

subsection \<open>The decision of \<open>retryTask\<close>\<close>

definition retry_exhausted :: "signature \<Rightarrow> bool" where
  "retry_exhausted sig \<longleftrightarrow> sint (RetryCount sig) < 1 \<or> sint (RetryCount sig) \<le> sint (RetriesDone sig)"

lemma retry_exhausted_iff:
  "sint (RetryCount sig) < 1 \<or> sint (RetryCount sig - 1) < sint (RetriesDone sig) \<longleftrightarrow>
   retry_exhausted sig"
proof (cases "sint (RetryCount sig) < 1")
  case False
  then show ?thesis by (subst sint64_pred) (auto simp: retry_exhausted_def)
qed (simp add: retry_exhausted_def)

lemma retries_done_succ:
  "\<not> retry_exhausted sig \<Longrightarrow> sint (RetriesDone sig + 1) = sint (RetriesDone sig) + 1"
  using sint64_range [of "RetryCount sig"]
  by (intro sint64_succ) (auto simp: retry_exhausted_def)

text \<open>The signature a failed task is sent on with; \<open>None\<close> when it is dropped.\<close>

definition retry_plan :: "amqp_config \<Rightarrow> gotime \<Rightarrow> signature \<Rightarrow> signature option" where
  "retry_plan a now sig =
     (if retry_exhausted sig
      then (if FailedQueue a = [] then None else Some (sig\<lparr>RoutingKey := FailedQueue a\<rparr>))
      else if 0 < sint (getRetryInterval (RetriesDone sig + 1))
      then Some (sig\<lparr>RetriesDone := RetriesDone sig + 1, RoutingKey := DelayedQueue a,
        ETA := Some (now + sint (getRetryInterval (RetriesDone sig + 1)))\<rparr>)
      else Some sig)"

lemma retryTask_plan:
  assumes "AMQP c = Some a"
  shows "retryTask pub (Some c) mo sig w = (case retry_plan a (m_retry mo) sig of
     None \<Rightarrow> (Inr (), sig, w) | Some s \<Rightarrow> SendTask pub mo s w)"
  using assms retry_exhausted_iff [of sig]
  by (simp add: retryTask_def retry_plan_def Let_def)

text \<open>The signature a task that waited too long is sent on with.\<close>

definition timeout_plan :: "amqp_config \<Rightarrow> signature \<Rightarrow> signature option" where
  "timeout_plan a sig = (if TimeoutQueue a = [] then None
     else Some (sig\<lparr>TaskTimeOut := 0, RoutingKey := TimeoutQueue a\<rparr>))"

lemma pushToTimeout_plan:
  assumes "AMQP c = Some a"
  shows "pushToTimeoutAmqpQueue pub (Some c) mo sig w = (case timeout_plan a sig of
     None \<Rightarrow> (Inr (), sig, w) | Some s \<Rightarrow> SendTask pub mo s w)"
  using assms by (simp add: pushToTimeoutAmqpQueue_def timeout_plan_def)

lemma stamp_simps [simp]:
  "RoutingKey (stamp mo sig) = RoutingKey sig" "ETA (stamp mo sig) = ETA sig"
  "RetriesDone (stamp mo sig) = RetriesDone sig" "RetryCount (stamp mo sig) = RetryCount sig"
  "Priority (stamp mo sig) = Priority sig" "TaskTimeOut (stamp mo sig) = TaskTimeOut sig"
  "Name (stamp mo sig) = Name sig" "RawArgs (stamp mo sig) = RawArgs sig"
  "Args (stamp mo sig) = Args sig" "UUID (stamp mo sig) \<noteq> []" "CreatedAt (stamp mo sig) \<noteq> None"
  by (auto simp: stamp_def Let_def)

lemma stamp_idem: "UUID sig \<noteq> [] \<Longrightarrow> CreatedAt sig \<noteq> None \<Longrightarrow> stamp mo sig = sig"
  by (simp add: stamp_def)

subsection \<open>Sending, over the broker contract\<close>

context task_broker
begin

lemma SendTask_confirmed:
  assumes "SendTask pub mo sig w = (Inr (), sig', w')"
  shows "\<exists>m. content (m_publish mo) (stamp mo sig) = Inr m \<and> log w' = log w @ [m]"
  using assms pub_confirmed [of "m_publish mo" "stamp mo sig" w]
  by (auto simp: SendTask_def SendTaskWithContext_def split: prod.splits sum.splits fault.splits)

lemma SendTask_failed:
  assumes "SendTask pub mo sig w = (Inl e, sig', w')"
  shows "log w' = log w"
  using assms pub_failed [of "m_publish mo" "stamp mo sig" w]
  by (auto simp: SendTask_def SendTaskWithContext_def split: prod.splits sum.splits fault.splits)

text \<open>Sending a plan: confirmed when there is one and nil comes back, nothing otherwise.\<close>

definition sent :: "moments \<Rightarrow> signature \<Rightarrow> 'w \<Rightarrow> 'w \<Rightarrow> bool" where
  "sent mo s w w' \<longleftrightarrow> (\<exists>m. content (m_publish mo) (stamp mo s) = Inr m \<and> log w' = log w @ [m])"

lemma plan_confirmed:
  assumes "(case plan of None \<Rightarrow> (Inr (), sig, w) | Some s \<Rightarrow> SendTask pub mo s w) = (Inr (), sig', w')"
  shows "case plan of None \<Rightarrow> w' = w | Some s \<Rightarrow> sent mo s w w'"
  using assms SendTask_confirmed by (auto simp: sent_def split: option.splits)

lemma plan_failed:
  assumes "(case plan of None \<Rightarrow> (Inr (), sig, w) | Some s \<Rightarrow> SendTask pub mo s w) = (Inl e, sig', w')"
  shows "log w' = log w"
  using assms SendTask_failed by (auto split: option.splits)

end

subsection \<open>The disposition of a delivery\<close>

text \<open>
  The specification of \<open>amqpProcessSignature\<close>: what should become of the delivery of a
  signature, as a function of the registry, the configuration and the clocks alone. A task
  that is due to be replaced carries the signature to send, or none if it is to be dropped.
\<close>

datatype disposition = Complete | Discard | Replace "signature option"

definition callable :: "registrar \<Rightarrow> string \<Rightarrow> (signature \<Rightarrow> goduration \<Rightarrow> signature \<times> task_outcome) option" where
  "callable reg name = (case registeredTasks reg name of
     Some (TaskFunc f) \<Rightarrow> Some f | _ \<Rightarrow> None)"

definition disposition :: "registrar \<Rightarrow> config \<Rightarrow> amqp_config \<Rightarrow> gotime \<Rightarrow> gotime \<Rightarrow> signature \<Rightarrow> disposition" where
  "disposition reg c a now retry_now sig =
     (if checkTaskTimeout now sig then Replace (timeout_plan a sig)
      else (case callable reg (Name sig) of
          None \<Rightarrow> Discard
        | Some f \<Rightarrow> (case f sig (seconds (MaxTaskExecutionDuration c)) of
              (s, out) \<Rightarrow> if out = Returned None then Complete
                else Replace (retry_plan a retry_now s))))"

abbreviation send_plan where
  "send_plan pub mo plan sig w \<equiv>
     (case plan of None \<Rightarrow> (Inr (), sig, w) | Some s \<Rightarrow> SendTask pub mo s w)"

text \<open>How the body of the processor settles each disposition.\<close>

lemma process_body_Complete:
  assumes "disposition reg c a now (m_retry mo) sig = Complete"
  shows "\<exists>r s. process_body pub reg c mo now d sig w = (r, [Ack False], s, w) \<and> (\<forall>m. r \<noteq> Inl (Panic m))"
  using assms
  by (auto simp: disposition_def callable_def process_body_def GetRegisteredTask_def
      split: if_splits option.splits task_value.splits prod.splits task_outcome.splits)

lemma process_body_Discard:
  assumes "disposition reg c a now (m_retry mo) sig = Discard"
  shows "process_body pub reg c mo now d sig w =
    (Inl (Err (TaskErr ErrTaskMustBeFunc)), [Nack False False], sig, w)"
  using assms
  by (auto simp: disposition_def callable_def process_body_def GetRegisteredTask_def
      split: if_splits option.splits task_value.splits prod.splits task_outcome.splits)

lemma process_body_Replace:
  assumes "disposition reg c a now (m_retry mo) sig = Replace plan" and a: "AMQP c = Some a"
  shows "\<exists>s0. case send_plan pub mo plan s0 w of
      (Inr _, s, w') \<Rightarrow> process_body pub reg c mo now d sig w = (Inr (), [Ack False], s, w')
    | (Inl (Err e), s, w') \<Rightarrow> \<exists>r. process_body pub reg c mo now d sig w = (r, [Nack False True], s, w') \<and>
        (\<forall>m. r \<noteq> Inl (Panic m))
    | (Inl (Panic m), s, w') \<Rightarrow> process_body pub reg c mo now d sig w = (Inl (Panic m), [], s, w')"
proof (cases "checkTaskTimeout now sig")
  case True
  with assms have plan: "plan = timeout_plan a sig" by (simp add: disposition_def)
  with True show ?thesis
    by (intro exI [of _ sig])
      (auto simp: process_body_def pushToTimeout_plan [OF a] split: prod.split sum.split fault.split)
next
  case False
  with assms obtain f s out where f: "callable reg (Name sig) = Some f"
    "f sig (seconds (MaxTaskExecutionDuration c)) = (s, out)" "out \<noteq> Returned None"
    and plan: "plan = retry_plan a (m_retry mo) s"
    by (auto simp: disposition_def split: option.splits prod.splits if_splits)
  have "process_body pub reg c mo now d sig w = settle_retry (retryTask pub (Some c) mo s w)"
    using f False by (auto simp: callable_def process_body_def GetRegisteredTask_def
        split: option.splits task_value.splits task_outcome.splits)
  with plan show ?thesis
    by (intro exI [of _ s])
      (auto simp: settle_retry_def retryTask_plan [OF a] split: prod.split sum.split fault.split)
qed

text \<open>When a plan sends nothing: the queue the task is to go to is not configured.\<close>

lemma plan_None:
  "retry_plan a t s = None \<longleftrightarrow> retry_exhausted s \<and> FailedQueue a = []"
  "timeout_plan a s = None \<longleftrightarrow> TimeoutQueue a = []"
  by (auto simp: retry_plan_def timeout_plan_def)

lemma disposition_None:
  "disposition reg c a now t sig = Replace None \<Longrightarrow>
   (if checkTaskTimeout now sig then TimeoutQueue a = [] else FailedQueue a = [])"
  by (auto simp: disposition_def plan_None split: if_splits option.splits prod.splits)

context task_broker
begin

text \<open>
  Every delivery is settled by at most one acknowledgement, and no task is acknowledged away.
  An acknowledged delivery has completed; or what its disposition sends has been confirmed
  (nothing, when the queue for it is not configured); or the broker panicked on that send,
  leaving the signature \<open>s\<close>, and what the recovery's \<open>retryTask\<close> sends for it has been
  confirmed. \<open>body\<close> is the outcome of the part of the processor that the recovery guards.
\<close>

definition replaced :: "moments \<Rightarrow> signature option \<Rightarrow> 'w \<Rightarrow> 'w \<Rightarrow> bool" where
  "replaced mo plan w w' \<longleftrightarrow>
     (case plan of None \<Rightarrow> log w' = log w | Some s \<Rightarrow> sent mo s w w')"

definition settled :: "amqp_config \<Rightarrow> disposition \<Rightarrow> moments \<Rightarrow> moments \<Rightarrow>
    (fault + unit) \<times> ack list \<times> signature \<times> 'w \<Rightarrow> (fault + unit) \<Rightarrow> ack list \<Rightarrow> 'w \<Rightarrow> 'w \<Rightarrow> bool" where
  "settled a disp mo mo' body r acks w w' \<longleftrightarrow>
     (acks = [Ack False] \<and> disp = Complete \<and> log w' = log w) \<or>
     (acks = [Nack False False] \<and> disp = Discard \<and> log w' = log w) \<or>
     (acks = [Ack False] \<and> (\<exists>plan. disp = Replace plan \<and> replaced mo plan w w')) \<or>
     (acks = [Ack False] \<and> (\<exists>plan m s w1. disp = Replace plan \<and> body = (Inl (Panic m), [], s, w1) \<and>
        replaced mo' (retry_plan a (m_retry mo') s) w w')) \<or>
     (acks = [Nack False True] \<and> (\<exists>plan. disp = Replace plan) \<and> log w' = log w) \<or>
     (acks = [] \<and> (\<exists>m. r = Inl (Panic m)) \<and> log w' = log w)"

lemma replaced_log: "log w1 = log w \<Longrightarrow> replaced mo plan w1 w' \<Longrightarrow> replaced mo plan w w'"
  by (simp add: replaced_def sent_def split: option.splits)

lemma send_plan_replaced:
  assumes "send_plan pub mo plan s0 w = (Inr (), s, w')"
  shows "replaced mo plan w w'"
  using plan_confirmed [OF assms] by (simp add: replaced_def split: option.splits)

lemma recovery_settled:
  assumes a: "AMQP c = Some a" and disp: "disp = Replace plan" and log: "log w1 = log w"
    and body: "body = (Inl (Panic m), [], s, w1)"
    and run: "(case retryTask pub (Some c) mo' s w1 of
        (Inl (Err _), sig, w) \<Rightarrow> (Inr (), [] @ [Nack False True], sig, w)
      | (Inl (Panic m), sig, w) \<Rightarrow> (Inl (Panic m), [], sig, w)
      | (Inr _, sig, w) \<Rightarrow> (Inr (), [] @ [Ack False], sig, w)) = (r, acks, sig', w')"
  shows "settled a disp mo mo' body r acks w w'"
proof -
  obtain q s1 w2 where q: "retryTask pub (Some c) mo' s w1 = (q, s1, w2)" by (metis prod_cases3)
  then have plan: "send_plan pub mo' (retry_plan a (m_retry mo') s) s w1 = (q, s1, w2)"
    by (simp add: retryTask_plan [OF a])
  show ?thesis
  proof (cases q)
    case (Inl e)
    from plan_failed [OF plan [unfolded Inl]] run q Inl log disp show ?thesis
      by (cases e) (auto simp: settled_def)
  next
    case (Inr u)
    with plan have "replaced mo' (retry_plan a (m_retry mo') s) w1 w2"
      using send_plan_replaced by simp
    with run q Inr log disp body show ?thesis
      by (auto simp: settled_def intro: replaced_log)
  qed
qed

lemma amqpProcessSignature_settled:
  assumes a: "AMQP c = Some a"
    and run: "amqpProcessSignature pub reg (Some c) mo mo' now d sig w = (r, acks, sig', w')"
  shows "settled a (disposition reg c a now (m_retry mo) sig) mo mo'
    (process_body pub reg c mo now d sig w) r acks w w'"
proof (cases "disposition reg c a now (m_retry mo) sig")
  case Complete
  from process_body_Complete [OF this, where pub = pub and w = w and d = d] run Complete show ?thesis
    by (auto simp: amqpProcessSignature_def settled_def split: sum.splits fault.splits)
next
  case Discard
  from process_body_Discard [OF this, where pub = pub and w = w and d = d] run Discard show ?thesis
    by (auto simp: amqpProcessSignature_def settled_def)
next
  case (Replace plan)
  from process_body_Replace [OF this a, where pub = pub and w = w and d = d] obtain s0 where
    body: "case send_plan pub mo plan s0 w of
      (Inr _, s, w') \<Rightarrow> process_body pub reg c mo now d sig w = (Inr (), [Ack False], s, w')
    | (Inl (Err e), s, w') \<Rightarrow> \<exists>r. process_body pub reg c mo now d sig w = (r, [Nack False True], s, w') \<and>
        (\<forall>m. r \<noteq> Inl (Panic m))
    | (Inl (Panic m), s, w') \<Rightarrow> process_body pub reg c mo now d sig w = (Inl (Panic m), [], s, w')"
    by (rule exE)
  obtain q s1 w1 where q: "send_plan pub mo plan s0 w = (q, s1, w1)" by (metis prod_cases3)
  show ?thesis
  proof (cases q)
    case (Inr u)
    with q have "replaced mo plan w w1" using send_plan_replaced by simp
    with body q Inr run Replace show ?thesis
      by (auto simp: amqpProcessSignature_def settled_def)
  next
    case (Inl e)
    from plan_failed [OF q [unfolded Inl]] have log: "log w1 = log w" .
    show ?thesis
    proof (cases e)
      case (Err err)
      with body q Inl run Replace log show ?thesis
        by (auto simp: amqpProcessSignature_def settled_def split: sum.splits fault.splits)
    next
      case (Panic m)
      with body q Inl have "process_body pub reg c mo now d sig w = (Inl (Panic m), [], s1, w1)"
        by simp
      with run recovery_settled [OF a Replace log this, of mo' r acks sig' w'] show ?thesis
        by (simp add: amqpProcessSignature_def Replace)
    qed
  qed
qed

end

end
