(* ===== verification/Json_Signature.thy ===== *)
theory Json_Signature
  imports Schema "HOL-Library.AList" "HOL-Library.List_Lexorder" "HOL-Library.Char_ord"
begin

section \<open>The JSON form of a signature (encoding/json on schema.Signature)\<close>

text \<open>
  What \<^verbatim>\<open>json.Marshal\<close> and a decoder on which \<^verbatim>\<open>UseNumber\<close> was called make of a
  \<open>Signature\<close>: its fields have no JSON tags, so every one of them is written under its own
  name, and a name is matched without regard to case when it is read. The JSON values are
  trees here; the text of a tree, the text of an instant and the values of the types not
  modelled are operations of the parameter \<open>json_lib\<close>: \<open>parse_json\<close> wants the whole text to
  be one value, \<open>first_json\<close> is a \<^verbatim>\<open>Decode\<close>, which reads the first value of the text. (An
  object that names a field twice, which the encoder never writes, is read as if the earlier
  value were overwritten.)
\<close>

datatype json =
    JNull
  | JBool bool
  | JNum string
  | JStr string
  | JArr "json list"
  | JObj "(string \<times> json) list"

record json_lib =
  print_json :: "json \<Rightarrow> string"
  parse_json :: "string \<Rightarrow> json option"
  first_json :: "string \<Rightarrow> json option"
  time_text :: "gotime \<Rightarrow> string option"
  parse_time :: "string \<Rightarrow> gotime option"
  other_json :: "govalue \<Rightarrow> json option"

subsection \<open>Integer literals\<close>

definition is_digit :: "char \<Rightarrow> bool" where
  "is_digit c \<longleftrightarrow> c \<in> set ''0123456789''"

definition nat_literal :: "string \<Rightarrow> bool" where
  "nat_literal s \<longleftrightarrow> s \<noteq> [] \<and> list_all is_digit s \<and> (hd s = CHR ''0'' \<longrightarrow> tl s = [])"

definition int_literal :: "string \<Rightarrow> int option" where
  "int_literal s =
     (if nat_literal s then Some (int (atou s))
      else if s \<noteq> [] \<and> hd s = CHR ''-'' \<and> nat_literal (tl s) then Some (- int (atou (tl s))) else None)"

definition int64_literal :: "string \<Rightarrow> goint option" where
  "int64_literal s = (case int_literal s of
     None \<Rightarrow> None | Some i \<Rightarrow> if - (2 ^ 63) \<le> i \<and> i < 2 ^ 63 then Some (word_of_int i) else None)"

definition uint8_literal :: "string \<Rightarrow> 8 word option" where
  "uint8_literal s = (case int_literal s of
     None \<Rightarrow> None | Some i \<Rightarrow> if 0 \<le> i \<and> i < 256 \<and> hd s \<noteq> CHR ''-'' then Some (word_of_int i) else None)"

lemma int_literal_nil [simp]: "int_literal [] = None"
  by (simp add: int_literal_def nat_literal_def)

lemma digit_char_digit: "d < 10 \<Longrightarrow> is_digit (digit_char d)"
proof -
  have "list_all (\<lambda>d. is_digit (digit_char d)) [0..<10]" by code_simp
  then show "d < 10 \<Longrightarrow> is_digit (digit_char d)" by (simp only: list_all_iff set_upt) simp
qed

lemma utoa_digits: "list_all is_digit (utoa n)"
proof (induction n rule: utoa.induct)
  case (1 n)
  show ?case
  proof (cases "n < 10")
    case True
    then show ?thesis by (subst utoa.simps) (simp add: digit_char_digit)
  next
    case False
    have "n mod 10 < 10" by simp
    from digit_char_digit [OF this] 1 [OF False] False show ?thesis
      by (subst utoa.simps) simp
  qed
qed

lemma utoa_nonzero: "0 < n \<Longrightarrow> hd (utoa n) \<noteq> CHR ''0''"
proof (induction n rule: utoa.induct)
  case (1 n)
  have digit: "digit_char d \<noteq> CHR ''0''" if "0 < d" "d < 10" for d
    using digit_value_char [OF that(2)] that(1) by (auto simp: digit_value_def)
  show ?case
  proof (cases "n < 10")
    case True
    with 1(2) show ?thesis by (subst utoa.simps) (simp add: digit)
  next
    case False
    with 1 show ?thesis by (subst utoa.simps) simp
  qed
qed

lemma nat_literal_utoa [simp]: "nat_literal (utoa n)"
proof (cases "n = 0")
  case True
  then show ?thesis using utoa_digits [of n] by (simp add: nat_literal_def utoa.simps)
next
  case False
  then show ?thesis using utoa_digits [of n] utoa_nonzero [of n] by (simp add: nat_literal_def)
qed

lemma minus_not_nat: "nat_literal s \<Longrightarrow> hd s \<noteq> CHR ''-''"
  by (cases s) (auto simp: nat_literal_def is_digit_def)

lemma int_literal_itoa [simp]: "int_literal (itoa i) = Some i"
  using minus_not_nat [of "''-'' @ utoa (nat (- i))"] by (auto simp: itoa_def int_literal_def)

lemma int64_literal_itoa [simp]: "int64_literal (itoa (sint (i :: goint))) = Some i"
  using sint64_range [of i] by (simp add: int64_literal_def)

lemma uint8_literal_itoa [simp]: "uint8_literal (itoa (uint (b :: 8 word))) = Some b"
proof -
  have "hd (utoa n) \<noteq> CHR ''-''" for n by (rule minus_not_nat) simp
  moreover have "int_literal (utoa (unat b)) = Some (uint b)"
    using int_literal_itoa [of "uint b"] by (simp add: itoa_def)
  ultimately show ?thesis using uint_lt2p [of b] by (simp add: uint8_literal_def itoa_def)
qed

subsection \<open>Dynamic values\<close>

text \<open>
  A map is written with its keys in order. A number read into an \<^verbatim>\<open>interface{}\<close> becomes a
  \<^verbatim>\<open>json.Number\<close>, which is written as its literal (an empty one as 0) if it is a valid one;
  a later entry of an object replaces an earlier one with the same key.
\<close>

fun value_json :: "(govalue \<Rightarrow> json option) \<Rightarrow> govalue \<Rightarrow> json option" where
  "value_json other VNil = Some JNull"
| "value_json other (VBool b) = Some (JBool b)"
| "value_json other (VString s) = Some (JStr s)"
| "value_json other (VInt i) = Some (JNum (itoa (sint i)))"
| "value_json other (VInt32 i) = Some (JNum (itoa (sint i)))"
| "value_json other (VInt64 i) = Some (JNum (itoa (sint i)))"
| "value_json other (VUint8 i) = Some (JNum (itoa (uint i)))"
| "value_json other (VNumber s) = (if s = [] then Some (JNum ''0'')
     else if int_literal s \<noteq> None then Some (JNum s) else other (VNumber s))"
| "value_json other (VSlice vs) = map_option JArr (those (map (value_json other) vs))"
| "value_json other (VMap kvs) = map_option (\<lambda>js. JObj (sort_key fst (zip (map fst kvs) js)))
     (those (map (\<lambda>kv. value_json other (snd kv)) kvs))"
| "value_json other v = other v"

fun json_value :: "json \<Rightarrow> govalue" where
  "json_value JNull = VNil"
| "json_value (JBool b) = VBool b"
| "json_value (JNum s) = VNumber s"
| "json_value (JStr s) = VString s"
| "json_value (JArr js) = VSlice (map json_value js)"
| "json_value (JObj kvs) = VMap (sort_key fst
     (fold (\<lambda>kv m. AList.update (fst kv) (json_value (snd kv)) m) kvs []))"

text \<open>
  The values whose JSON is modelled down to the text: texts are ASCII (the encoder replaces
  bytes that are not UTF-8), numbers are integers, and the entries of a map are listed in the
  order of their keys.
\<close>

definition plain_text :: "string \<Rightarrow> bool" where
  "plain_text s \<longleftrightarrow> list_all (\<lambda>c. of_char c < (128 :: nat)) s"

fun plain_value :: "govalue \<Rightarrow> bool" where
  "plain_value (VString s) = plain_text s"
| "plain_value (VNumber s) = (int_literal s \<noteq> None)"
| "plain_value (VSlice vs) = list_all plain_value vs"
| "plain_value (VMap kvs) = (list_all plain_text (map fst kvs) \<and> sorted (map fst kvs) \<and> distinct (map fst kvs) \<and>
     list_all (\<lambda>kv. plain_value (snd kv)) kvs)"
| "plain_value (VFloat64 _) = False"
| "plain_value (VOpaque _) = False"
| "plain_value _ = True"

fun plain_json :: "json \<Rightarrow> bool" where
  "plain_json (JNum s) = (int_literal s \<noteq> None)"
| "plain_json (JStr s) = plain_text s"
| "plain_json (JArr js) = list_all plain_json js"
| "plain_json (JObj kvs) = (list_all plain_text (map fst kvs) \<and> list_all (\<lambda>kv. plain_json (snd kv)) kvs)"
| "plain_json _ = True"

text \<open>What a value is after a trip: every integer has become a \<^verbatim>\<open>json.Number\<close>.\<close>

fun numbered :: "govalue \<Rightarrow> govalue" where
  "numbered (VInt i) = VNumber (itoa (sint i))"
| "numbered (VInt32 i) = VNumber (itoa (sint i))"
| "numbered (VInt64 i) = VNumber (itoa (sint i))"
| "numbered (VUint8 i) = VNumber (itoa (uint i))"
| "numbered (VSlice vs) = VSlice (map numbered vs)"
| "numbered (VMap kvs) = VMap (map (\<lambda>kv. (fst kv, numbered (snd kv))) kvs)"
| "numbered v = v"

lemma those_map: "\<forall>x \<in> set xs. f x = Some (g x) \<Longrightarrow> those (map f xs) = Some (map g xs)"
  by (induction xs) auto

lemma fold_update_distinct:
  "distinct (map fst m @ map fst kvs) \<Longrightarrow>
   fold (\<lambda>kv m. AList.update (fst kv) (f (snd kv)) m) kvs m = m @ map (\<lambda>kv. (fst kv, f (snd kv))) kvs"
proof (induction kvs arbitrary: m)
  case (Cons kv kvs)
  have "AList.update k v m = m @ [(k, v)]" if "k \<notin> fst ` set m" for k v
    using that by (induction m) auto
  with Cons show ?case by (simp add: image_Un)
qed simp

lemma value_round_trip:
  "plain_value v \<Longrightarrow> \<exists>j. value_json other v = Some j \<and> plain_json j \<and> json_value j = numbered v"
proof (induction v rule: numbered.induct)
  case (5 vs)
  then have "\<forall>v \<in> set vs. \<exists>j. value_json other v = Some j \<and> plain_json j \<and> json_value j = numbered v"
    by (auto simp: list_all_iff)
  then obtain g where g: "\<forall>v \<in> set vs. value_json other v = Some (g v) \<and> plain_json (g v) \<and> json_value (g v) = numbered v"
    by metis
  then have "those (map (value_json other) vs) = Some (map g vs)" by (intro those_map) simp
  with g show ?case by (simp add: list_all_iff)
next
  case (6 kvs)
  then have "\<forall>kv \<in> set kvs. \<exists>j. value_json other (snd kv) = Some j \<and> plain_json j \<and> json_value j = numbered (snd kv)"
    by (auto simp: list_all_iff)
  then obtain g where g: "\<forall>kv \<in> set kvs. value_json other (snd kv) = Some (g kv) \<and> plain_json (g kv) \<and>
      json_value (g kv) = numbered (snd kv)"
    by metis
  let ?js = "map (\<lambda>kv. (fst kv, g kv)) kvs"
  have those: "those (map (\<lambda>kv. value_json other (snd kv)) kvs) = Some (map g kvs)"
    using g by (intro those_map) simp
  have zip: "zip (map fst kvs) (map g kvs) = ?js" by (simp add: zip_map_map zip_same_conv_map)
  have keys: "map fst ?js = map fst kvs" by (simp add: comp_def)
  have ord: "sorted (map fst kvs)" "distinct (map fst kvs)" using 6(2) by simp_all
  have "sort_key fst ?js = ?js" by (rule sort_key_id_if_sorted) (simp only: keys ord(1))
  with those zip have json: "value_json other (VMap kvs) = Some (JObj ?js)" by simp
  have "fold (\<lambda>kv m. AList.update (fst kv) (json_value (snd kv)) m) ?js [] =
      map (\<lambda>kv. (fst kv, json_value (snd kv))) ?js"
    by (rule fold_update_distinct [where m = "[]", unfolded append_Nil list.map(1)]) (simp only: keys ord(2))
  also have "\<dots> = map (\<lambda>kv. (fst kv, numbered (snd kv))) kvs" using g by simp
  finally have "json_value (JObj ?js) = numbered (VMap kvs)"
    using ord(1) by (simp add: sort_key_id_if_sorted comp_def)
  with json g 6(2) show ?case by (auto simp: list_all_iff)
qed auto

lemma plain_numbered: "plain_value v \<Longrightarrow> plain_value (numbered v)"
  by (induction v rule: numbered.induct) (auto simp: list_all_iff comp_def)

lemma numbered_idem [simp]: "numbered (numbered v) = numbered v"
  by (induction v rule: numbered.induct) auto

subsection \<open>Structures\<close>

text \<open>
  The value a field gets from a JSON value, given the value it has: \<open>null\<close> leaves it alone
  (and makes a pointer, slice or interface nil), a value of another kind is an error.
\<close>

definition read_string :: "json \<Rightarrow> string \<Rightarrow> string option" where
  "read_string j old = (case j of JNull \<Rightarrow> Some old | JStr s \<Rightarrow> Some s | _ \<Rightarrow> None)"

definition read_int :: "json \<Rightarrow> goint \<Rightarrow> goint option" where
  "read_int j old = (case j of JNull \<Rightarrow> Some old | JNum l \<Rightarrow> int64_literal l | _ \<Rightarrow> None)"

definition read_uint8 :: "json \<Rightarrow> 8 word \<Rightarrow> 8 word option" where
  "read_uint8 j old = (case j of JNull \<Rightarrow> Some old | JNum l \<Rightarrow> uint8_literal l | _ \<Rightarrow> None)"

definition read_bool :: "json \<Rightarrow> bool \<Rightarrow> bool option" where
  "read_bool j old = (case j of JNull \<Rightarrow> Some old | JBool b \<Rightarrow> Some b | _ \<Rightarrow> None)"

definition read_time :: "json_lib \<Rightarrow> json \<Rightarrow> gotime option option" where
  "read_time lib j = (case j of JNull \<Rightarrow> Some None | JStr t \<Rightarrow> map_option Some (parse_time lib t) | _ \<Rightarrow> None)"

text \<open>The field a key of an object names, and the fields of an object read one after the other.\<close>

definition ascii_lower :: "char \<Rightarrow> char" where
  "ascii_lower c = (let n = of_char c :: nat in if 65 \<le> n \<and> n \<le> 90 then char_of (n + 32) else c)"

definition field_of :: "string list \<Rightarrow> string \<Rightarrow> string option" where
  "field_of names k = List.find (\<lambda>n. map ascii_lower n = map ascii_lower k) names"

primrec read_fields :: "(string \<Rightarrow> json \<Rightarrow> 'a \<Rightarrow> 'a option) \<Rightarrow> (string \<times> json) list \<Rightarrow> 'a \<Rightarrow> 'a option" where
  "read_fields set_field [] x = Some x"
| "read_fields set_field (kv # kvs) x =
     (case set_field (fst kv) (snd kv) x of None \<Rightarrow> None | Some y \<Rightarrow> read_fields set_field kvs y)"

definition read_struct :: "(string \<Rightarrow> json \<Rightarrow> 'a \<Rightarrow> 'a option) \<Rightarrow> 'a \<Rightarrow> json \<Rightarrow> 'a option" where
  "read_struct set_field zero j =
     (case j of JNull \<Rightarrow> Some zero | JObj kvs \<Rightarrow> read_fields set_field kvs zero | _ \<Rightarrow> None)"

subsection \<open>Arguments\<close>

definition arg_json :: "json_lib \<Rightarrow> arg \<Rightarrow> json option" where
  "arg_json lib a = map_option (\<lambda>v. JObj [(''Name'', JStr (Arg_Name a)), (''Type'', JStr (Arg_Type a)), (''Value'', v)])
     (value_json (other_json lib) (Arg_Value a))"

definition set_arg_field :: "string \<Rightarrow> json \<Rightarrow> arg \<Rightarrow> arg option" where
  "set_arg_field k j a = (case field_of [''Name'', ''Type'', ''Value''] k of
     None \<Rightarrow> Some a
   | Some f \<Rightarrow>
      (if f = ''Name'' then map_option (\<lambda>x. a\<lparr>Arg_Name := x\<rparr>) (read_string j (Arg_Name a))
       else if f = ''Type'' then map_option (\<lambda>x. a\<lparr>Arg_Type := x\<rparr>) (read_string j (Arg_Type a))
       else Some (a\<lparr>Arg_Value := json_value j\<rparr>)))"

definition read_arg :: "json \<Rightarrow> arg option" where
  "read_arg = read_struct set_arg_field \<lparr>Arg_Name = [], Arg_Type = [], Arg_Value = VNil\<rparr>"

definition args_json :: "json_lib \<Rightarrow> arg list option \<Rightarrow> json option" where
  "args_json lib args = (case args of
     None \<Rightarrow> Some JNull | Some as \<Rightarrow> map_option JArr (those (map (arg_json lib) as)))"

definition read_args :: "json \<Rightarrow> arg list option option" where
  "read_args j = (case j of
     JNull \<Rightarrow> Some None | JArr js \<Rightarrow> map_option Some (those (map read_arg js)) | _ \<Rightarrow> None)"

subsection \<open>Signatures\<close>

text \<open>
  A \<^verbatim>\<open>json.RawMessage\<close> is written as the JSON it holds (nil as \<open>null\<close>, and text that is not
  JSON, the empty one included, is an error) and read as the text of the value it gets,
  \<open>null\<close> included. An instant that has no text is an error.
\<close>

definition raw_json :: "json_lib \<Rightarrow> string option \<Rightarrow> json option" where
  "raw_json lib r = (case r of None \<Rightarrow> Some JNull | Some t \<Rightarrow> parse_json lib t)"

definition time_json :: "json_lib \<Rightarrow> gotime option \<Rightarrow> json option" where
  "time_json lib t = (case t of None \<Rightarrow> Some JNull | Some t \<Rightarrow> map_option JStr (time_text lib t))"

definition signature_json :: "json_lib \<Rightarrow> signature \<Rightarrow> json option" where
  "signature_json lib s =
     (case (args_json lib (Args s), raw_json lib (RawArgs s), time_json lib (CreatedAt s), time_json lib (ETA s)) of
        (Some args, Some raw, Some created, Some eta) \<Rightarrow> Some (JObj [
          (''UUID'', JStr (UUID s)), (''Name'', JStr (Name s)), (''Args'', args), (''RawArgs'', raw),
          (''RoutingKey'', JStr (RoutingKey s)), (''Priority'', JNum (itoa (uint (Priority s)))),
          (''RetryCount'', JNum (itoa (sint (RetryCount s)))),
          (''RetryTimeout'', JNum (itoa (sint (RetryTimeout s)))),
          (''WaitTime'', JNum (itoa (sint (WaitTime s)))),
          (''RetriesDone'', JNum (itoa (sint (RetriesDone s)))),
          (''TaskTimeOut'', JNum (itoa (sint (TaskTimeOut s)))),
          (''IgnoreWhenTaskNotRegistered'', JBool (IgnoreWhenTaskNotRegistered s)),
          (''CreatedAt'', created), (''ETA'', eta)])
      | _ \<Rightarrow> None)"

definition signature_fields :: "string list" where
  "signature_fields = [
     ''UUID'', ''Name'', ''Args'', ''RawArgs'', ''RoutingKey'',
     ''Priority'', ''RetryCount'', ''RetryTimeout'', ''WaitTime'', ''RetriesDone'',
     ''TaskTimeOut'', ''IgnoreWhenTaskNotRegistered'', ''CreatedAt'', ''ETA'']"

definition set_signature_field :: "json_lib \<Rightarrow> string \<Rightarrow> json \<Rightarrow> signature \<Rightarrow> signature option" where
  "set_signature_field lib k j s = (case field_of signature_fields k of
     None \<Rightarrow> Some s
   | Some f \<Rightarrow>
      (if f = ''UUID'' then map_option (\<lambda>x. s\<lparr>UUID := x\<rparr>) (read_string j (UUID s))
       else if f = ''Name'' then map_option (\<lambda>x. s\<lparr>Name := x\<rparr>) (read_string j (Name s))
       else if f = ''Args'' then map_option (\<lambda>x. s\<lparr>Args := x\<rparr>) (read_args j)
       else if f = ''RawArgs'' then Some (s\<lparr>RawArgs := Some (print_json lib j)\<rparr>)
       else if f = ''RoutingKey'' then map_option (\<lambda>x. s\<lparr>RoutingKey := x\<rparr>) (read_string j (RoutingKey s))
       else if f = ''Priority'' then map_option (\<lambda>x. s\<lparr>Priority := x\<rparr>) (read_uint8 j (Priority s))
       else if f = ''RetryCount'' then map_option (\<lambda>x. s\<lparr>RetryCount := x\<rparr>) (read_int j (RetryCount s))
       else if f = ''RetryTimeout'' then map_option (\<lambda>x. s\<lparr>RetryTimeout := x\<rparr>) (read_int j (RetryTimeout s))
       else if f = ''WaitTime'' then map_option (\<lambda>x. s\<lparr>WaitTime := x\<rparr>) (read_int j (WaitTime s))
       else if f = ''RetriesDone'' then map_option (\<lambda>x. s\<lparr>RetriesDone := x\<rparr>) (read_int j (RetriesDone s))
       else if f = ''TaskTimeOut'' then map_option (\<lambda>x. s\<lparr>TaskTimeOut := x\<rparr>) (read_int j (TaskTimeOut s))
       else if f = ''IgnoreWhenTaskNotRegistered''
         then map_option (\<lambda>x. s\<lparr>IgnoreWhenTaskNotRegistered := x\<rparr>) (read_bool j (IgnoreWhenTaskNotRegistered s))
       else if f = ''CreatedAt'' then map_option (\<lambda>x. s\<lparr>CreatedAt := x\<rparr>) (read_time lib j)
       else map_option (\<lambda>x. s\<lparr>ETA := x\<rparr>) (read_time lib j)))"

definition read_signature :: "json_lib \<Rightarrow> json \<Rightarrow> signature option" where
  "read_signature lib = read_struct (set_signature_field lib) zero_signature"

text \<open>The codec of the message components.\<close>

definition encoding_json :: "json_lib \<Rightarrow> json_codec" where
  "encoding_json lib = \<lparr>
     json_marshal = \<lambda>s. (case signature_json lib s of
        None \<Rightarrow> Inl (LibErr ''json: unsupported value'') | Some j \<Rightarrow> Inr (print_json lib j)),
     json_decode = \<lambda>t. (case Option.bind (first_json lib t) (read_signature lib) of
        None \<Rightarrow> Inl (LibErr ''json: cannot unmarshal'') | Some s \<Rightarrow> Inr s)\<rparr>"

lemma field_of_self:
  "distinct (map (map ascii_lower) names) \<Longrightarrow> n \<in> set names \<Longrightarrow> field_of names n = Some n"
  by (induction names) (auto simp: field_of_def)

lemma signature_fields_distinct:
  "distinct (map (map ascii_lower) signature_fields)"
  "distinct (map (map ascii_lower) [''Name'', ''Type'', ''Value''])"
  by code_simp+

lemmas field_of_names = field_of_self [OF signature_fields_distinct(1)] field_of_self [OF signature_fields_distinct(2)]

subsection \<open>What a trip makes of a signature\<close>

text \<open>
  The documented behaviour of the library the round trip rests on: a tree of plain JSON is
  read back from its text, \<open>null\<close> is written as that literal, no value is written as the
  empty text, and the text of an instant is ASCII and read back as the instant.
\<close>

definition json_documented :: "json_lib \<Rightarrow> bool" where
  "json_documented lib \<longleftrightarrow>
     (\<forall>j. plain_json j \<longrightarrow> parse_json lib (print_json lib j) = Some j \<and> first_json lib (print_json lib j) = Some j) \<and>
     print_json lib JNull = ''null'' \<and> (\<forall>j. print_json lib j \<noteq> []) \<and>
     (\<forall>t x. time_text lib t = Some x \<longrightarrow> plain_text x \<and> parse_time lib x = Some t)"

definition plain_arg :: "arg \<Rightarrow> bool" where
  "plain_arg a \<longleftrightarrow> plain_text (Arg_Name a) \<and> plain_text (Arg_Type a) \<and> plain_value (Arg_Value a)"

definition plain_signature :: "signature \<Rightarrow> bool" where
  "plain_signature s \<longleftrightarrow> plain_text (UUID s) \<and> plain_text (Name s) \<and> plain_text (RoutingKey s) \<and>
     (case Args s of None \<Rightarrow> True | Some as \<Rightarrow> list_all plain_arg as)"

definition numbered_arg :: "arg \<Rightarrow> arg" where
  "numbered_arg a = a\<lparr>Arg_Value := numbered (Arg_Value a)\<rparr>"

definition json_image :: "signature \<Rightarrow> signature" where
  "json_image s = s\<lparr>RawArgs := Some ''null'', Args := map_option (map numbered_arg) (Args s)\<rparr>"

lemma json_image_idem [simp]: "json_image (json_image s) = json_image s"
proof -
  have "numbered_arg \<circ> numbered_arg = numbered_arg" by (simp add: numbered_arg_def fun_eq_iff)
  then show ?thesis by (simp add: json_image_def option.map_comp)
qed

lemma plain_image: "plain_signature s \<Longrightarrow> plain_signature (json_image s)"
  by (auto simp: plain_signature_def json_image_def plain_arg_def numbered_arg_def list_all_iff plain_numbered
      split: option.splits)

lemma arg_round_trip:
  assumes "plain_arg a"
  shows "\<exists>j. arg_json lib a = Some j \<and> plain_json j \<and> read_arg j = Some (numbered_arg a)"
proof -
  obtain j where "value_json (other_json lib) (Arg_Value a) = Some j" "plain_json j"
    "json_value j = numbered (Arg_Value a)"
    using value_round_trip assms by (meson plain_arg_def)
  moreover have "plain_text ''Name''" "plain_text ''Type''" "plain_text ''Value''"
    by (simp_all add: plain_text_def)
  ultimately show ?thesis using assms
    by (simp add: arg_json_def read_arg_def read_struct_def set_arg_field_def field_of_names read_string_def
        numbered_arg_def plain_arg_def)
qed

lemma args_round_trip:
  assumes "\<forall>as. args = Some as \<longrightarrow> list_all plain_arg as"
  shows "\<exists>j. args_json lib args = Some j \<and> plain_json j \<and> read_args j = Some (map_option (map numbered_arg) args)"
proof (cases args)
  case None
  then show ?thesis by (simp add: args_json_def read_args_def)
next
  case (Some as)
  then have "\<forall>a \<in> set as. \<exists>j. arg_json lib a = Some j \<and> plain_json j \<and> read_arg j = Some (numbered_arg a)"
    using assms arg_round_trip by (simp add: list_all_iff)
  then obtain g where g: "\<forall>a \<in> set as. arg_json lib a = Some (g a) \<and> plain_json (g a) \<and> read_arg (g a) = Some (numbered_arg a)"
    by metis
  have "those (map (arg_json lib) as) = Some (map g as)" using g by (intro those_map) simp
  moreover have "those (map (read_arg \<circ> g) as) = Some (map numbered_arg as)" using g by (intro those_map) simp
  ultimately show ?thesis using g Some by (simp add: args_json_def read_args_def list_all_iff)
qed

lemma time_round_trip:
  assumes "json_documented lib" "time_json lib t = Some j"
  shows "plain_json j \<and> read_time lib j = Some t"
  using assms by (cases t) (auto simp: time_json_def read_time_def json_documented_def)

lemma read_scalars [simp]:
  "read_string (JStr t) x = Some t" "read_int (JNum (itoa (sint i))) y = Some i"
  "read_uint8 (JNum (itoa (uint b))) z = Some b" "read_bool (JBool c) d = Some c"
  by (simp_all add: read_string_def read_int_def read_uint8_def read_bool_def)

lemma set_signature_fields:
  "set_signature_field lib ''UUID'' j s = map_option (\<lambda>x. s\<lparr>UUID := x\<rparr>) (read_string j (UUID s))"
  "set_signature_field lib ''Name'' j s = map_option (\<lambda>x. s\<lparr>Name := x\<rparr>) (read_string j (Name s))"
  "set_signature_field lib ''Args'' j s = map_option (\<lambda>x. s\<lparr>Args := x\<rparr>) (read_args j)"
  "set_signature_field lib ''RawArgs'' j s = Some (s\<lparr>RawArgs := Some (print_json lib j)\<rparr>)"
  "set_signature_field lib ''RoutingKey'' j s = map_option (\<lambda>x. s\<lparr>RoutingKey := x\<rparr>) (read_string j (RoutingKey s))"
  "set_signature_field lib ''Priority'' j s = map_option (\<lambda>x. s\<lparr>Priority := x\<rparr>) (read_uint8 j (Priority s))"
  "set_signature_field lib ''RetryCount'' j s = map_option (\<lambda>x. s\<lparr>RetryCount := x\<rparr>) (read_int j (RetryCount s))"
  "set_signature_field lib ''RetryTimeout'' j s = map_option (\<lambda>x. s\<lparr>RetryTimeout := x\<rparr>) (read_int j (RetryTimeout s))"
  "set_signature_field lib ''WaitTime'' j s = map_option (\<lambda>x. s\<lparr>WaitTime := x\<rparr>) (read_int j (WaitTime s))"
  "set_signature_field lib ''RetriesDone'' j s = map_option (\<lambda>x. s\<lparr>RetriesDone := x\<rparr>) (read_int j (RetriesDone s))"
  "set_signature_field lib ''TaskTimeOut'' j s = map_option (\<lambda>x. s\<lparr>TaskTimeOut := x\<rparr>) (read_int j (TaskTimeOut s))"
  "set_signature_field lib ''IgnoreWhenTaskNotRegistered'' j s =
     map_option (\<lambda>x. s\<lparr>IgnoreWhenTaskNotRegistered := x\<rparr>) (read_bool j (IgnoreWhenTaskNotRegistered s))"
  "set_signature_field lib ''CreatedAt'' j s = map_option (\<lambda>x. s\<lparr>CreatedAt := x\<rparr>) (read_time lib j)"
  "set_signature_field lib ''ETA'' j s = map_option (\<lambda>x. s\<lparr>ETA := x\<rparr>) (read_time lib j)"
  by (simp_all add: set_signature_field_def field_of_names(1) signature_fields_def [THEN arg_cong [where f = set]])

lemma signature_round_trip:
  assumes lib: "json_documented lib" and plain: "plain_signature s"
    and raw: "RawArgs s = None \<or> RawArgs s = Some ''null''" and j: "signature_json lib s = Some j"
  shows "plain_json j \<and> read_signature lib j = Some (json_image s)"
proof -
  have args: "\<forall>as. Args s = Some as \<longrightarrow> list_all plain_arg as"
    using plain by (auto simp: plain_signature_def split: option.splits)
  obtain aj where aj: "args_json lib (Args s) = Some aj" "plain_json aj"
    "read_args aj = Some (map_option (map numbered_arg) (Args s))"
    using args_round_trip [OF args] by blast
  have null: "parse_json lib ''null'' = Some JNull" "print_json lib JNull = ''null''"
    using lib by (simp_all add: json_documented_def) (metis plain_json.simps(5))
  with raw have rj: "raw_json lib (RawArgs s) = Some JNull" by (auto simp: raw_json_def)
  from j aj(1) rj obtain cj ej where tj: "time_json lib (CreatedAt s) = Some cj" "time_json lib (ETA s) = Some ej"
    by (auto simp: signature_json_def split: option.splits)
  note times = time_round_trip [OF lib tj(1)] time_round_trip [OF lib tj(2)]
  have texts: "plain_text (UUID s)" "plain_text (Name s)" "plain_text (RoutingKey s)"
    using plain by (simp_all add: plain_signature_def)
  have names: "list_all plain_text signature_fields"
    by (simp add: signature_fields_def plain_text_def)
  have "plain_json j"
    using j aj(1,2) rj tj times texts names by (auto simp: signature_json_def signature_fields_def)
  moreover have "read_signature lib j = Some (json_image s)"
    using j aj(1,3) rj tj times null(2)
    by (auto simp: signature_json_def read_signature_def read_struct_def set_signature_fields zero_signature_def json_image_def)
  ultimately show ?thesis by blast
qed

text \<open>A plain signature that can be written is read back as its image, and its image can be written too.\<close>

lemma encoding_json_round_trip:
  assumes lib: "json_documented lib" and plain: "plain_signature s"
    and raw: "RawArgs s = None \<or> RawArgs s = Some ''null''" and b: "json_marshal (encoding_json lib) s = Inr b"
  shows "b \<noteq> [] \<and> json_decode (encoding_json lib) b = Inr (json_image s)"
proof -
  obtain j where j: "signature_json lib s = Some j" "b = print_json lib j"
    using b by (auto simp: encoding_json_def split: option.splits)
  with signature_round_trip [OF lib plain raw j(1)] lib show ?thesis
    by (simp add: encoding_json_def json_documented_def)
qed

lemma image_fields:
  "UUID (json_image s) = UUID s" "Name (json_image s) = Name s" "RoutingKey (json_image s) = RoutingKey s"
  "Priority (json_image s) = Priority s" "RetryCount (json_image s) = RetryCount s"
  "RetryTimeout (json_image s) = RetryTimeout s" "WaitTime (json_image s) = WaitTime s"
  "RetriesDone (json_image s) = RetriesDone s" "TaskTimeOut (json_image s) = TaskTimeOut s"
  "IgnoreWhenTaskNotRegistered (json_image s) = IgnoreWhenTaskNotRegistered s"
  "CreatedAt (json_image s) = CreatedAt s" "ETA (json_image s) = ETA s"
  by (simp_all add: json_image_def)

lemma value_json_numbered: "value_json other (numbered v) = value_json other v"
proof (induction v rule: numbered.induct)
  case (5 vs)
  then have "map (value_json other) (map numbered vs) = map (value_json other) vs" by simp
  then show ?case by (simp only: numbered.simps value_json.simps)
next
  case (6 kvs)
  then have "map (\<lambda>kv. value_json other (snd kv)) (map (\<lambda>kv. (fst kv, numbered (snd kv))) kvs) =
      map (\<lambda>kv. value_json other (snd kv)) kvs"
    by simp
  moreover have "map fst (map (\<lambda>kv. (fst kv, numbered (snd kv))) kvs) = map fst kvs" by simp
  ultimately show ?case by (simp only: numbered.simps value_json.simps)
qed simp_all

lemma encoding_json_image:
  assumes lib: "json_documented lib" and raw: "RawArgs s = None \<or> RawArgs s = Some ''null''"
  shows "json_marshal (encoding_json lib) (json_image s) = json_marshal (encoding_json lib) s"
proof -
  have "arg_json lib (numbered_arg a) = arg_json lib a" for a
    by (simp add: arg_json_def numbered_arg_def value_json_numbered)
  then have args: "args_json lib (Args (json_image s)) = args_json lib (Args s)"
    by (simp add: args_json_def json_image_def comp_def split: option.split)
  have "parse_json lib ''null'' = Some JNull"
    using lib unfolding json_documented_def by (metis plain_json.simps(5))
  then have raws: "raw_json lib (RawArgs (json_image s)) = raw_json lib (RawArgs s)"
    using raw by (auto simp: raw_json_def json_image_def)
  have "signature_json lib (json_image s) = signature_json lib s"
    unfolding signature_json_def args raws image_fields ..
  then show ?thesis by (simp add: encoding_json_def)
qed

end
