(* ===== verification/Retry_Lifecycle.thy ===== *)
theory Retry_Lifecycle
  imports Task_Processing Json_Signature
begin

section \<open>A task from send to redelivery, and its life under failure\<close>

text \<open>
  What a consumer rebuilds from the message a signature was published as, and the course of
  a task that keeps failing: the sequence of replacement messages up to the failed queue.
\<close>

subsection \<open>Headers on the wire\<close>

text \<open>
  The AMQP client library encodes the header values of a message and decodes them at the
  consumer: \<open>wire v\<close> is the value that arrives for \<open>v\<close>. The code relies on strings,
  booleans and 64-bit integers arriving as they were sent, and on an \<open>int\<close> in the 32-bit
  range arriving as an integer of the same value.
\<close>

definition wire_documented :: "(govalue \<Rightarrow> govalue) \<Rightarrow> bool" where
  "wire_documented wire \<longleftrightarrow>
     (\<forall>s. wire (VString s) = VString s) \<and> (\<forall>b. wire (VBool b) = VBool b) \<and>
     (\<forall>i. wire (VInt64 i) = VInt64 i) \<and>
     (\<forall>i. - (2 ^ 31) \<le> sint i \<and> sint i < 2 ^ 31 \<longrightarrow>
        wire (VInt i) = VInt32 (word_of_int (sint i)) \<or> wire (VInt i) = VInt64 i)"

definition int32_range :: "goint \<Rightarrow> bool" where
  "int32_range i \<longleftrightarrow> - (2 ^ 31) \<le> sint i \<and> sint i < 2 ^ 31"

definition small_counters :: "signature \<Rightarrow> bool" where
  "small_counters s \<longleftrightarrow> int32_range (RetryCount s) \<and> int32_range (RetryTimeout s) \<and>
     int32_range (WaitTime s) \<and> int32_range (RetriesDone s) \<and> int32_range (TaskTimeOut s)"

definition unix_range :: "gotime option \<Rightarrow> bool" where
  "unix_range t \<longleftrightarrow> (case t of None \<Rightarrow> True
     | Some t \<Rightarrow> - (2 ^ 63) \<le> t div 1000000000 \<and> t div 1000000000 < 2 ^ 63)"

definition whole_seconds :: "gotime option \<Rightarrow> gotime option" where
  "whole_seconds t = map_option (\<lambda>t. t div 1000000000 * 1000000000) t"

lemma GetInt_wire: "wire_documented wire \<Longrightarrow> int32_range i \<Longrightarrow> GetInt (wire (VInt i)) = i"
  unfolding wire_documented_def int32_range_def
  by (metis GetInt.simps(2) GetInt_narrowed)

lemma wire_simps:
  assumes "wire_documented wire"
  shows "wire (VString s) = VString s" "wire (VBool b) = VBool b" "wire (VInt64 i) = VInt64 i"
  using assms by (auto simp: wire_documented_def)

text \<open>What arrives for a published message.\<close>

definition redeliver :: "(govalue \<Rightarrow> govalue) \<Rightarrow> message \<Rightarrow> delivery" where
  "redeliver wire m = (case m of (ex, key, msg) \<Rightarrow>
     \<lparr>Headers = map_option wire \<circ> PubHeaders msg, Body = PubBody msg, ack_error = None\<rparr>)"

text \<open>What the header format carries of a signature: not the arguments, routing key or priority.\<close>

definition header_image :: "signature \<Rightarrow> signature" where
  "header_image s = s\<lparr>Args := None, RoutingKey := [], Priority := 0,
     CreatedAt := whole_seconds (CreatedAt s), ETA := whole_seconds (ETA s)\<rparr>"

lemma table_get_map: "table_get (map_option wire \<circ> h) k = (case h k of None \<Rightarrow> VNil | Some v \<Rightarrow> wire v)"
  by (simp add: table_get_def split: option.split)

lemma headers_lookup:
  "buildHeadersFromSignature s ''uuid'' = Some (VString (UUID s))"
  "buildHeadersFromSignature s ''task_name'' = Some (VString (Name s))"
  "buildHeadersFromSignature s ''retry_count'' = Some (VInt (RetryCount s))"
  "buildHeadersFromSignature s ''retry_timeout'' = Some (VInt (RetryTimeout s))"
  "buildHeadersFromSignature s ''timeout'' = Some (VInt (TaskTimeOut s))"
  "buildHeadersFromSignature s ''wait_time'' = Some (VInt (WaitTime s))"
  "buildHeadersFromSignature s ''retries_done'' = Some (VInt (RetriesDone s))"
  "buildHeadersFromSignature s ''ignore_if_unregistered'' = Some (VBool (IgnoreWhenTaskNotRegistered s))"
  "buildHeadersFromSignature s ''created_at'' = map_option (VInt64 \<circ> unix_seconds) (CreatedAt s)"
  "buildHeadersFromSignature s ''eta'' = map_option (VInt64 \<circ> unix_seconds) (ETA s)"
  "buildHeadersFromSignature s ''routing_key'' = None"
  "buildHeadersFromSignature s ''priority'' = None"
  by (simp_all add: buildHeadersFromSignature_def Let_def split: option.split)

definition time_of_header :: "govalue \<Rightarrow> gotime option" where
  "time_of_header v = (case GetInt64Ok v of (i, ok) \<Rightarrow> if ok then Some (sint i * 1000000000) else None)"

lemma decode_times:
  "(case GetInt64Ok v of (i, ok) \<Rightarrow> if ok then s\<lparr>CreatedAt := Some (sint i * 1000000000)\<rparr> else s) =
     (if time_of_header v = None then s else s\<lparr>CreatedAt := time_of_header v\<rparr>)"
  "(case GetInt64Ok v of (i, ok) \<Rightarrow> if ok then s\<lparr>ETA := Some (sint i * 1000000000)\<rparr> else s) =
     (if time_of_header v = None then s else s\<lparr>ETA := time_of_header v\<rparr>)"
  by (auto simp: time_of_header_def split: prod.splits)

lemma time_of_header_wire:
  assumes "wire_documented wire" "unix_range t"
  shows "time_of_header (case map_option (VInt64 \<circ> unix_seconds) t of None \<Rightarrow> VNil | Some v \<Rightarrow> wire v) =
    whole_seconds t"
  using assms
  by (cases t) (auto simp: time_of_header_def wire_simps unix_range_def unix_seconds_def
      whole_seconds_def sint64_of_int)

lemma header_decode:
  assumes wire: "wire_documented wire" and small: "small_counters s"
    and time: "unix_range (CreatedAt s)" "unix_range (ETA s)" and raw: "RawArgs s = Some r"
  shows "SignatureFromAmqpHeadersAndBody (map_option wire \<circ> buildHeadersFromSignature s) r =
    Inr (header_image s)"
proof -
  have ints: "GetInt (wire (VInt (RetryCount s))) = RetryCount s"
    "GetInt (wire (VInt (RetryTimeout s))) = RetryTimeout s"
    "GetInt (wire (VInt (TaskTimeOut s))) = TaskTimeOut s"
    "GetInt (wire (VInt (WaitTime s))) = WaitTime s"
    "GetInt (wire (VInt (RetriesDone s))) = RetriesDone s"
    using small GetInt_wire [OF wire] by (auto simp: small_counters_def)
  note times = time_of_header_wire [OF wire time(1)] time_of_header_wire [OF wire time(2)]
  show ?thesis
    unfolding SignatureFromAmqpHeadersAndBody_def Let_def decode_times table_get_map headers_lookup times
    by (simp add: wire_simps [OF wire] ints header_image_def zero_signature_def raw whole_seconds_def
        split: option.split)
qed

text \<open>A signature sent raw is rebuilt up to \<open>header_image\<close>, any codec being left out of it.\<close>

lemma redeliver_raw:
  assumes "sends_raw s" "published_message codec b now s = Inr m"
  shows "Headers (redeliver wire m) = map_option wire \<circ> buildHeadersFromSignature s"
    "RawArgs s = Some (Body (redeliver wire m))"
    "signature_of_delivery codec (redeliver wire m) =
       SignatureFromAmqpHeadersAndBody (map_option wire \<circ> buildHeadersFromSignature s) (Body (redeliver wire m))"
  using assms by (auto simp: published_message_def prepareMessageBodyAndHeaders_def redeliver_def sends_raw_def
      signature_of_delivery_def headers_lookup split: option.splits)

lemma raw_redelivery:
  assumes "wire_documented wire" "small_counters s" "unix_range (CreatedAt s)" "unix_range (ETA s)"
    and raw: "sends_raw s" and m: "published_message codec b now s = Inr m"
  shows "signature_of_delivery codec (redeliver wire m) = Inr (header_image s)"
  using header_decode [OF assms(1-4) redeliver_raw(2) [OF raw m]] by (simp add: redeliver_raw(3) [OF raw m])

text \<open>A raw message whose timeout header is zero is read back with a start timeout of zero.\<close>

lemma header_timeout:
  "\<exists>s'. SignatureFromAmqpHeadersAndBody h body = Inr s' \<and> TaskTimeOut s' = GetInt (table_get h ''timeout'')"
  unfolding SignatureFromAmqpHeadersAndBody_def Let_def decode_times by simp

lemma raw_timeout_redelivered:
  assumes "wire_documented wire" "sends_raw s" "TaskTimeOut s = 0" "published_message codec b now s = Inr m"
  shows "\<exists>s'. signature_of_delivery codec (redeliver wire m) = Inr s' \<and> TaskTimeOut s' = 0"
proof -
  have "GetInt (wire (VInt 0)) = 0" using GetInt_wire [OF assms(1), of 0] by (simp add: int32_range_def)
  then show ?thesis
    using header_timeout [of "map_option wire \<circ> buildHeadersFromSignature s" "Body (redeliver wire m)"] assms(3)
    by (simp add: redeliver_raw(3) [OF assms(2,4)] table_get_map headers_lookup)
qed

text \<open>
  A plain signature sent as JSON is rebuilt as its image under \<open>json_image\<close>, which is sent
  again as the same text.
\<close>

lemma json_redelivery:
  assumes "json_documented lib" "plain_signature s" and raw: "RawArgs s = None \<or> RawArgs s = Some ''null''"
    and m: "published_message (encoding_json lib) b now s = Inr m"
  shows "signature_of_delivery (encoding_json lib) (redeliver wire m) = Inr (json_image s) \<and>
    (\<exists>m'. published_message (encoding_json lib) b now' (json_image s) = Inr m' \<and>
       PubBody (snd (snd m')) = PubBody (snd (snd m)))"
proof -
  have raws: "\<not> sends_raw s" "\<not> sends_raw (json_image s)" using raw by (auto simp: sends_raw_def json_image_def)
  from m raws(1) obtain t where t: "json_marshal (encoding_json lib) s = Inr t"
    by (auto simp: published_message_def prepareMessageBodyAndHeaders_def split: sum.splits)
  note decoded = encoding_json_round_trip [OF assms(1,2) raw t]
  have again: "json_marshal (encoding_json lib) (json_image s) = Inr t"
    using encoding_json_image [OF assms(1) raw] t by simp
  show ?thesis
    using m decoded t again raws
    by (auto simp: published_message_def prepareMessageBodyAndHeaders_def redeliver_def signature_of_delivery_def)
qed

end
