(* ===== verification/Pool_Properties.thy ===== *)
theory Pool_Properties
  imports Sample_Inputs
begin

section \<open>Properties of the connection pool\<close>

text \<open>What the provider's operations promise, with each property applied to a concrete pool.\<close>

subsection \<open>Helper lemmas\<close>

text \<open>A failed dialling loop leaves none of the connections it dialled open.\<close>

lemma dial_loop_closes:
  assumes "dial_loop net n acc p = (Inl e, p')" "amqpConf p = Some c"
  shows "tick p \<le> tick p' \<and> set acc \<subseteq> closed p' \<and> closed p \<subseteq> closed p' \<and>
    (\<forall>t. tick p \<le> t \<and> t < tick p' \<and> dial net (dial_settings_of c) t = None \<longrightarrow> t \<in> closed p')"
  using assms
proof (induction n arbitrary: acc p)
  case (Suc n)
  show ?case
  proof (cases "dial net (dial_settings_of c) (tick p)")
    case None
    with Suc.prems have run: "dial_loop net n (acc @ [tick p]) (p\<lparr>tick := Suc (tick p)\<rparr>) = (Inl e, p')"
      by (simp add: CreateConnection_def lib_call_def)
    have "amqpConf (p\<lparr>tick := Suc (tick p)\<rparr>) = Some c" using Suc.prems by simp
    from Suc.IH [OF run this] have ih: "Suc (tick p) \<le> tick p'" "tick p \<in> closed p'"
      "set acc \<subseteq> closed p'" "closed p \<subseteq> closed p'"
      "\<forall>t. Suc (tick p) \<le> t \<and> t < tick p' \<and> dial net (dial_settings_of c) t = None \<longrightarrow> t \<in> closed p'"
      by simp_all
    then have "t \<in> closed p'" if "tick p \<le> t" "t < tick p'" "dial net (dial_settings_of c) t = None" for t
      using that by (cases "t = tick p") auto
    with ih show ?thesis by simp
  next
    case (Some err)
    with Suc.prems show ?thesis
      by (auto simp: CreateConnection_def lib_call_def close_open_eq less_Suc_eq)
  qed
qed simp

lemma handed_await: "await_confirm net m p = (r, b, p') \<Longrightarrow> handed p' = handed p"
  by (auto simp: await_confirm_def Let_def split: confirm_result.splits if_splits)

lemma publish_on_connection_handed:
  assumes "publish_on_connection net (Some c) key msg ex p = (r, bad, p')"
  shows "handed p' = handed p \<or> handed p' = handed p @ [(ex, key, msg)]"
  using assms
  by (auto simp: publish_on_connection_def CreateAmqpChannel_def CloseAmqpChannel_def
      AmqpPublish_def go_bind_def go_seq_def go_update_def go_return_def await_confirm_def
      lib_call_def Let_def split: option.splits confirm_result.splits if_splits)

lemma AmqpPublishWithConfirm_handed:
  assumes inv: "pool_inv out p" and conf: "amqpConf p = Some a" "1 \<le> sint (ConnectionPoolSize a)"
    and run: "AmqpPublishWithConfirm net key msg ex p = (r, p')"
  shows "(handed p' = handed p \<or> handed p' = handed p @ [(ex, key, msg)]) \<and> r \<noteq> Inl (Panic m)"
proof -
  obtain r0 p1 where get: "GetAmqpConnection net p = (r0, p1)" by fastforce
  from wpD [OF GetAmqpConnection_inv [OF inv] get] have fr: "handed p1 = handed p"
    and out: "case r0 of Inr conn \<Rightarrow> \<exists>c. conn = Some c \<and> c \<notin> set out \<and> pool_inv (c # out) p1 | Inl _ \<Rightarrow> True"
    by (auto simp: pool_frame_def split: sum.splits)
  have no: "r0 \<noteq> Inl (Panic m)"
  proof -
    obtain g q where g: "GetConnectionFromPool net p = (g, q)" by fastforce
    with GetConnectionFromPool_no_panic [OF inv conf g] get show ?thesis
      by (auto simp: GetAmqpConnection_def go_bind_def go_return_def split: sum.splits goiface.splits)
  qed
  show ?thesis
  proof (cases r0)
    case (Inl e)
    with run get fr no show ?thesis by (auto simp: AmqpPublishWithConfirm_def go_bind_def)
  next
    case (Inr conn)
    with out obtain c where c: "conn = Some c" "pool_inv (c # out) p1" by auto
    obtain r1 bad p2 where att: "publish_on_connection net (Some c) key msg ex p1 = (r1, bad, p2)"
      by (metis prod_cases3)
    note spec = publish_on_connection_spec [OF att]
    have inv2: "pool_inv (c # out) p2" by (rule pool_inv_same [OF c(2) spec(4-6)]) (use spec(9) in simp)
    have fin: "wp (if bad then DiscardConnection (IfConn (Some c)) else ReleaseConnectionToPool net (IfConn (Some c)))
        (\<lambda>r' q. handed q = handed p2 \<and> r' \<noteq> Inl (Panic m)) p2"
    proof (cases bad)
      case True
      then show ?thesis by (simp add: wp_def DiscardConnection_def go_update_def close_conn_def)
    next
      case False
      have "wp (ReleaseConnectionToPool net (IfConn (Some c))) (\<lambda>r' q. handed q = handed p2) p2"
        by (rule wp_mono [OF ReleaseConnectionToPool_inv [OF inv2]]) (auto simp: pool_frame_def)
      with False show ?thesis
        by (auto intro!: wpI dest: wpD Release_no_panic)
    qed
    let ?body = "\<lambda>p. let (r, b, p') = publish_on_connection net conn key msg ex p
       in go_defer (if b then DiscardConnection (IfConn conn)
                    else ReleaseConnectionToPool net (IfConn conn)) (\<lambda>p. (r, p)) p'"
    have spec': "wp ?body (\<lambda>r' q. handed q = handed p2 \<and> r' \<noteq> Inl (Panic m)) p1"
      unfolding c(1) wp_finish_publish [OF att]
      by (rule wp_mono [OF fin]) (use spec(3) in \<open>auto split: sum.splits fault.splits\<close>)
    have "?body p1 = (r, p')"
      using run get Inr by (simp add: AmqpPublishWithConfirm_def go_bind_def)
    from wpD [OF spec' this] have "handed p' = handed p2" "r \<noteq> Inl (Panic m)" by simp_all
    with fr publish_on_connection_handed [OF att] show ?thesis by auto
  qed
qed

subsection \<open>Properties\<close>

lemma borrowed_not_idle: "pool_inv (c # out) p \<Longrightarrow> Some c \<notin> set (ConnectionPool p)"
  using imageI [of "Some c" "set (ConnectionPool p)" the] by (auto simp: pool_inv_def idle_def)

text \<open>
  C1. However many borrowers, watchers and connection failures interleave, a connection is
  held by one party only: the connections in the pool and those lent out are all different,
  and the pool holds no nil connection. A connection that is handed out is open at that
  moment, was not in the pool any more and was not lent to anyone.
\<close>

theorem pool_exclusive:
  assumes "pool_reach net conf (p, out)"
  shows "None \<notin> set (ConnectionPool p) \<and> distinct (map the (ConnectionPool p) @ out) \<and>
    (case GetConnectionFromPool net p of
       (Inr i, p') \<Rightarrow> \<exists>c. i = IfConn (Some c) \<and> c \<notin> closed p' \<and> c \<notin> set out \<and>
          Some c \<notin> set (ConnectionPool p')
     | (Inl _, p') \<Rightarrow> True)"
proof -
  have inv: "pool_inv out p" using pool_reach_inv [OF assms] by simp
  have "wp (GetConnectionFromPool net) (\<lambda>r p'. case r of
       Inr i \<Rightarrow> \<exists>c. i = IfConn (Some c) \<and> c \<notin> closed p' \<and> c \<notin> set out \<and>
          Some c \<notin> set (ConnectionPool p')
     | Inl _ \<Rightarrow> True) p"
  proof (rule wp_mono [OF GetConnectionFromPool_inv [OF inv]])
    fix r p'
    assume "borrowed_post out p r p'"
    then show "case r of Inr i \<Rightarrow> \<exists>c. i = IfConn (Some c) \<and> c \<notin> closed p' \<and> c \<notin> set out \<and>
          Some c \<notin> set (ConnectionPool p') | Inl _ \<Rightarrow> True"
      by (cases r) (auto simp: borrowed_post_def dest: borrowed_not_idle)
  qed
  with inv show ?thesis
    by (auto simp: wp_def pool_inv_def idle_def split: prod.splits sum.splits)
qed

theorem pool_exclusive_witness:
  "distinct (map the (ConnectionPool lent_provider) @ [0])"
  using pool_exclusive [OF lent_reach] by simp

text \<open>
  C2. A publish returns nil exactly when the server has confirmed the message, and then it is
  confirmed once; on any error nothing is confirmed. The message is written to a channel at
  most once. The connection it used goes back: to the end of the pool after a confirmation,
  closed and out of the pool after an error; no other connection is lost either, none is lent
  out that was not before, no channel stays open, and there is no panic when the pool size is
  positive.
\<close>

theorem publish_confirmed_once:
  assumes "pool_inv out p" "amqpConf p = Some a" "1 \<le> sint (ConnectionPoolSize a)"
    and "AmqpPublishWithConfirm net key msg ex p = (r, p')"
  shows "confirmed p' = confirmed p @ (if r = Inr () then [(ex, key, msg)] else []) \<and>
    (handed p' = handed p \<or> handed p' = handed p @ [(ex, key, msg)]) \<and>
    (\<forall>c p1. GetAmqpConnection net p = (Inr (Some c), p1) \<longrightarrow>
       (if r = Inr () then ConnectionPool p' = ConnectionPool p1 @ [Some c]
        else c \<in> closed p' \<and> ConnectionPool p' = ConnectionPool p1)) \<and>
    nothing_lost out p out p' \<and>
    pool_inv out p' \<and> channels p' \<subseteq> channels p \<and> (\<forall>m. r \<noteq> Inl (Panic m))"
  using AmqpPublishWithConfirm_log [OF assms(4)] AmqpPublishWithConfirm_handed [OF assms]
    AmqpPublishWithConfirm_returns [OF assms(1,4)] wpD [OF AmqpPublishWithConfirm_inv [OF assms(1)] assms(4)]
  by blast

theorem publish_confirmed_once_witness:
  "confirmed (snd (AmqpPublishWithConfirm calm_net ''k'' sample_msg ''x'' lent_provider)) = [(''x'', ''k'', sample_msg)] \<and>
   nothing_lost [0] lent_provider [0] (snd (AmqpPublishWithConfirm calm_net ''k'' sample_msg ''x'' lent_provider))"
proof -
  have conf: "amqpConf lent_provider = Some sample_amqp" "confirmed lent_provider = []"
    by (simp_all add: lent_provider_eq pooled_provider_eq NewAmqpProvider_def)
  have "1 \<le> sint (ConnectionPoolSize sample_amqp)" by (simp add: sample_amqp_def)
  from publish_confirmed_once [OF lent_inv conf(1) this
      prod.collapse [symmetric, of "AmqpPublishWithConfirm calm_net ''k'' sample_msg ''x'' lent_provider"]]
  show ?thesis by (simp add: conf(2) calm_publish_lent)
qed

subsection \<open>Creating the pool\<close>

text \<open>
  C12. Creating the pool either installs exactly the configured number of connections, all
  different, open and watched, or fails with an error, leaves the pool alone, and every
  connection it dialled on the way is closed again. A size below one is rejected without
  dialling.
\<close>

theorem create_pool_all_or_nothing:
  assumes inv: "pool_inv out p" and conf: "amqpConf p = Some a"
    and run: "CreateConnectionPool net p = (r, p')"
  shows "case r of
     Inr _ \<Rightarrow> int (length (ConnectionPool p')) = sint (ConnectionPoolSize a) \<and>
       distinct (ConnectionPool p') \<and> None \<notin> set (ConnectionPool p') \<and>
       set (map the (ConnectionPool p')) \<inter> closed p' = {} \<and> set (ConnectionPool p') \<subseteq> watched p'
   | Inl e \<Rightarrow> (\<exists>err. e = Err err) \<and> ConnectionPool p' = ConnectionPool p \<and>
       (sint (ConnectionPoolSize a) < 1 \<longrightarrow> p' = p \<and> e = Err (ConfigErr ErrInvalidConfig)) \<and>
       (\<forall>t. tick p \<le> t \<and> t < tick p' \<and> dial net (dial_settings_of a) t = None \<longrightarrow> t \<in> closed p')"
proof (cases r)
  case (Inr u)
  with wpD [OF CreateConnectionPool_inv [OF inv] run] conf
  have 1: "pool_inv out p'" "int (length (ConnectionPool p')) = sint (ConnectionPoolSize a)"
    "set (idle p') \<inter> closed p' = {}" by auto
  have 2: "set (ConnectionPool p') \<subseteq> watched p'"
    using run Inr conf by (auto simp: CreateConnectionPool_def go_bind_def go_wrap_def go_fail_def
        go_update_def install_pool_eq split: if_splits sum.splits prod.splits fault.splits)
  from 1 2 Inr show ?thesis by (auto simp: pool_inv_def idle_def distinct_map)
next
  case (Inl e)
  show ?thesis
  proof (cases "sint (ConnectionPoolSize a) < 1")
    case True
    with Inl run conf show ?thesis by (auto simp: CreateConnectionPool_def go_fail_def)
  next
    case False
    obtain r0 p0 where d: "dial_loop net (nat (sint (ConnectionPoolSize a))) [] p = (r0, p0)" by fastforce
    with False run conf Inl obtain e0 where e0: "r0 = Inl e0" "p' = p0"
      and e: "e = (case e0 of Err e \<Rightarrow> Err (WrapErr ''CreateConnectionPool failed'' e) | Panic m \<Rightarrow> Panic m)"
      by (auto simp: CreateConnectionPool_def go_bind_def go_wrap_def go_update_def
          split: sum.splits fault.splits)
    from wpD [OF dial_loop_inv [OF inv] d] e0 have "ConnectionPool p0 = ConnectionPool p" "\<exists>err. e0 = Err err"
      by auto
    with e e0 Inl False dial_loop_closes [OF d [unfolded e0(1)] conf] show ?thesis by auto
  qed
qed

theorem create_pool_all_or_nothing_witness:
  "case CreateConnectionPool (net_down_from 1) (NewAmqpProvider (Some sample_amqp)) of
     (r, p') \<Rightarrow> (\<exists>e. r = Inl e) \<and> ConnectionPool p' = [] \<and> 0 \<in> closed p'"
proof -
  let ?p = "NewAmqpProvider (Some sample_amqp)"
  have inv: "pool_inv [] ?p" using pool_reach_inv [OF pool_reach.start] by simp
  have conf: "amqpConf ?p = Some sample_amqp" by (simp add: NewAmqpProvider_def)
  obtain r p' where run: "CreateConnectionPool (net_down_from 1) ?p = (r, p')" by fastforce
  then have "(\<exists>e. r = Inl e) \<and> tick p' = 2"
    by (auto simp: CreateConnectionPool_def NewAmqpProvider_def sample_defs go_bind_def go_wrap_def
        go_update_def install_pool_eq CreateConnection_def lib_call_def eval_nat_numeral close_open_eq)
  with create_pool_all_or_nothing [OF inv conf run] run show ?thesis
    by (auto simp: NewAmqpProvider_def net_down_from_def calm_net_def)
qed

subsection \<open>Taking turns\<close>

text \<open>One use of a connection: taken from the pool and given back.\<close>

definition use_once :: "amqp_net \<Rightarrow> provider \<Rightarrow> provider" where
  "use_once net p = (case GetConnectionFromPool net p of
     (Inr i, p') \<Rightarrow> snd (ReleaseConnectionToPool net i p')
   | (Inl _, p') \<Rightarrow> p')"

lemma open_member:
  assumes "None \<notin> set xs" "set (map the xs) \<inter> D = {}" "x \<in> set xs"
  obtains c where "x = Some c" "c \<notin> D"
  using assms imageI [of x "set xs" the] by (cases x) auto

lemma use_once_rotates:
  assumes "None \<notin> set (ConnectionPool p)" "ConnectionPool p \<noteq> []"
    and "set (map the (ConnectionPool p)) \<inter> closed p = {}"
  shows "use_once net p = p\<lparr>ConnectionPool := rotate1 (ConnectionPool p)\<rparr>"
proof -
  from assms(2) obtain x rest where x: "ConnectionPool p = x # rest" by (cases "ConnectionPool p") auto
  then obtain c where "x = Some c" "c \<notin> closed p"
    using open_member [OF assms(1,3), of x] by auto
  with x have "ConnectionPool p = Some c # rest" "c \<notin> closed p" by simp_all
  then show ?thesis
    by (simp add: use_once_def GetConnectionFromPool_def pop_connection_def go_seq_def go_bind_def
        go_return_def ReleaseConnectionToPool_def go_update_def)
qed

text \<open>
  C14. The pool is first in, first out: with all its connections open, the n-th borrower that
  gives its connection back before the next one comes gets connection n modulo the size of
  the pool, so each connection is used once per round and the pool is unchanged after a full
  round.
\<close>

theorem pool_round_robin:
  assumes ne: "ConnectionPool p \<noteq> []" "None \<notin> set (ConnectionPool p)"
    and open_: "set (map the (ConnectionPool p)) \<inter> closed p = {}"
  shows "(use_once net ^^ n) p = p\<lparr>ConnectionPool := rotate n (ConnectionPool p)\<rparr> \<and>
    fst (GetConnectionFromPool net ((use_once net ^^ n) p)) =
      Inr (IfConn (ConnectionPool p ! (n mod length (ConnectionPool p))))"
proof -
  have it: "(use_once net ^^ n) p = p\<lparr>ConnectionPool := rotate n (ConnectionPool p)\<rparr>"
  proof (induction n)
    case (Suc n)
    let ?q = "p\<lparr>ConnectionPool := rotate n (ConnectionPool p)\<rparr>"
    have "use_once net ?q = ?q\<lparr>ConnectionPool := rotate1 (ConnectionPool ?q)\<rparr>"
      by (rule use_once_rotates) (use assms in \<open>simp_all del: rotate_Suc\<close>)
    with Suc show ?case by simp
  qed simp
  let ?pool = "rotate n (ConnectionPool p)"
  have hd: "hd ?pool = ConnectionPool p ! (n mod length (ConnectionPool p))"
    using ne(1) by (simp add: hd_rotate_conv_nth)
  have "hd ?pool \<in> set (ConnectionPool p)"
    using ne(1) by (metis hd_in_set rotate_is_Nil_conv set_rotate)
  then obtain c where c: "hd ?pool = Some c" "c \<notin> closed p"
    using open_member [OF ne(2) open_] by metis
  obtain rest where "?pool = Some c # rest"
    using ne(1) c(1) by (metis list.collapse rotate_is_Nil_conv)
  then have "fst (GetConnectionFromPool net (p\<lparr>ConnectionPool := ?pool\<rparr>)) = Inr (IfConn (Some c))"
    using c(2) by (simp add: GetConnectionFromPool_def pop_connection_def go_seq_def go_bind_def go_return_def)
  with it hd c show ?thesis by simp
qed

theorem pool_round_robin_witness:
  "fst (GetConnectionFromPool calm_net ((use_once calm_net ^^ 5) pooled_provider)) = Inr (IfConn (Some 1))"
proof -
  have p: "ConnectionPool pooled_provider = [Some 0, Some 1]" "closed pooled_provider = {}"
    by (simp_all add: pooled_provider_eq NewAmqpProvider_def)
  have "fst (GetConnectionFromPool calm_net ((use_once calm_net ^^ 5) pooled_provider)) =
      Inr (IfConn (ConnectionPool pooled_provider ! (5 mod length (ConnectionPool pooled_provider))))"
    by (rule pool_round_robin [THEN conjunct2]) (simp_all add: p)
  moreover have "(5 :: nat) mod Suc (Suc 0) = Suc 0" by presburger
  ultimately show ?thesis by (simp add: p)
qed

subsection \<open>Replacing dead connections\<close>

lemma replace_first_nth:
  "distinct xs \<Longrightarrow> i < length xs \<Longrightarrow> replace_first (xs ! i) y xs = xs[i := y]"
  by (induction xs arbitrary: i) (auto simp: less_Suc_eq_0_disj nth_Cons')

text \<open>
  C15. When a watched connection of the pool fails, the watcher puts a new connection exactly
  in its place, watched in turn; no other place of the pool changes. If the dial fails the
  dead connection keeps its place, and a connection that is not in the pool is not replaced.
\<close>

theorem replace_in_place:
  assumes "pool_inv out p" "amqpConf p = Some a"
  shows "replaceDeadConnection net dead p =
    (if Some dead \<notin> set (ConnectionPool p) then p
     else if dial net (dial_settings_of a) (tick p) \<noteq> None then p\<lparr>tick := Suc (tick p)\<rparr>
     else p\<lparr>tick := Suc (tick p), watched := insert (Some (tick p)) (watched p),
       ConnectionPool := (ConnectionPool p)
         [(LEAST i. ConnectionPool p ! i = Some dead) := Some (tick p)]\<rparr>)"
proof (cases "Some dead \<in> set (ConnectionPool p)")
  case True
  then obtain i where i: "i < length (ConnectionPool p)" "ConnectionPool p ! i = Some dead"
    by (auto simp: in_set_conv_nth)
  have dist: "distinct (ConnectionPool p)"
    using assms(1) by (auto simp: pool_inv_def idle_def distinct_map)
  have "(LEAST i. ConnectionPool p ! i = Some dead) = i"
  proof (rule Least_equality)
    fix j assume "ConnectionPool p ! j = Some dead"
    then show "i \<le> j"
      using i nth_eq_iff_index_eq [OF dist, of j i] by (cases "j < i") auto
  qed (rule i(2))
  then have "replace_first (Some dead) (Some (tick p)) (ConnectionPool p) =
      (ConnectionPool p)[(LEAST i. ConnectionPool p ! i = Some dead) := Some (tick p)]"
    using replace_first_nth [OF dist i(1), of "Some (tick p)"] i(2) by simp
  with True assms(2) show ?thesis
    by (simp add: replaceDeadConnection_def CreateConnection_def lib_call_def watchConnection_def
        split: option.split)
qed (simp add: replaceDeadConnection_def)

theorem replace_in_place_witness:
  "ConnectionPool (replaceDeadConnection calm_net 1 (pooled_provider\<lparr>closed := {1}\<rparr>)) = [Some 0, Some 2]"
proof -
  let ?p = "pooled_provider\<lparr>closed := {1}\<rparr>"
  have p: "ConnectionPool ?p = [Some 0, Some 1]" "tick ?p = 2" "amqpConf ?p = Some sample_amqp"
    by (simp_all add: pooled_provider_eq NewAmqpProvider_def)
  have inv: "pool_inv [] ?p" using pooled_inv p by (auto simp: pool_inv_def idle_def)
  have "(LEAST i. [Some 0, Some (1 :: nat)] ! i = Some 1) = 1"
    by (rule Least_equality) (auto simp: nth_Cons' intro: leI)
  with replace_in_place [OF inv p(3), of calm_net 1] p(1,2) show ?thesis
    by (simp add: calm_net_def)
qed

text \<open>
  C16. Giving back a connection that has died puts a newly dialled connection in the pool, but
  the watcher that is started listens on the dead one: the new connection has no watcher, so
  its own failure will not be noticed by the pool.
\<close>

theorem release_dead_unwatched:
  assumes "pool_inv out p" "amqpConf p = Some a" "c \<in> set out" "c \<in> closed p"
    and "dial net (dial_settings_of a) (tick p) = None"
  shows "\<exists>p'. ReleaseConnectionToPool net (IfConn (Some c)) p = (Inr (), p') \<and>
    ConnectionPool p' = ConnectionPool p @ [Some (tick p)] \<and> tick p \<notin> closed p' \<and>
    watched p' = insert (Some c) (watched p) \<and> Some (tick p) \<notin> watched p'"
proof -
  have "c < tick p" "Some (tick p) \<notin> watched p" "tick p \<notin> closed p"
    using assms(1,3) by (auto simp: pool_inv_def)
  with assms show ?thesis
    by (auto simp: ReleaseConnectionToPool_def CreateConnection_def lib_call_def go_bind_def
        go_wrap_def go_seq_def go_update_def watchConnection_def)
qed

theorem release_dead_unwatched_witness:
  "\<exists>p'. ReleaseConnectionToPool calm_net (IfConn (Some 0)) (lent_provider\<lparr>closed := {0}\<rparr>) = (Inr (), p') \<and>
    ConnectionPool p' = [Some 1, Some 2] \<and> Some 2 \<notin> watched p'"
proof -
  let ?p = "lent_provider\<lparr>closed := {0}\<rparr>"
  have p: "ConnectionPool ?p = [Some 1]" "tick ?p = 2" "amqpConf ?p = Some sample_amqp"
    by (simp_all add: lent_provider_eq pooled_provider_eq NewAmqpProvider_def)
  have inv: "pool_inv [0] ?p" using lent_inv p by (auto simp: pool_inv_def idle_def)
  have dial: "dial calm_net (dial_settings_of sample_amqp) (tick ?p) = None"
    by (simp add: calm_net_def)
  from release_dead_unwatched [OF inv p(3) _ _ dial, of 0] p(1,2) show ?thesis by auto
qed

subsection \<open>The pool under concurrent borrowers\<close>

lemma calm_dial_loop:
  "amqpConf p = Some a \<Longrightarrow> dial_loop calm_net n acc p =
     (Inr (acc @ [tick p ..< tick p + n]), p\<lparr>tick := tick p + n\<rparr>)"
proof (induction n arbitrary: acc p)
  case (Suc n)
  then show ?case
    by (simp add: CreateConnection_def lib_call_def calm_net_def upt_conv_Cons)
qed simp

lemma calm_get:
  assumes conf: "amqpConf p = Some a" and size: "1 \<le> sint (ConnectionPoolSize a)"
    and inv: "pool_inv out p" and open_: "closed p = {}"
  shows "\<exists>c p'. GetConnectionFromPool calm_net p = (Inr (IfConn (Some c)), p') \<and>
    closed p' = {} \<and> amqpConf p' = Some a"
proof -
  obtain q where q: "(if ConnectionPool p = [] then refillConnectionPool calm_net p else go_return () p) = (Inr (), q)"
    "ConnectionPool q \<noteq> []" "closed q = {}" "amqpConf q = Some a" "None \<notin> set (ConnectionPool q)"
  proof (cases "ConnectionPool p = []")
    case True
    with conf size open_ that show ?thesis
      by (auto simp: refillConnectionPool_def map_filter_def go_bind_def go_wrap_def go_update_def
          calm_dial_loop install_pool_eq)
  next
    case False
    with conf open_ inv that [of p] show ?thesis by (simp add: go_return_def pool_inv_def)
  qed
  from q(2,5) obtain c rest where "ConnectionPool q = Some c # rest"
    by (cases "ConnectionPool q"; cases "hd (ConnectionPool q)") auto
  with q show ?thesis
    by (auto simp: GetConnectionFromPool_def go_seq_def go_bind_def pop_connection_def go_return_def)
qed

lemma calm_lend:
  assumes size: "1 \<le> sint (ConnectionPoolSize a)"
  shows "\<exists>p out. pool_reach calm_net (Some a) (p, out) \<and> length out = n \<and> closed p = {} \<and>
    amqpConf p = Some a"
proof (induction n)
  case 0
  have "pool_reach calm_net (Some a) (NewAmqpProvider (Some a), [])" by (rule pool_reach.start)
  then show ?case by (fastforce simp: NewAmqpProvider_def)
next
  case (Suc n)
  then obtain p out where p: "pool_reach calm_net (Some a) (p, out)" "length out = n" "closed p = {}"
    "amqpConf p = Some a" by blast
  with pool_reach_inv [OF p(1)] calm_get [OF p(4) size, of out] obtain c p' where
    g: "GetConnectionFromPool calm_net p = (Inr (IfConn (Some c)), p')" "closed p' = {}" "amqpConf p' = Some a"
    by auto
  from pool_reach.step [OF p(1) pool_step.get [OF g(1)]] g p(2) show ?case by fastforce
qed

lemma calm_return:
  assumes "pool_reach calm_net conf (p, out)" "closed p = {}"
  shows "\<exists>p'. pool_reach calm_net conf (p', []) \<and>
    length (ConnectionPool p') = length (ConnectionPool p) + length out"
  using assms
proof (induction out arbitrary: p)
  case (Cons c out)
  let ?p = "p\<lparr>ConnectionPool := ConnectionPool p @ [Some c]\<rparr>"
  have "ReleaseConnectionToPool calm_net (IfConn (Some c)) p = (Inr (), ?p)"
    using Cons.prems(2) by (simp add: ReleaseConnectionToPool_def go_update_def)
  from pool_step.release [OF _ this, of "c # out"] have "pool_step calm_net (p, c # out) (?p, out)"
    by simp
  from Cons.IH [OF pool_reach.step [OF Cons.prems(1) this]] Cons.prems(2) show ?case by auto
qed auto

text \<open>
  C17. The configured pool size does not bound the pool. A borrower that finds the pool empty
  refills it to its full size while the borrowed connections are still out, and all of them
  come back later: on a healthy network, with enough simultaneous borrowers, the idle pool
  of any size \<open>n\<close> can be reached, with no connection lent out.
\<close>

theorem pool_size_unbounded:
  assumes "1 \<le> sint (ConnectionPoolSize a)"
  shows "\<exists>p. pool_reach calm_net (Some a) (p, []) \<and> n \<le> length (ConnectionPool p)"
proof -
  obtain p out where p: "pool_reach calm_net (Some a) (p, out)" "length out = n" "closed p = {}"
    using calm_lend [OF assms, of n] by blast
  from calm_return [OF p(1,3)] p(2) show ?thesis by auto
qed

theorem pool_size_unbounded_witness:
  "ConnectionPoolSize sample_amqp = 2 \<and>
   (\<exists>p. pool_reach calm_net (Some sample_amqp) (p, []) \<and> 1000 \<le> length (ConnectionPool p))"
  using pool_size_unbounded [of sample_amqp 1000] by (simp add: sample_amqp_def)

subsection \<open>Dialling\<close>

text \<open>
  C18. The heartbeat and the dial timeout are always positive durations, whatever the
  configuration says, wrap-around included; a configured number of seconds from 1 to
  9223372036 (the most a duration holds) is used exactly, and zero or a negative number down
  to that limit gives the defaults of 10 and 5 seconds.
\<close>

theorem dial_settings_positive:
  "0 < sint (DialHeartbeat (dial_settings_of a)) \<and> 0 < sint (DialTimeout (dial_settings_of a)) \<and>
   (\<bar>sint (HeartBeatInterval a)\<bar> \<le> 9223372036 \<longrightarrow> sint (DialHeartbeat (dial_settings_of a)) =
      (if sint (HeartBeatInterval a) \<le> 0 then 10 else sint (HeartBeatInterval a)) * 1000000000) \<and>
   (\<bar>sint (ConnectionTimeout a)\<bar> \<le> 9223372036 \<longrightarrow> sint (DialTimeout (dial_settings_of a)) =
      (if sint (ConnectionTimeout a) \<le> 0 then 5 else sint (ConnectionTimeout a)) * 1000000000)"
proof -
  have s: "sint (seconds n) = sint n * 1000000000" if "\<bar>sint n\<bar> \<le> 9223372036" for n
    using that by (simp add: seconds_def sint_seconds)
  have "sint (seconds 10) = 10000000000" "sint (seconds 5) = 5000000000"
    by (simp_all add: seconds_def)
  then show ?thesis
    using s [of "HeartBeatInterval a"] s [of "ConnectionTimeout a"]
    by (auto simp: dial_settings_of_def Let_def)
qed

theorem dial_settings_positive_witness:
  "sint (DialHeartbeat (dial_settings_of sample_amqp)) = 10000000000 \<and>
   sint (DialTimeout (dial_settings_of (sample_amqp\<lparr>ConnectionTimeout := 0\<rparr>))) = 5000000000"
  using dial_settings_positive [of sample_amqp] dial_settings_positive [of "sample_amqp\<lparr>ConnectionTimeout := 0\<rparr>"]
  by (simp add: sample_amqp_def)

end
