(* ===== verification/Broker_Properties.thy ===== *)
theory Broker_Properties
  imports Sample_Inputs
begin

section \<open>Properties of the AMQP broker\<close>

text \<open>
  What the broker publishes for a signature, when it expires, the queues and bindings it
  declares at start-up, and where a direct exchange with those bindings takes a message.
\<close>

subsection \<open>Publishing\<close>

text \<open>
  C19. A publish that returns nil has had exactly one message confirmed: persistent, on the
  configured exchange, with the priority of the signature, with the raw arguments as body and
  the metadata as headers when there are raw arguments, and the JSON of the whole signature
  and no headers otherwise. It expires after the time to live in milliseconds, written in
  decimal, if that is positive. Only the routing key of the signature may change: an empty one
  becomes the default key, and only when there is no delay.
\<close>

theorem publish_content:
  assumes "Publish (amqp_provider net) codec b now sig p = (Inr (), sig', p')"
  shows "\<exists>body headers. prepareMessageBodyAndHeaders codec sig = Inr (body, headers) \<and>
     (case RawArgs sig of
        Some r \<Rightarrow> if r \<noteq> [] \<and> r \<noteq> ''null'' then body = r \<and> headers = buildHeadersFromSignature sig
                 else json_marshal codec sig = Inr body \<and> headers = Map.empty
      | None \<Rightarrow> json_marshal codec sig = Inr body \<and> headers = Map.empty) \<and>
     sig' = sig\<lparr>RoutingKey := (if RoutingKey sig = [] \<and> ttl_ms now sig = 0 then getRoutingKey b
                                else RoutingKey sig)\<rparr> \<and>
     confirmed p' = confirmed p @ [(Exchange (bamqp b), RoutingKey sig',
       \<lparr>ContentType = ''application/json'', PubPriority = Priority sig, PubBody = body,
        DeliveryMode = Persistent, PubHeaders = headers,
        Expiration = (if 0 < ttl_ms now sig then itoa (ttl_ms now sig) else [])\<rparr>)]"
proof -
  from amqp.pub_confirmed [OF assms] obtain m where
    m: "published_message codec b now sig = Inr m" "confirmed p' = confirmed p @ [m]" by blast
  from assms m(1) have s: "sig' = published_signature b now sig"
    by (auto simp: Publish_eq split: sum.splits prod.splits)
  have "sig\<lparr>RoutingKey := RoutingKey sig\<rparr> = sig" by simp
  with m s ttl_ms_nonneg [of now sig] show ?thesis
    by (auto simp: published_message_def published_signature_def prepareMessageBodyAndHeaders_def
        sends_raw_def getExchangeName_def sint_getTaskTTL split: sum.splits prod.splits if_splits option.splits)
qed

theorem publish_content_witness:
  "case Publish (amqp_provider calm_net) no_codec sample_broker 0 raw_signature pooled_provider of
     (r, sig', p') \<Rightarrow> r = Inr () \<and> sig' = raw_signature\<lparr>RoutingKey := ''paota_task_binding_key''\<rparr> \<and>
       confirmed p' = [(''paota_task_exchange'', ''paota_task_binding_key'',
         \<lparr>ContentType = ''application/json'', PubPriority = 0, PubBody = ''{}'',
          DeliveryMode = Persistent, PubHeaders = buildHeadersFromSignature raw_signature,
          Expiration = []\<rparr>)]"
proof -
  obtain r sig' p' where
    run: "Publish (amqp_provider calm_net) no_codec sample_broker 0 raw_signature pooled_provider = (r, sig', p')"
    by (metis prod_cases3)
  have msg: "\<exists>m. published_message no_codec sample_broker 0 raw_signature = Inr m"
    by (simp add: published_message_def prepareMessageBodyAndHeaders_def sends_raw_def sample_defs)
  then have r: "r = Inr ()" using calm_Publish(1) run by fastforce
  from publish_content [OF run [unfolded r]] show ?thesis
    unfolding run prod.case r
    by (auto simp: pooled_fields ttl_ms_def getRoutingKey_def isDirectExchange_def
        prepareMessageBodyAndHeaders_def sends_raw_def sample_defs)
qed

subsection \<open>The time to live\<close>

text \<open>
  C20. A delayed message becomes due on time. If the ETA is within the range of a duration
  (292 years) and the priority rule does not apply, the time to live is never negative, and it
  ends at most one millisecond before the ETA and never after it; the text of the expiration
  reads back as that number. Without an ETA, or when the ETA has passed, there is no delay.
\<close>

theorem ttl_on_time:
  assumes rule: "\<not> (1 < Priority sig \<and> TaskTimeOut sig \<noteq> 0 \<and> CreatedAt sig \<noteq> None)"
  shows "case ETA sig of
     None \<Rightarrow> getTaskTTL now sig = 0
   | Some eta \<Rightarrow>
       (eta \<le> now \<longrightarrow> getTaskTTL now sig = 0) \<and>
       (now < eta \<and> eta - now < 2 ^ 63 \<longrightarrow>
          0 \<le> sint (getTaskTTL now sig) \<and>
          now + sint (getTaskTTL now sig) * 1000000 \<le> eta \<and>
          eta < now + (sint (getTaskTTL now sig) + 1) * 1000000 \<and>
          int (atou (itoa (sint (getTaskTTL now sig)))) = sint (getTaskTTL now sig))"
proof (cases "ETA sig")
  case (Some eta)
  have num: "int (atou (itoa i)) = i" if "0 \<le> i" for i
    using that by (simp add: itoa_def)
  show ?thesis
  proof (cases "now < eta \<and> eta - now < 2 ^ 63")
    case True
    with rule Some have "sint (getTaskTTL now sig) = (eta - now) div 1000000"
      by (auto simp: sint_getTaskTTL ttl_ms_def)
    moreover have "0 \<le> (eta - now) div 1000000"
      using True by (simp add: pos_imp_zdiv_nonneg_iff)
    moreover have "(eta - now) div 1000000 * 1000000 \<le> eta - now"
      "eta - now < ((eta - now) div 1000000 + 1) * 1000000"
      by (simp_all add: algebra_simps)
    ultimately show ?thesis using True Some num by auto
  next
    case False
    then show ?thesis using rule Some by (auto simp: getTaskTTL_def)
  qed
qed (simp add: getTaskTTL_def)

theorem ttl_on_time_witness:
  "sint (getTaskTTL 0 (raw_signature\<lparr>ETA := Some 2500000000\<rparr>)) = 2500"
proof -
  let ?s = "raw_signature\<lparr>ETA := Some 2500000000\<rparr>"
  have "\<not> (1 < Priority ?s \<and> TaskTimeOut ?s \<noteq> 0 \<and> CreatedAt ?s \<noteq> None)"
    by (simp add: raw_signature_def zero_signature_def)
  from ttl_on_time [OF this, of 0] show ?thesis by simp
qed

subsection \<open>The declared topology\<close>

text \<open>
  The queues that \<open>cs\<close> binds to the exchange \<open>ex\<close> under exactly the key \<open>key\<close>: those to
  which a direct exchange delivers a message published with that key.
\<close>

fun bound_queue :: "string \<Rightarrow> string \<Rightarrow> channel_call \<Rightarrow> string option" where
  "bound_queue ex key (QueueBind q k e nowait) = (if k = key \<and> e = ex then Some q else None)"
| "bound_queue ex key _ = None"

definition queues_for :: "channel_call list \<Rightarrow> string \<Rightarrow> string \<Rightarrow> string set" where
  "queues_for cs ex key = set (List.map_filter (bound_queue ex key) cs)"

lemma queues_for_simps [simp]:
  "queues_for [] ex key = {}"
  "queues_for (c # cs) ex key =
     (case bound_queue ex key c of None \<Rightarrow> queues_for cs ex key | Some q \<Rightarrow> insert q (queues_for cs ex key))"
  "queues_for (cs @ ds) ex key = queues_for cs ex key \<union> queues_for ds ex key"
  by (auto simp: queues_for_def map_filter_def split: option.split)

lemma queues_for_topology:
  "queues_for (topology_calls b) (Exchange (bamqp b)) key =
     (if key = BindingKey (bamqp b) then {getTaskQueue b} else {}) \<union>
     (if key = getDelayedQueue b then {getDelayedQueue b} else {}) \<union>
     (if key = getFailedQueue b \<and> key \<noteq> [] then {getFailedQueue b} else {}) \<union>
     (if key = getTimeoutQueue b \<and> key \<noteq> [] then {getTimeoutQueue b} else {})"
  by (auto simp: topology_calls_def extra_queue_calls_def getDelayedQueueDLX_def)

text \<open>The names a configuration gives to the keys and queues do not collide.\<close>

definition keys_separate :: "amqp_broker \<Rightarrow> bool" where
  "keys_separate b \<longleftrightarrow>
     BindingKey (bamqp b) \<notin> {getDelayedQueue b, getFailedQueue b, getTimeoutQueue b} \<and>
     getDelayedQueue b \<notin> {getFailedQueue b, getTimeoutQueue b}"

text \<open>
  C21. After a successful start-up on a direct exchange with a binding key, every message
  the program sends has exactly one queue to go to: the default key leads to the task queue,
  the delayed, failed and timeout queues are reached by their names, and what expires in the
  delayed queue is dead-lettered on the same exchange with a key that leads back to the task
  queue.
\<close>

theorem topology_routes:
  assumes "setupExchangeQueueBinding (amqp_provider net) b p = (Inr (), p')" "calls p = []"
    and "isDirectExchange b" "BindingKey (bamqp b) \<noteq> []" "keys_separate b"
  shows "queues_for (calls p') (getExchangeName b) (getRoutingKey b) = {TaskQueueName (bconfig b)} \<and>
    queues_for (calls p') (getExchangeName b) (DelayedQueue (bamqp b)) = {DelayedQueue (bamqp b)} \<and>
    (\<forall>q \<in> {FailedQueue (bamqp b), TimeoutQueue (bamqp b)} - {[]}.
       queues_for (calls p') (getExchangeName b) q = {q}) \<and>
    (\<exists>args ex key. QueueDeclare (DelayedQueue (bamqp b)) True False False False args \<in> set (calls p') \<and>
       args ''x-dead-letter-exchange'' = Some (VString ex) \<and>
       args ''x-dead-letter-routing-key'' = Some (VString key) \<and>
       queues_for (calls p') ex key = {TaskQueueName (bconfig b)})"
proof -
  have calls: "calls p' = topology_calls b"
    using topo.setup_makes_topology [of b net] assms(1,2) by (auto simp: topo.makes_def)
  have key: "getRoutingKey b = BindingKey (bamqp b)"
    using assms(3,4) by (simp add: getRoutingKey_def)
  note names = getExchangeName_def getDelayedQueue_def getFailedQueue_def getTimeoutQueue_def
    getTaskQueue_def getDelayedQueueDLX_def
  have decl: "QueueDeclare (DelayedQueue (bamqp b)) True False False False (delayed_queue_args b)
      \<in> set (calls p')"
    by (simp add: calls topology_calls_def names)
  have args: "delayed_queue_args b ''x-dead-letter-exchange'' = Some (VString (Exchange (bamqp b)))"
    "delayed_queue_args b ''x-dead-letter-routing-key'' = Some (VString (getRoutingKey b))"
    by (simp_all add: delayed_queue_args_def names)
  have task: "queues_for (calls p') (Exchange (bamqp b)) (getRoutingKey b) = {TaskQueueName (bconfig b)}"
    using assms(5) by (auto simp: calls queues_for_topology key keys_separate_def names)
  have "queues_for (calls p') (Exchange (bamqp b)) (DelayedQueue (bamqp b)) = {DelayedQueue (bamqp b)}"
    "\<forall>q \<in> {FailedQueue (bamqp b), TimeoutQueue (bamqp b)} - {[]}.
       queues_for (calls p') (Exchange (bamqp b)) q = {q}"
    using assms(5) by (auto simp: calls queues_for_topology keys_separate_def names)
  with decl args task show ?thesis
    unfolding getExchangeName_def by blast
qed

lemma calm_call: "call_on_channel calm_net c p = (Inr (), p\<lparr>tick := Suc (tick p), calls := calls p @ [c]\<rparr>)"
  by (simp add: call_on_channel_def lib_call_def go_seq_def go_bind_def go_update_def calm_fields)

lemma calm_setup:
  "fst (setupExchangeQueueBinding (amqp_provider calm_net) b pooled_provider) = Inr ()"
  by (simp add: setupExchangeQueueBinding_def getConnection_def amqp_provider_def declare_topology_def
      declare_extra_queue_def DeclareExchange_def DeclareQueue_def QueueExchangeBind_def calm_call
      publish_unfold calm_fields pooled_provider_eq NewAmqpProvider_def)

theorem topology_routes_witness:
  "queues_for (calls (snd (setupExchangeQueueBinding (amqp_provider calm_net) sample_broker pooled_provider)))
     ''paota_task_exchange'' ''paota_task_binding_key'' = {''paota_task_queue''}"
proof -
  obtain p' where run:
    "setupExchangeQueueBinding (amqp_provider calm_net) sample_broker pooled_provider = (Inr (), p')"
    using calm_setup by (metis prod.collapse)
  have b: "isDirectExchange sample_broker" "BindingKey (bamqp sample_broker) \<noteq> []" "keys_separate sample_broker"
    by (simp_all add: isDirectExchange_def keys_separate_def getDelayedQueue_def getFailedQueue_def
        getTimeoutQueue_def sample_broker_def sample_amqp_def)
  from topology_routes [OF run pooled_fields(3) b, THEN conjunct1] run show ?thesis
    by (simp add: getExchangeName_def getRoutingKey_def isDirectExchange_def sample_broker_def
        sample_amqp_def sample_config_def)
qed

text \<open>
  C22. With an empty binding key the default route is lost on a direct exchange: tasks
  without a routing key, and what expires in the delayed queue, are published under the name
  of the task queue, while the task queue is bound under the empty key. No queue is bound
  under the key used, so the server drops the message although it confirms it.
\<close>

theorem empty_binding_key_unroutable:
  assumes "BindingKey (bamqp b) = []"
    and "TaskQueueName (bconfig b) \<notin>
      {[], DelayedQueue (bamqp b), FailedQueue (bamqp b), TimeoutQueue (bamqp b)}"
    and "setupExchangeQueueBinding (amqp_provider net) b p = (Inr (), p')" "calls p = []"
    and "Publish (amqp_provider net') codec b now sig q = (Inr (), sig', q')"
    and "RoutingKey sig = []" "ETA sig = None"
  shows "\<exists>msg. confirmed q' = confirmed q @ [(getExchangeName b, TaskQueueName (bconfig b), msg)] \<and>
    queues_for (calls p') (getExchangeName b) (TaskQueueName (bconfig b)) = {} \<and>
    delayed_queue_args b ''x-dead-letter-routing-key'' = Some (VString (TaskQueueName (bconfig b)))"
proof -
  have calls: "calls p' = topology_calls b"
    using topo.setup_makes_topology [of b net] assms(3,4) by (auto simp: topo.makes_def)
  obtain m where m: "published_message codec b now sig = Inr m" "confirmed q' = confirmed q @ [m]"
    using amqp.pub_confirmed [OF assms(5)] by blast
  have "getRoutingKey b = TaskQueueName (bconfig b)"
    using assms(1) by (simp add: getRoutingKey_def getTaskQueue_def)
  moreover from this m assms(6,7) have "\<exists>msg. m = (getExchangeName b, TaskQueueName (bconfig b), msg)"
    by (auto simp: published_message_def published_signature_def getTaskTTL_def split: sum.splits)
  moreover have "queues_for (calls p') (getExchangeName b) (TaskQueueName (bconfig b)) = {}"
    using assms(1,2) by (simp add: calls queues_for_topology getExchangeName_def getDelayedQueue_def
        getFailedQueue_def getTimeoutQueue_def)
  ultimately show ?thesis using m(2) by (auto simp: delayed_queue_args_def)
qed

definition keyless_broker :: amqp_broker where
  "keyless_broker = \<lparr>bconfig = sample_config, bamqp = sample_amqp\<lparr>BindingKey := []\<rparr>\<rparr>"

theorem empty_binding_key_unroutable_witness:
  "\<exists>p'. setupExchangeQueueBinding (amqp_provider calm_net) keyless_broker pooled_provider = (Inr (), p') \<and>
     queues_for (calls p') ''paota_task_exchange'' ''paota_task_queue'' = {}"
proof -
  obtain p' where run:
    "setupExchangeQueueBinding (amqp_provider calm_net) keyless_broker pooled_provider = (Inr (), p')"
    using calm_setup by (metis prod.collapse)
  obtain m where m: "published_message no_codec keyless_broker 0 raw_signature = Inr m"
    by (simp add: published_message_def prepareMessageBodyAndHeaders_def sends_raw_def sample_defs)
  obtain sig' q' where pub:
    "Publish (amqp_provider calm_net) no_codec keyless_broker 0 raw_signature pooled_provider = (Inr (), sig', q')"
    using calm_Publish(1) [OF m] by (metis prod_cases3 fst_conv)
  have b: "BindingKey (bamqp keyless_broker) = []" "TaskQueueName (bconfig keyless_broker) \<notin>
      {[], DelayedQueue (bamqp keyless_broker), FailedQueue (bamqp keyless_broker),
       TimeoutQueue (bamqp keyless_broker)}"
    by (simp_all add: keyless_broker_def sample_config_def sample_amqp_def)
  have s: "RoutingKey raw_signature = []" "ETA raw_signature = None"
    by (simp_all add: raw_signature_def zero_signature_def)
  have "getExchangeName keyless_broker = ''paota_task_exchange''"
    "TaskQueueName (bconfig keyless_broker) = ''paota_task_queue''"
    by (simp_all add: getExchangeName_def keyless_broker_def sample_config_def sample_amqp_def)
  with empty_binding_key_unroutable [OF b run pooled_fields(3) pub s] run show ?thesis by auto
qed

text \<open>
  C23. On a direct exchange whose configuration names a binding key and a delayed queue, a
  delayed task without a routing key is lost although its publish returns nil: an ETA at
  least one millisecond ahead suppresses the default key that the documentation promises, the
  message is confirmed under the empty key, and the calls of the start-up have bound no queue
  under that key.
\<close>

theorem eta_without_key_lost:
  assumes "setupExchangeQueueBinding (amqp_provider net) b p = (Inr (), p')" "calls p = []"
    and "BindingKey (bamqp b) \<noteq> []" "DelayedQueue (bamqp b) \<noteq> []"
    and "Publish (amqp_provider net') codec b now sig q = (Inr (), sig', q')"
    and "ETA sig = Some eta" "RoutingKey sig = []" "1000000 \<le> eta - now"
  shows "\<exists>msg. confirmed q' = confirmed q @ [(getExchangeName b, [], msg)] \<and>
    queues_for (calls p') (getExchangeName b) [] = {}"
proof -
  have calls: "calls p' = topology_calls b"
    using topo.setup_makes_topology [of b net] assms(1,2) by (auto simp: topo.makes_def)
  obtain m where m: "published_message codec b now sig = Inr m" "confirmed q' = confirmed q @ [m]"
    using amqp.pub_confirmed [OF assms(5)] by blast
  have "1000000 \<le> min (2 ^ 63 - 1) (eta - now)" using assms(8) by simp
  then have "0 < min (2 ^ 63 - 1) (eta - now) div 1000000"
    by (simp only: pos_imp_zdiv_pos_iff [of 1000000])
  with assms(6,8) have "0 < ttl_ms now sig" by (auto simp: ttl_ms_def)
  with assms(7) m(1) have "\<exists>msg. m = (getExchangeName b, [], msg)"
    by (auto simp: published_message_def published_signature_def sint_getTaskTTL split: sum.splits)
  with m(2) assms(3,4) show ?thesis
    by (auto simp: calls queues_for_topology getExchangeName_def getDelayedQueue_def)
qed

theorem eta_without_key_lost_witness:
  "\<exists>p' sig' q' msg. setupExchangeQueueBinding (amqp_provider calm_net) sample_broker pooled_provider = (Inr (), p') \<and>
     queues_for (calls p') ''paota_task_exchange'' [] = {} \<and>
     Publish (amqp_provider calm_net) no_codec sample_broker 0
       (raw_signature\<lparr>ETA := Some 5000000000\<rparr>) pooled_provider = (Inr (), sig', q') \<and>
     confirmed q' = [(''paota_task_exchange'', [], msg)]"
proof -
  let ?s = "raw_signature\<lparr>ETA := Some 5000000000\<rparr>"
  obtain p' where run:
    "setupExchangeQueueBinding (amqp_provider calm_net) sample_broker pooled_provider = (Inr (), p')"
    using calm_setup by (metis prod.collapse)
  obtain m where m: "published_message no_codec sample_broker 0 ?s = Inr m"
    by (simp add: published_message_def prepareMessageBodyAndHeaders_def sends_raw_def sample_defs)
  obtain sig' q' where pub:
    "Publish (amqp_provider calm_net) no_codec sample_broker 0 ?s pooled_provider = (Inr (), sig', q')"
    using calm_Publish(1) [OF m] by (metis prod_cases3 fst_conv)
  have b: "BindingKey (bamqp sample_broker) \<noteq> []" "DelayedQueue (bamqp sample_broker) \<noteq> []"
    by (simp_all add: sample_defs)
  have "RoutingKey ?s = []" "getExchangeName sample_broker = ''paota_task_exchange''"
    by (simp_all add: getExchangeName_def sample_defs)
  with eta_without_key_lost [OF run pooled_fields(3) b pub, of 5000000000] run pub pooled_fields(2)
  show ?thesis by auto
qed

subsection \<open>Start-up\<close>

text \<open>What the start-up declarations leave alone.\<close>

abbreviation pool_is :: "conn option list \<times> conn set \<times> (chan \<times> conn) set \<Rightarrow> provider \<Rightarrow> bool" where
  "pool_is P p \<equiv> (ConnectionPool p, closed p, channels p) = P"

lemma keeps_pool_call: "keeps (pool_is P) (call_on_channel net c)"
  unfolding call_on_channel_def
  by (intro keeps_seq) (auto intro!: keepsI simp: wp_simps split: option.split)

lemma keeps_pool_topology: "keeps (pool_is P) (declare_topology (amqp_provider net) b ch)"
  by (auto simp: declare_topology_def declare_extra_queue_def amqp_provider_def DeclareExchange_def
      DeclareQueue_def QueueExchangeBind_def keeps_pool_call keeps_return intro!: keeps_seq)

lemma wp_CloseAmqpChannel:
  "wp (CloseAmqpChannel net ch) (\<lambda>r p'. ConnectionPool p' = ConnectionPool p \<and> closed p' = closed p \<and>
     channels p' = {x \<in> channels p. fst x \<noteq> ch} \<and> (\<forall>m. r \<noteq> Inl (Panic m))) p"
  by (simp add: CloseAmqpChannel_def wp_simps split: option.split)

text \<open>The start-up takes one connection, and gives it back with its channel closed.\<close>

lemma setup_pool:
  assumes pool: "ConnectionPool p = Some c # rest" "c \<notin> closed p"
    and chans: "\<forall>x \<in> channels p. fst x < tick p"
  shows "wp (setupExchangeQueueBinding (amqp_provider net) b) (\<lambda>r p'.
     ConnectionPool p' = rest @ [Some c] \<and> closed p' = closed p \<and> channels p' = channels p) p"
proof -
  let ?P = "\<lambda>(q :: provider). ConnectionPool q = rest \<and> closed q = closed p \<and> channels q = channels p"
  let ?body = "go_bind (CreateAmqpChannel net (Some c) False) (\<lambda>(channel, _).
    go_defer (CloseAmqpChannel net channel) (declare_topology (amqp_provider net) b channel))"
  have body: "wp ?body (\<lambda>r. ?P) q" if q: "?P q" "tick q = tick p" for q
  proof (cases "open_channel net (tick p)")
    case (Some e)
    with q show ?thesis by (simp add: CreateAmqpChannel_def wp_simps)
  next
    case None
    let ?ch = "tick p"
    let ?q = "q\<lparr>tick := Suc ?ch, channels := insert (?ch, c) (channels q)\<rparr>"
    have "wp (declare_topology (amqp_provider net) b ?ch)
        (\<lambda>_. pool_is (rest, closed p, insert (?ch, c) (channels p))) ?q"
      by (rule keeps_wp [OF keeps_pool_topology]) (use q in simp)
    then have "wp (go_defer (CloseAmqpChannel net ?ch) (declare_topology (amqp_provider net) b ?ch)) (\<lambda>r. ?P) ?q"
      unfolding wp_defer
      by (rule wp_mono) (rule wp_mono [OF wp_CloseAmqpChannel], use chans in \<open>auto\<close>)
    with None q show ?thesis by (simp add: CreateAmqpChannel_def wp_simps)
  qed
  have rel: "wp (ReleaseConnectionToPool net (IfConn (Some c))) (\<lambda>r p'.
      ConnectionPool p' = rest @ [Some c] \<and> closed p' = closed p \<and> channels p' = channels p) q"
    if "?P q" for q
    using that pool(2) by (simp add: wp_def ReleaseConnectionToPool_def go_update_def)
  have get: "GetConnectionFromPool net p = (Inr (IfConn (Some c)), p\<lparr>ConnectionPool := rest\<rparr>)"
    using pool by (simp add: GetConnectionFromPool_def pop_connection_def go_seq_def go_bind_def go_return_def)
  have "wp (go_defer (ReleaseConnectionToPool net (IfConn (Some c))) ?body) (\<lambda>r p'.
     ConnectionPool p' = rest @ [Some c] \<and> closed p' = closed p \<and> channels p' = channels p)
     (p\<lparr>ConnectionPool := rest\<rparr>)"
    unfolding wp_defer by (rule wp_mono [OF body]) (use rel in simp_all)
  then show ?thesis
    by (simp add: wp_def setupExchangeQueueBinding_def getConnection_def go_bind_def amqp_provider_def
        get go_return_def split: prod.splits)
qed

lemma broker_comes_up:
  assumes "NewAMQPBroker (amqp_provider net) (Some c) (NewAmqpProvider (AMQP c)) = (Inr b, p')"
  shows "\<exists>a. AMQP c = Some a \<and> b = \<lparr>bconfig = c, bamqp = a\<rparr> \<and>
    int (length (ConnectionPool p')) = sint (ConnectionPoolSize a) \<and>
    distinct (ConnectionPool p') \<and> None \<notin> set (ConnectionPool p') \<and>
    set (map the (ConnectionPool p')) \<inter> closed p' = {} \<and> channels p' = {} \<and>
    calls p' = topology_calls b"
proof -
  let ?p = "NewAmqpProvider (AMQP c)"
  have inv: "pool_inv [] ?p" using pool_reach_inv [OF pool_reach.start] by simp
  obtain r1 p1 where create: "CreateConnectionPool net ?p = (r1, p1)" by fastforce
  with assms have r1: "r1 = Inr ()"
    by (auto simp: NewAMQPBroker_def go_seq_def go_bind_def amqp_provider_def split: sum.splits)
  from wpD [OF CreateConnectionPool_inv [OF inv] create] r1 obtain a where
    a: "AMQP c = Some a" "1 \<le> sint (ConnectionPoolSize a)"
    "int (length (ConnectionPool p1)) = sint (ConnectionPoolSize a)" "set (idle p1) \<inter> closed p1 = {}"
    "pool_inv [] p1" "pool_frame ?p p1"
    by (auto simp: NewAmqpProvider_def)
  from assms create r1 a(1) have b: "b = \<lparr>bconfig = c, bamqp = a\<rparr>"
    and set_up: "setupExchangeQueueBinding (amqp_provider net) b p1 = (Inr (), p')"
    by (auto simp: NewAMQPBroker_def go_seq_def go_bind_def amqp_provider_def go_return_def
        split: sum.splits prod.splits)
  from a(6) have p1: "calls p1 = []" "channels p1 = {}" by (auto simp: pool_frame_def NewAmqpProvider_def)
  from a(2,3) obtain k rest where "ConnectionPool p1 = k # rest" by (cases "ConnectionPool p1") auto
  with a(5) obtain x where pool: "ConnectionPool p1 = Some x # rest" by (cases k) (auto simp: pool_inv_def)
  with a(4) have "x \<notin> closed p1" by (auto simp: idle_def)
  from wpD [OF setup_pool [OF pool this] set_up] p1
  have p': "ConnectionPool p' = rest @ [Some x]" "closed p' = closed p1" "channels p' = {}" by auto
  have "calls p' = topology_calls b"
    using topo.setup_makes_topology [of b net] set_up p1(1) by (auto simp: topo.makes_def)
  moreover have "distinct (ConnectionPool p1)" using a(5) by (simp add: pool_inv_def idle_def distinct_map)
  ultimately show ?thesis
    using a(1,3,4,5) b p' pool by (auto simp: pool_inv_def idle_def)
qed

text \<open>
  C24. A broker that comes up is ready: its pool holds exactly the configured number of
  connections, all open and none lent out, no channel is left open, and exactly the declared
  exchange, queues and bindings were requested from the server, in order. Without an AMQP
  section there is no broker.
\<close>

theorem NewAMQPBroker_ready:
  assumes "NewAMQPBroker (amqp_provider net) (Some c) (NewAmqpProvider (AMQP c)) = (Inr b, p')"
  shows "\<exists>a. AMQP c = Some a \<and> b = \<lparr>bconfig = c, bamqp = a\<rparr> \<and>
    int (length (ConnectionPool p')) = sint (ConnectionPoolSize a) \<and>
    distinct (ConnectionPool p') \<and> None \<notin> set (ConnectionPool p') \<and>
    set (map the (ConnectionPool p')) \<inter> closed p' = {} \<and> channels p' = {} \<and>
    calls p' = topology_calls b"
  using assms by (rule broker_comes_up)

theorem NewAMQPBroker_ready_witness:
  "\<exists>p'. NewAMQPBroker (amqp_provider calm_net) (Some sample_config) (NewAmqpProvider (Some sample_amqp)) =
     (Inr sample_broker, p') \<and> length (ConnectionPool p') = 2 \<and> calls p' = topology_calls sample_broker"
proof -
  have a: "AMQP sample_config = Some sample_amqp" by (simp add: sample_config_def)
  have pool: "CreateConnectionPool calm_net (NewAmqpProvider (Some sample_amqp)) = (Inr (), pooled_provider)"
    by (simp add: pooled_provider_def CreateConnectionPool_def NewAmqpProvider_def sample_amqp_def
        calm_net_def go_bind_def go_wrap_def go_update_def CreateConnection_def lib_call_def eval_nat_numeral)
  obtain p' where set_up:
    "setupExchangeQueueBinding (amqp_provider calm_net) sample_broker pooled_provider = (Inr (), p')"
    using calm_setup by (metis prod.collapse)
  have run: "NewAMQPBroker (amqp_provider calm_net) (Some sample_config) (NewAmqpProvider (AMQP sample_config)) =
      (Inr sample_broker, p')"
    using set_up pool a
    by (simp add: NewAMQPBroker_def go_seq_def go_bind_def amqp_provider_def go_return_def sample_broker_def)
  from NewAMQPBroker_ready [OF run] run a show ?thesis
    by (auto simp: sample_amqp_def)
qed

end
