(* ===== verification/Failing_Task.thy ===== *)
theory Failing_Task
  imports Sample_Inputs
begin

section \<open>The life of a task that keeps failing\<close>

text \<open>
  A task whose function fails every time it is run, sent with raw arguments, at a broker that
  confirms everything. \<open>task_life\<close> runs the real processor on its delivery, gives the message
  that processing publishes back to the consumer if the declared queues do (a message on the
  default key arrives in the task queue, one in the delayed queue comes back through the
  dead-letter route when it expires), runs the processor on that delivery, and so on, for as
  many turns as there are clock readings. It lists the acknowledgements and the published
  messages of each turn.
\<close>

text \<open>A broker whose server confirms every message, with the list of the confirmed ones.\<close>

definition confirming_publish :: "json_codec \<Rightarrow> amqp_broker \<Rightarrow> message list publish_op" where
  "confirming_publish codec b now sig log = (case published_message codec b now sig of
     Inl err \<Rightarrow> (Inl (Err err), sig, log)
   | Inr m \<Rightarrow> (Inr (), published_signature b now sig, log @ [m]))"

interpretation confirming: task_broker "confirming_publish codec b" "\<lambda>log. log" "published_message codec b"
  for codec b
  by unfold_locales
    (auto simp: confirming_publish_def published_signature_def split: sum.splits if_splits)

text \<open>Whether a message gets back to the task queue; without an expiration a delayed one stays.\<close>

definition comes_back :: "amqp_broker \<Rightarrow> message \<Rightarrow> bool" where
  "comes_back b m = (case m of (ex, key, msg) \<Rightarrow>
     key = getRoutingKey b \<or> (key = getDelayedQueue b \<and> Expiration msg \<noteq> []))"

type_synonym readings = "moments \<times> moments \<times> gotime"

fun task_life :: "(govalue \<Rightarrow> govalue) \<Rightarrow> json_codec \<Rightarrow> amqp_broker \<Rightarrow> registrar \<Rightarrow> readings list \<Rightarrow>
    delivery \<Rightarrow> (ack list \<times> message list) list" where
  "task_life wire codec b reg [] d = []"
| "task_life wire codec b reg ((mo, mo', now) # ts) d =
     (case Processor (confirming_publish codec b) codec reg (Some (bconfig b)) mo mo' now (DeliveryJob d) [] of
        (_, acks, ms) \<Rightarrow> (acks, ms) #
          (case ms of
             [m] \<Rightarrow> if comes_back b m then task_life wire codec b reg ts (redeliver wire m) else []
           | _ \<Rightarrow> []))"

declare task_life.simps(2) [simp del]

text \<open>A function that fails (by an error, a panic or the time limit) and leaves its argument alone.\<close>

definition always_fails :: "registrar \<Rightarrow> string \<Rightarrow> bool" where
  "always_fails reg name \<longleftrightarrow> (\<exists>f. callable reg name = Some f \<and>
     (\<forall>s limit. fst (f s limit) = s \<and> snd (f s limit) \<noteq> Returned None))"

text \<open>
  The readings of one turn: instants after 1970 and within 146 years of it, and a message that
  is published within a second of the clock reading its ETA is computed from.
\<close>

definition clock_ok :: "readings \<Rightarrow> bool" where
  "clock_ok t \<longleftrightarrow> (case t of (mo, _, _) \<Rightarrow> 0 \<le> m_retry mo \<and> m_retry mo < 2 ^ 62 \<and>
     unix_range (Some (m_created mo)) \<and> m_publish mo \<le> m_retry mo + 999000000)"

text \<open>A raw task that is to be retried \<open>n\<close> times and has been \<open>k\<close> times.\<close>

definition retrying :: "nat \<Rightarrow> nat \<Rightarrow> signature \<Rightarrow> bool" where
  "retrying n k s \<longleftrightarrow> sends_raw s \<and> small_counters s \<and> unix_range (CreatedAt s) \<and>
     unix_range (ETA s) \<and> TaskTimeOut s = 0 \<and> sint (RetryCount s) = int n \<and> sint (RetriesDone s) = int k"

text \<open>A delivery of it.\<close>

definition delivers :: "json_codec \<Rightarrow> delivery \<Rightarrow> signature \<Rightarrow> bool" where
  "delivers codec d s \<longleftrightarrow> Body d \<noteq> [] \<and> signature_of_delivery codec d = Inr s"

lemma int32_range_0 [simp]: "int32_range 0"
  by (simp add: int32_range_def)

lemma unix_range_whole: "unix_range t \<Longrightarrow> unix_range (whole_seconds t)"
  by (cases t) (simp_all add: unix_range_def whole_seconds_def)

lemma sends_raw_simps [simp]:
  "sends_raw (header_image s) = sends_raw s" "sends_raw (stamp mo s) = sends_raw s"
  "sends_raw (s\<lparr>RoutingKey := k\<rparr>) = sends_raw s" "sends_raw (s\<lparr>RetriesDone := i\<rparr>) = sends_raw s"
  "sends_raw (s\<lparr>ETA := t\<rparr>) = sends_raw s"
  by (simp_all add: sends_raw_def header_image_def stamp_def Let_def)

lemma header_image_simps [simp]:
  "RetryCount (header_image s) = RetryCount s" "RetriesDone (header_image s) = RetriesDone s"
  "CreatedAt (header_image s) = whole_seconds (CreatedAt s)" "ETA (header_image s) = whole_seconds (ETA s)"
  "RoutingKey (header_image s) = []" "TaskTimeOut (header_image s) = TaskTimeOut s"
  "Name (header_image s) = Name s" "small_counters (header_image s) = small_counters s"
  by (simp_all add: header_image_def small_counters_def)

lemma small_counters_stamp [simp]: "small_counters (stamp mo s) = small_counters s"
  by (simp add: small_counters_def stamp_def Let_def)

lemma retrying_header_image:
  assumes "retrying n k s" "unix_range (Some (m_created mo))"
  shows "retrying n k (header_image (stamp mo s))" "unix_range (CreatedAt (stamp mo s))"
proof -
  show created: "unix_range (CreatedAt (stamp mo s))"
    using assms by (auto simp: retrying_def stamp_def Let_def)
  show "retrying n k (header_image (stamp mo s))"
    using assms(1) unix_range_whole [OF created] unix_range_whole [of "ETA s"]
    by (simp add: retrying_def)
qed

lemma unix_range_Some:
  assumes "0 \<le> t" "t < 2 ^ 63"
  shows "unix_range (Some t)"
proof -
  have "0 \<le> t div 1000000000" "t div 1000000000 \<le> t" using assms(1) by simp_all
  with assms(2) show ?thesis by (simp add: unix_range_def)
qed

lemma sint_inj: "sint x = sint y \<Longrightarrow> x = (y :: 64 word)"
  by (rule signed_word_eqI)

text \<open>A failure before the last: the plan, and that it is again a task being retried.\<close>

lemma retry_plan_next:
  assumes s: "retrying n k s" and k: "k < n" "k < 49" and t: "0 \<le> t" "t < 2 ^ 62"
  shows "\<exists>s'. retry_plan a t s = Some s' \<and> retrying n (Suc k) s' \<and> RoutingKey s' = DelayedQueue a \<and>
    ETA s' = Some (t + min (int (fib (Suc k))) 10 * 1000000000) \<and> RetriesDone s' = of_nat (Suc k) \<and>
    UUID s' = UUID s \<and> Name s' = Name s \<and> RawArgs s' = RawArgs s"
proof -
  have cnt: "sint (RetryCount s) = int n" "sint (RetriesDone s) = int k"
    using s by (simp_all add: retrying_def)
  then have more: "\<not> retry_exhausted s" using k by (simp add: retry_exhausted_def)
  have succ: "sint (RetriesDone s + 1) = int (Suc k)"
    using retries_done_succ [OF more] cnt by simp
  have sk: "sint (of_nat (Suc k) :: goint) = int (Suc k)"
    using k by (intro sint_of_nat64) simp
  have dn: "RetriesDone s + 1 = of_nat (Suc k)"
    by (rule sint_inj) (simp only: succ sk)
  have delay: "sint (getRetryInterval (of_nat (Suc k))) = min (int (fib (Suc k))) 10 * 1000000000"
    using k by (intro getRetryInterval_exact) simp
  have pos: "0 < min (int (fib (Suc k))) 10 * 1000000000" using fib_pos [of "Suc k"] by simp
  let ?s = "s\<lparr>RetriesDone := of_nat (Suc k), RoutingKey := DelayedQueue a,
    ETA := Some (t + min (int (fib (Suc k))) 10 * 1000000000)\<rparr>"
  have plan: "retry_plan a t s = Some ?s"
    using more pos by (simp only: retry_plan_def dn delay if_True if_False)
  have "int32_range (of_nat (Suc k))"
    using k by (simp only: int32_range_def sk) simp
  moreover have "unix_range (ETA ?s)"
    using t unix_range_Some [of "t + min (int (fib (Suc k))) 10 * 1000000000"] by simp
  moreover have "sint (RetriesDone ?s) = int (Suc k)" using succ dn by simp
  ultimately have "retrying n (Suc k) ?s"
    using s by (simp add: retrying_def small_counters_def sends_raw_def)
  with plan show ?thesis by simp
qed

lemma raw_published:
  assumes "sends_raw s"
  shows "\<exists>msg. published_message codec b now s =
      Inr (getExchangeName b, RoutingKey (published_signature b now s), msg) \<and>
    PubHeaders msg = buildHeadersFromSignature s \<and> PubPriority msg = Priority s \<and>
    Expiration msg = (if 0 < ttl_ms now s then itoa (ttl_ms now s) else [])"
  using assms by (simp add: published_message_def prepareMessageBodyAndHeaders_def sint_getTaskTTL)


lemma published_key: "RoutingKey s \<noteq> [] \<Longrightarrow> RoutingKey (published_signature b now s) = RoutingKey s"
  by (simp add: published_signature_def)

text \<open>
  One turn: the failure is settled by one acknowledgement, after exactly the message of the
  plan was published, and what comes back of that message is the plan's signature again.
\<close>

definition plan_message :: "amqp_broker \<Rightarrow> moments \<Rightarrow> signature \<Rightarrow> publishing \<Rightarrow> message" where
  "plan_message b mo s msg = (getExchangeName b, RoutingKey (published_signature b (m_publish mo) (stamp mo s)), msg)"

lemma failing_processed:
  assumes conf: "AMQP (bconfig b) = Some (bamqp b)" and fails: "always_fails reg (Name s)"
    and d: "delivers codec d s" "TaskTimeOut s = 0"
    and plan: "retry_plan (bamqp b) (m_retry mo) s = Some s'"
    and m: "published_message codec b (m_publish mo) (stamp mo s') = Inr m"
  shows "Processor (confirming_publish codec b) codec reg (Some (bconfig b)) mo mo' now (DeliveryJob d) [] =
    (Inr (), [Ack False], [m])"
proof -
  obtain f where f: "callable reg (Name s) = Some f" "\<forall>s limit. fst (f s limit) = s \<and> snd (f s limit) \<noteq> Returned None"
    using fails by (auto simp: always_fails_def)
  then obtain out where out: "f s (seconds (MaxTaskExecutionDuration (bconfig b))) = (s, out)" "out \<noteq> Returned None"
    by (metis prod.collapse)
  have time: "\<not> checkTaskTimeout now s" using d(2) by (simp add: checkTaskTimeout_def)
  have "process_body (confirming_publish codec b) reg (bconfig b) mo now d s [] =
      settle_retry (retryTask (confirming_publish codec b) (Some (bconfig b)) mo s [])"
    using f(1) out time by (auto simp: callable_def process_body_def GetRegisteredTask_def
        split: option.splits task_value.splits task_outcome.splits)
  also have "\<dots> = (Inr (), [Ack False], published_signature b (m_publish mo) (stamp mo s'), [m])"
    using m by (simp add: retryTask_plan [OF conf] plan settle_retry_def SendTask_def SendTaskWithContext_def
        confirming_publish_def)
  finally show ?thesis
    using d(1) by (simp add: Processor_def amqpMsgProcessor_def amqpProcessSignature_def delivers_def)
qed

lemma failing_turn:
  assumes conf: "AMQP (bconfig b) = Some (bamqp b)" and wire: "wire_documented wire"
    and fails: "always_fails reg (Name s)" and d: "delivers codec d s" "TaskTimeOut s = 0"
    and plan: "retry_plan (bamqp b) (m_retry mo) s = Some s'"
    and s': "retrying n k s'" "unix_range (Some (m_created mo))"
  shows "\<exists>msg d'. PubHeaders msg = buildHeadersFromSignature (stamp mo s') \<and>
    Expiration msg = (if 0 < ttl_ms (m_publish mo) s' then itoa (ttl_ms (m_publish mo) s') else []) \<and>
    delivers codec d' (header_image (stamp mo s')) \<and>
    task_life wire codec b reg ((mo, mo', now) # ts) d = ([Ack False], [plan_message b mo s' msg]) #
      (if comes_back b (plan_message b mo s' msg) then task_life wire codec b reg ts d' else [])"
proof -
  have raw: "sends_raw (stamp mo s')" using s'(1) by (simp add: retrying_def)
  have ttl: "ttl_ms t (stamp mo s') = ttl_ms t s'" for t
    using s'(1) by (simp add: ttl_ms_def retrying_def split: option.split)
  obtain msg where m: "published_message codec b (m_publish mo) (stamp mo s') = Inr (plan_message b mo s' msg)"
    "PubHeaders msg = buildHeadersFromSignature (stamp mo s')"
    "Expiration msg = (if 0 < ttl_ms (m_publish mo) s' then itoa (ttl_ms (m_publish mo) s') else [])"
    using raw_published [OF raw, of codec b "m_publish mo"] by (auto simp: plan_message_def ttl)
  have small: "small_counters (stamp mo s')" "unix_range (ETA (stamp mo s'))"
    using s'(1) by (simp_all add: retrying_def)
  have "signature_of_delivery codec (redeliver wire (plan_message b mo s' msg)) = Inr (header_image (stamp mo s'))"
    by (rule raw_redelivery [OF wire small(1) retrying_header_image(2) [OF s'] small(2) raw m(1)])
  moreover have "Body (redeliver wire (plan_message b mo s' msg)) \<noteq> []"
    using m(1) raw by (auto simp: published_message_def prepareMessageBodyAndHeaders_def redeliver_def
        plan_message_def sends_raw_def split: option.splits)
  ultimately have "delivers codec (redeliver wire (plan_message b mo s' msg)) (header_image (stamp mo s'))"
    by (simp add: delivers_def)
  moreover note failing_processed [OF conf fails d plan m(1), of mo' now]
  ultimately show ?thesis using m(2,3)
    by (intro exI [of _ msg] exI [of _ "redeliver wire (plan_message b mo s' msg)"])
      (simp add: task_life.simps(2))
qed

text \<open>
  The counted retries: while retries are left and fewer than 49 are done, each turn publishes
  one message to the delayed queue, with the next count, the Fibonacci delay in its ETA and
  an expiration, and the task comes back.
\<close>

definition retry_eta :: "nat \<Rightarrow> moments \<Rightarrow> govalue" where
  "retry_eta i mo = VInt64 (unix_seconds (m_retry mo + min (int (fib i)) 10 * 1000000000))"

definition counted_retries :: "amqp_broker \<Rightarrow> nat \<Rightarrow> readings list \<Rightarrow> message list \<Rightarrow> bool" where
  "counted_retries b k ts ms \<longleftrightarrow> length ms = length ts \<and> (\<forall>i < length ts. case ms ! i of (ex, key, msg) \<Rightarrow>
     ex = getExchangeName b \<and> key = DelayedQueue (bamqp b) \<and> Expiration msg \<noteq> [] \<and>
     PubHeaders msg ''retries_done'' = Some (VInt (of_nat (k + Suc i))) \<and>
     PubHeaders msg ''eta'' = Some (retry_eta (k + Suc i) (fst (ts ! i))))"

lemma counted_retries_Cons:
  assumes "counted_retries b (Suc k) ts ms" "Expiration msg \<noteq> []"
    and "PubHeaders msg ''retries_done'' = Some (VInt (of_nat (Suc k)))"
    and "PubHeaders msg ''eta'' = Some (retry_eta (Suc k) (fst t))"
  shows "counted_retries b k (t # ts) ((getExchangeName b, DelayedQueue (bamqp b), msg) # ms)"
  using assms by (auto simp: counted_retries_def nth_Cons less_Suc_eq_0_disj split: nat.split prod.splits)

lemma delayed_ttl:
  assumes "ETA s = Some (t + min (int (fib (Suc k))) 10 * 1000000000)" "TaskTimeOut s = 0"
    and "now \<le> t + 999000000"
  shows "0 < ttl_ms now s"
proof -
  define e where "e = t + min (int (fib (Suc k))) 10 * 1000000000"
  have "1 \<le> fib (Suc k)" using fib_pos [of "Suc k"] by simp
  then have "t + 1000000000 \<le> e" by (simp add: e_def)
  with assms(3) have "now < e" "1000000 \<le> min (2 ^ 63 - 1) (e - now)" by simp_all
  moreover have "ETA s = Some e" using assms(1) by (simp add: e_def)
  ultimately show ?thesis using assms(2) by (simp add: ttl_ms_def pos_imp_zdiv_pos_iff)
qed

lemma counted_turn:
  assumes conf: "AMQP (bconfig b) = Some (bamqp b)" and wire: "wire_documented wire"
    and queue: "DelayedQueue (bamqp b) \<noteq> []" and fails: "always_fails reg (Name s)"
    and s: "retrying n k s" "delivers codec d s" "k < n" "k < 49" and clock: "clock_ok (mo, mo', now)"
  shows "\<exists>msg s1 d1. Expiration msg \<noteq> [] \<and> PubHeaders msg ''retries_done'' = Some (VInt (of_nat (Suc k))) \<and>
    PubHeaders msg ''eta'' = Some (retry_eta (Suc k) mo) \<and>
    retrying n (Suc k) s1 \<and> Name s1 = Name s \<and> RoutingKey s1 = [] \<and> delivers codec d1 s1 \<and>
    (\<exists>e \<le> m_retry mo + 10000000000. ETA s1 = Some e) \<and>
    task_life wire codec b reg ((mo, mo', now) # ts) d =
      ([Ack False], [(getExchangeName b, DelayedQueue (bamqp b), msg)]) # task_life wire codec b reg ts d1"
proof -
  have mo: "0 \<le> m_retry mo" "m_retry mo < 2 ^ 62" "unix_range (Some (m_created mo))"
    "m_publish mo \<le> m_retry mo + 999000000"
    using clock by (simp_all add: clock_ok_def)
  obtain s' where s': "retry_plan (bamqp b) (m_retry mo) s = Some s'" "retrying n (Suc k) s'"
    "RoutingKey s' = DelayedQueue (bamqp b)"
    "ETA s' = Some (m_retry mo + min (int (fib (Suc k))) 10 * 1000000000)"
    "RetriesDone s' = of_nat (Suc k)" "Name s' = Name s"
    using retry_plan_next [OF s(1,3,4) mo(1,2), of "bamqp b"] by blast
  have zero: "TaskTimeOut s = 0" "TaskTimeOut s' = 0" using s(1) s'(2) by (simp_all add: retrying_def)
  have ttl: "0 < ttl_ms (m_publish mo) s'" by (rule delayed_ttl [OF s'(4) zero(2) mo(4)])
  obtain msg d1 where turn: "PubHeaders msg = buildHeadersFromSignature (stamp mo s')"
    "Expiration msg = itoa (ttl_ms (m_publish mo) s')"
    "delivers codec d1 (header_image (stamp mo s'))"
    "task_life wire codec b reg ((mo, mo', now) # ts) d = ([Ack False], [plan_message b mo s' msg]) #
      (if comes_back b (plan_message b mo s' msg) then task_life wire codec b reg ts d1 else [])"
    using failing_turn [OF conf wire fails s(2) zero(1) s'(1,2) mo(3), of mo' now ts] ttl by auto
  have m: "plan_message b mo s' msg = (getExchangeName b, DelayedQueue (bamqp b), msg)"
    using published_key [of "stamp mo s'"] s'(3) queue by (simp add: plan_message_def)
  have "comes_back b (plan_message b mo s' msg)"
    unfolding m using turn(2) by (simp add: comes_back_def getDelayedQueue_def)
  moreover have "\<exists>e \<le> m_retry mo + 10000000000. ETA (header_image (stamp mo s')) = Some e"
    using s'(4) by (simp add: whole_seconds_def)
  ultimately show ?thesis
    using turn m s' retrying_header_image(1) [OF s'(2) mo(3)]
    by (intro exI [of _ msg] exI [of _ "header_image (stamp mo s')"] exI [of _ d1])
      (simp add: headers_lookup retry_eta_def)
qed

lemma counted_course:
  assumes conf: "AMQP (bconfig b) = Some (bamqp b)" and wire: "wire_documented wire"
    and queue: "DelayedQueue (bamqp b) \<noteq> []" and fails: "always_fails reg nm"
  shows "retrying n k s \<Longrightarrow> Name s = nm \<Longrightarrow> delivers codec d s \<Longrightarrow> k + length ts \<le> n \<Longrightarrow> k + length ts \<le> 49 \<Longrightarrow>
    \<forall>t \<in> set ts. clock_ok t \<Longrightarrow>
    \<exists>ms s' d'. counted_retries b k ts ms \<and> retrying n (k + length ts) s' \<and> Name s' = nm \<and> delivers codec d' s' \<and>
      task_life wire codec b reg (ts @ us) d =
        map (\<lambda>m. ([Ack False], [m])) ms @ task_life wire codec b reg us d' \<and>
      (ts \<noteq> [] \<longrightarrow> RoutingKey s' = [] \<and>
        (\<exists>t \<in> set ts. \<exists>e \<le> m_retry (fst t) + 10000000000. ETA s' = Some e))"
proof (induction ts arbitrary: k s d)
  case Nil
  then show ?case by (intro exI [of _ "[]"] exI [of _ s] exI [of _ d]) (simp add: counted_retries_def)
next
  case (Cons t ts)
  obtain mo mo' now where t: "t = (mo, mo', now)" by (metis prod_cases3)
  have fails': "always_fails reg (Name s)" using fails Cons.prems(2) by simp
  have k: "k < n" "k < 49" "clock_ok (mo, mo', now)" using Cons.prems(4-6) t by simp_all
  obtain msg s1 d1 where turn: "Expiration msg \<noteq> []"
    "PubHeaders msg ''retries_done'' = Some (VInt (of_nat (Suc k)))"
    "PubHeaders msg ''eta'' = Some (retry_eta (Suc k) (fst t))"
    "retrying n (Suc k) s1" "Name s1 = nm" "RoutingKey s1 = []" "delivers codec d1 s1"
    "\<exists>e \<le> m_retry (fst t) + 10000000000. ETA s1 = Some e"
    "task_life wire codec b reg (t # (ts @ us)) d =
      ([Ack False], [(getExchangeName b, DelayedQueue (bamqp b), msg)]) # task_life wire codec b reg (ts @ us) d1"
    using counted_turn [OF conf wire queue fails' Cons.prems(1,3) k, of "ts @ us"] Cons.prems(2)
    unfolding t by auto
  have k1: "Suc k + length ts \<le> n" "Suc k + length ts \<le> 49" "\<forall>t \<in> set ts. clock_ok t"
    using Cons.prems(4-6) by simp_all
  from Cons.IH [OF turn(4,5,7) k1] obtain ms s' d' where rest: "counted_retries b (Suc k) ts ms"
    "retrying n (Suc k + length ts) s'" "Name s' = nm" "delivers codec d' s'"
    "task_life wire codec b reg (ts @ us) d1 = map (\<lambda>m. ([Ack False], [m])) ms @ task_life wire codec b reg us d'"
    "ts \<noteq> [] \<longrightarrow> RoutingKey s' = [] \<and> (\<exists>t \<in> set ts. \<exists>e \<le> m_retry (fst t) + 10000000000. ETA s' = Some e)"
    by blast
  show ?case
  proof (cases "ts = []")
    case True
    with turn show ?thesis
      by (intro exI [of _ "[(getExchangeName b, DelayedQueue (bamqp b), msg)]"] exI [of _ s1] exI [of _ d1])
        (simp add: counted_retries_def)
  next
    case False
    with rest turn(9) counted_retries_Cons [OF rest(1) turn(1-3)] show ?thesis
      by (intro exI [of _ "(getExchangeName b, DelayedQueue (bamqp b), msg) # ms"] exI [of _ s'] exI [of _ d']) auto
  qed
qed

subsection \<open>Properties\<close>

text \<open>
  C8. A raw task without a start timeout whose function always fails is tried exactly
  RetryCount more times, for any retry count up to 49, and then ends up in the failed queue.
  Each turn of the processor acknowledges the delivery once, after publishing one message.
  The i-th of the first \<open>n\<close> goes to the delayed queue with the count i, an ETA of the i-th
  Fibonacci number of seconds (at most ten) after the failure, and an expiration that brings
  it back; the last one goes to the failed queue, and there are no more turns.
\<close>

theorem failing_task_reaches_failed_queue:
  assumes conf: "AMQP (bconfig b) = Some (bamqp b)"
    and wire: "wire_documented wire" and n: "sint (RetryCount s) = int n" "n \<le> 49"
    and s: "sends_raw s" "RetriesDone s = 0" "TaskTimeOut s = 0" "small_counters s"
      "unix_range (CreatedAt s)" "unix_range (ETA s)"
    and fails: "always_fails reg (Name s)"
    and d: "Body d \<noteq> []" "signature_of_delivery codec d = Inr s"
    and queues: "DelayedQueue (bamqp b) \<noteq> []" "FailedQueue (bamqp b) \<noteq> []"
      "FailedQueue (bamqp b) \<noteq> DelayedQueue (bamqp b)" "FailedQueue (bamqp b) \<noteq> getRoutingKey b"
    and clocks: "length ts = Suc n" "\<forall>t \<in> set ts. clock_ok t"
  shows "\<exists>ms last_msg. task_life wire codec b reg (ts @ us) d =
      map (\<lambda>m. ([Ack False], [m])) (ms @ [(getExchangeName b, FailedQueue (bamqp b), last_msg)]) \<and>
    PubHeaders last_msg ''retries_done'' = Some (VInt (of_nat n)) \<and> length ms = n \<and>
    (\<forall>i < n. case ms ! i of (ex, key, msg) \<Rightarrow>
       ex = getExchangeName b \<and> key = DelayedQueue (bamqp b) \<and> Expiration msg \<noteq> [] \<and>
       PubHeaders msg ''retries_done'' = Some (VInt (of_nat (Suc i))) \<and>
       PubHeaders msg ''eta'' = Some (VInt64 (unix_seconds
         (m_retry (fst (ts ! i)) + min (int (fib (Suc i))) 10 * 1000000000))))"
proof -
  obtain ts0 t where ts: "ts = ts0 @ [t]" "length ts0 = n" using clocks(1) by (metis length_Suc_conv_rev)
  obtain mo mo' now where t: "t = (mo, mo', now)" by (metis prod_cases3)
  have "retrying n 0 s" "delivers codec d s" using n s d by (simp_all add: retrying_def delivers_def)
  from counted_course [OF conf wire queues(1) fails this(1) refl this(2), of ts0 "t # us"] ts n(2) clocks(2)
  obtain ms s' d' where run: "counted_retries b 0 ts0 ms" "retrying n n s'" "Name s' = Name s"
    "delivers codec d' s'"
    "task_life wire codec b reg (ts0 @ t # us) d = map (\<lambda>m. ([Ack False], [m])) ms @ task_life wire codec b reg (t # us) d'"
    by auto
  have done_n: "retry_exhausted s'" "RetriesDone s' = of_nat n"
    using run(2) n(2) sint_inj [of "RetriesDone s'" "of_nat n"]
    by (simp_all add: retrying_def retry_exhausted_def sint_of_nat64)
  let ?s = "s'\<lparr>RoutingKey := FailedQueue (bamqp b)\<rparr>"
  have plan: "retry_plan (bamqp b) (m_retry mo) s' = Some ?s"
    using done_n(1) queues(2) by (simp add: retry_plan_def)
  have s1: "retrying n n ?s" "TaskTimeOut s' = 0" "always_fails reg (Name s')" "unix_range (Some (m_created mo))"
    using run(2,3) fails clocks(2) ts t by (simp_all add: retrying_def small_counters_def clock_ok_def)
  obtain msg d1 where last: "PubHeaders msg = buildHeadersFromSignature (stamp mo ?s)"
    "task_life wire codec b reg (t # us) d' = ([Ack False], [plan_message b mo ?s msg]) #
      (if comes_back b (plan_message b mo ?s msg)
       then task_life wire codec b reg us d1 else [])"
    using failing_turn [OF conf wire s1(3) run(4) s1(2) plan s1(1,4), of mo' now us] unfolding t by blast
  have m: "plan_message b mo ?s msg = (getExchangeName b, FailedQueue (bamqp b), msg)"
    using published_key [of "stamp mo ?s"] queues(2) by (simp add: plan_message_def)
  with last(2) queues(3,4) have "task_life wire codec b reg (t # us) d' =
      [([Ack False], [(getExchangeName b, FailedQueue (bamqp b), msg)])]"
    by (simp add: comes_back_def getDelayedQueue_def)
  moreover have "PubHeaders msg ''retries_done'' = Some (VInt (of_nat n))"
    using last(1) done_n(2) by (simp add: headers_lookup)
  ultimately show ?thesis
    using run(1,5) ts by (intro exI [of _ ms] exI [of _ msg])
      (auto simp: counted_retries_def retry_eta_def nth_append split: prod.splits)
qed

text \<open>The wire of the witnesses: an integer in the 32-bit range arrives as one of 32 bits.\<close>

definition narrowing_wire :: "govalue \<Rightarrow> govalue" where
  "narrowing_wire v = (case v of VInt i \<Rightarrow>
     (if - (2 ^ 31) \<le> sint i \<and> sint i < 2 ^ 31 then VInt32 (word_of_int (sint i)) else VInt64 i)
   | other \<Rightarrow> other)"

lemma narrowing_wire_documented: "wire_documented narrowing_wire"
  by (simp add: wire_documented_def narrowing_wire_def)

definition moment_at :: "int \<Rightarrow> moments" where
  "moment_at t = \<lparr>m_retry = t, m_created = t, m_publish = t, m_uuid = ''u''\<rparr>"

abbreviation turn_at :: "int \<Rightarrow> readings" where
  "turn_at t \<equiv> (moment_at t, moment_at t, t)"

lemma clock_at: "0 \<le> t \<Longrightarrow> t < 2 ^ 61 \<Longrightarrow> clock_ok (turn_at t)"
  by (simp add: clock_ok_def moment_at_def unix_range_Some)

lemma failing_fields:
  "sends_raw failing_signature" "RetriesDone failing_signature = 0" "TaskTimeOut failing_signature = 0"
  "small_counters failing_signature" "unix_range (CreatedAt failing_signature)"
  "unix_range (ETA failing_signature)" "sint (RetryCount failing_signature) = int 3"
  "always_fails sample_registrar (Name failing_signature)" "Body failing_delivery \<noteq> []"
  by (auto simp: failing_signature_def raw_signature_def zero_signature_def sends_raw_def small_counters_def
      int32_range_def unix_range_def always_fails_def callable_def sample_registrar_def failing_delivery_def)

lemma sample_broker_conf:
  "AMQP (bconfig sample_broker) = Some (bamqp sample_broker)" "DelayedQueue (bamqp sample_broker) = ''delay_test''"
  "FailedQueue (bamqp sample_broker) = ''failed_test''" "getRoutingKey sample_broker = ''paota_task_binding_key''"
  by (simp_all add: sample_broker_def sample_config_def sample_amqp_def getRoutingKey_def isDirectExchange_def)

theorem failing_task_reaches_failed_queue_witness:
  "map (\<lambda>(acks, ms). (acks, map (\<lambda>m. fst (snd m)) ms))
     (task_life narrowing_wire no_codec sample_broker sample_registrar
       (map turn_at [0, 1000000000, 2000000000, 4000000000, 9000000000]) failing_delivery) =
   [([Ack False], [''delay_test'']), ([Ack False], [''delay_test'']), ([Ack False], [''delay_test'']),
    ([Ack False], [''failed_test''])]"
proof -
  let ?ts = "map turn_at [0, 1000000000, 2000000000, 4000000000]"
  have clocks: "length ?ts = Suc 3" "\<forall>t \<in> set ?ts. clock_ok t" by (simp_all add: clock_at)
  have q: "DelayedQueue (bamqp sample_broker) \<noteq> []" "FailedQueue (bamqp sample_broker) \<noteq> []"
    "FailedQueue (bamqp sample_broker) \<noteq> DelayedQueue (bamqp sample_broker)"
    "FailedQueue (bamqp sample_broker) \<noteq> getRoutingKey sample_broker"
    by (simp_all add: sample_broker_conf)
  have "(3 :: nat) \<le> 49" by simp
  from failing_task_reaches_failed_queue [OF sample_broker_conf(1) narrowing_wire_documented failing_fields(7) this
      failing_fields(1-6,8,9) failing_decoded q clocks, of no_codec "[turn_at 9000000000]"]
  obtain ms msg where life: "task_life narrowing_wire no_codec sample_broker sample_registrar
      (?ts @ [turn_at 9000000000]) failing_delivery = map (\<lambda>m. ([Ack False], [m]))
        (ms @ [(getExchangeName sample_broker, FailedQueue (bamqp sample_broker), msg)])"
    "length ms = 3" "\<forall>i < 3. case ms ! i of (ex, key, msg) \<Rightarrow> ex = getExchangeName sample_broker \<and>
       key = DelayedQueue (bamqp sample_broker) \<and> Expiration msg \<noteq> [] \<and>
       PubHeaders msg ''retries_done'' = Some (VInt (of_nat (Suc i))) \<and>
       PubHeaders msg ''eta'' = Some (VInt64 (unix_seconds
         (m_retry (fst (?ts ! i)) + min (int (fib (Suc i))) 10 * 1000000000)))"
    by blast
  obtain m1 m2 m3 where ms: "ms = [m1, m2, m3]"
    using life(2) by (auto simp: eval_nat_numeral length_Suc_conv)
  have "fst (snd m1) = ''delay_test''" "fst (snd m2) = ''delay_test''" "fst (snd m3) = ''delay_test''"
    using life(3) ms by (auto simp: eval_nat_numeral All_less_Suc sample_broker_conf split: prod.splits)
  with life(1) ms show ?thesis by (simp add: sample_broker_conf)
qed

text \<open>The fiftieth retry: the delay has overflowed, and the plan is the signature itself.\<close>

lemma retry_plan_50:
  assumes "sint (RetriesDone s) = 49" "50 \<le> sint (RetryCount s)"
  shows "retry_plan a t s = Some s"
proof -
  have "RetriesDone s = 49" by (rule sint_inj) (simp add: assms(1))
  with getRetryInterval_50 assms(2) show ?thesis by (simp add: retry_plan_def retry_exhausted_def)
qed

lemma hot_loop:
  assumes conf: "AMQP (bconfig b) = Some (bamqp b)" and wire: "wire_documented wire"
    and fails: "always_fails reg nm"
  shows "retrying n 49 s \<Longrightarrow> 50 \<le> n \<Longrightarrow> Name s = nm \<Longrightarrow> delivers codec d s \<Longrightarrow> RoutingKey s = [] \<Longrightarrow>
    ETA s = Some eta \<Longrightarrow> \<forall>u \<in> set us. clock_ok u \<and> eta \<le> m_publish (fst u) \<Longrightarrow>
    \<exists>hs. task_life wire codec b reg us d = map (\<lambda>m. ([Ack False], [m])) hs \<and> length hs = length us \<and>
      (\<forall>(ex, key, msg) \<in> set hs. ex = getExchangeName b \<and> key = getRoutingKey b \<and> Expiration msg = [] \<and>
         PubHeaders msg ''retries_done'' = Some (VInt 49))"
proof (induction us arbitrary: s d eta)
  case (Cons u us)
  obtain mo mo' now where u: "u = (mo, mo', now)" by (metis prod_cases3)
  have cnt: "sint (RetriesDone s) = 49" "50 \<le> sint (RetryCount s)" "TaskTimeOut s = 0"
    using Cons.prems(1,2) by (simp_all add: retrying_def)
  have done49: "RetriesDone s = 49" by (rule sint_inj) (simp add: cnt)
  have clock: "unix_range (Some (m_created mo))" "eta \<le> m_publish mo"
    using Cons.prems(7) u by (simp_all add: clock_ok_def)
  have ttl: "ttl_ms (m_publish mo) s = 0" "ttl_ms (m_publish mo) (stamp mo s) = 0"
    using cnt(3) Cons.prems(6) clock(2) by (simp_all add: ttl_ms_def)
  have fails': "always_fails reg (Name s)" using fails Cons.prems(3) by simp
  obtain msg d1 where turn: "PubHeaders msg = buildHeadersFromSignature (stamp mo s)" "Expiration msg = []"
    "delivers codec d1 (header_image (stamp mo s))"
    "task_life wire codec b reg (u # us) d = ([Ack False], [plan_message b mo s msg]) #
      (if comes_back b (plan_message b mo s msg) then task_life wire codec b reg us d1 else [])"
    using failing_turn [OF conf wire fails' Cons.prems(4) cnt(3) retry_plan_50 [OF cnt(1,2)] Cons.prems(1) clock(1),
        of mo' now us] ttl(1) unfolding u by auto
  have m: "plan_message b mo s msg = (getExchangeName b, getRoutingKey b, msg)"
    using Cons.prems(5) ttl(2) by (simp add: plan_message_def published_signature_def sint_getTaskTTL)
  let ?eta = "eta div 1000000000 * 1000000000"
  have eta': "ETA (header_image (stamp mo s)) = Some ?eta" "?eta \<le> eta"
    using Cons.prems(6) by (simp_all add: whole_seconds_def)
  have later: "\<forall>u \<in> set us. clock_ok u \<and> ?eta \<le> m_publish (fst u)" using Cons.prems(7) eta'(2) by auto
  from Cons.IH [OF retrying_header_image(1) [OF Cons.prems(1) clock(1)] Cons.prems(2) _ turn(3) _ eta'(1) later]
    Cons.prems(3) obtain hs where hs: "task_life wire codec b reg us d1 = map (\<lambda>m. ([Ack False], [m])) hs"
    "length hs = length us" "\<forall>(ex, key, msg) \<in> set hs. ex = getExchangeName b \<and> key = getRoutingKey b \<and>
      Expiration msg = [] \<and> PubHeaders msg ''retries_done'' = Some (VInt 49)" by auto
  have "PubHeaders msg ''retries_done'' = Some (VInt 49)" using turn(1) done49 by (simp add: headers_lookup)
  with hs turn(2,4) m show ?case
    by (intro exI [of _ "(getExchangeName b, getRoutingKey b, msg) # hs"]) (simp add: comes_back_def)
qed simp

text \<open>
  C25. A raw task without a start timeout and with a retry count of 50 or more never reaches
  the failed queue. Its first 49 failures are counted and delayed like those of any task. The
  delay computed for the fiftieth retry overflows 64 bits and is negative, so the code
  neither counts that retry nor delays it: from then on, at every further failure, the
  delivery is acknowledged and the task is published again at once on the default key, with
  no expiration and the same count of 49, as often as it fails.
\<close>

theorem retry_50_hot_loop:
  assumes conf: "AMQP (bconfig b) = Some (bamqp b)"
    and wire: "wire_documented wire" and n: "50 \<le> sint (RetryCount s)"
    and s: "sends_raw s" "RetriesDone s = 0" "TaskTimeOut s = 0" "small_counters s"
      "unix_range (CreatedAt s)" "unix_range (ETA s)"
    and fails: "always_fails reg (Name s)"
    and d: "Body d \<noteq> []" "signature_of_delivery codec d = Inr s"
    and queue: "DelayedQueue (bamqp b) \<noteq> []"
    and clocks: "length ts = 49" "\<forall>t \<in> set (ts @ us). clock_ok t"
      "\<forall>t \<in> set ts. \<forall>u \<in> set us. m_retry (fst t) + 10 * 1000000000 \<le> m_publish (fst u)"
  shows "\<exists>ms hs. task_life wire codec b reg (ts @ us) d = map (\<lambda>m. ([Ack False], [m])) (ms @ hs) \<and>
    length ms = 49 \<and> length hs = length us \<and>
    (\<forall>i < 49. case ms ! i of (ex, key, msg) \<Rightarrow>
       ex = getExchangeName b \<and> key = DelayedQueue (bamqp b) \<and> Expiration msg \<noteq> [] \<and>
       PubHeaders msg ''retries_done'' = Some (VInt (of_nat (Suc i)))) \<and>
    (\<forall>(ex, key, msg) \<in> set hs. ex = getExchangeName b \<and> key = getRoutingKey b \<and>
       Expiration msg = [] \<and> PubHeaders msg ''retries_done'' = Some (VInt 49))"
proof -
  define n where "n = nat (sint (RetryCount s))"
  have n': "50 \<le> n" "retrying n 0 s" "delivers codec d s"
    using n s d by (simp_all add: n_def retrying_def delivers_def)
  have ts: "0 + length ts = 49" "ts \<noteq> []" using clocks(1) by auto
  have "\<forall>t \<in> set ts. clock_ok t" "0 + length ts \<le> n" "0 + length ts \<le> 49"
    using clocks(2) n'(1) ts by simp_all
  from counted_course [OF conf wire queue fails n'(2) refl n'(3) this(2,3,1), of us, unfolded ts(1)] ts(2)
  obtain ms s' d' where run: "counted_retries b 0 ts ms" "retrying n 49 s'" "Name s' = Name s" "delivers codec d' s'"
    "task_life wire codec b reg (ts @ us) d = map (\<lambda>m. ([Ack False], [m])) ms @ task_life wire codec b reg us d'"
    "RoutingKey s' = []" "\<exists>t \<in> set ts. \<exists>e \<le> m_retry (fst t) + 10000000000. ETA s' = Some e" by blast
  from run(7) obtain t e where e: "t \<in> set ts" "e \<le> m_retry (fst t) + 10000000000" "ETA s' = Some e" by blast
  have "\<forall>u \<in> set us. clock_ok u \<and> e \<le> m_publish (fst u)"
    using clocks(2,3) e(1,2) by fastforce
  from hot_loop [OF conf wire fails run(2) n'(1) run(3,4,6) e(3) this] obtain hs where
    "task_life wire codec b reg us d' = map (\<lambda>m. ([Ack False], [m])) hs" "length hs = length us"
    "\<forall>(ex, key, msg) \<in> set hs. ex = getExchangeName b \<and> key = getRoutingKey b \<and> Expiration msg = [] \<and>
       PubHeaders msg ''retries_done'' = Some (VInt 49)" by blast
  with run(1,5) clocks(1) show ?thesis
    by (intro exI [of _ ms] exI [of _ hs]) (auto simp: counted_retries_def split: prod.splits)
qed

definition tireless_signature :: signature where
  "tireless_signature = failing_signature\<lparr>RetryCount := 60\<rparr>"

definition tireless_delivery :: delivery where
  "tireless_delivery = \<lparr>Headers = buildHeadersFromSignature tireless_signature, Body = ''{}'', ack_error = None\<rparr>"

lemma tireless_decoded: "signature_of_delivery codec tireless_delivery = Inr tireless_signature"
  by (simp add: signature_of_delivery_def tireless_delivery_def headers_lookup failing_signature_def
      tireless_signature_def SignatureFromAmqpHeadersAndBody_def table_get_def raw_signature_def
      zero_signature_def unix_seconds_def sint64_of_int)

theorem retry_50_hot_loop_witness:
  "length (task_life narrowing_wire no_codec sample_broker sample_registrar
     (replicate 49 (turn_at 0) @ replicate 1000 (turn_at 20000000000)) tireless_delivery) = 1049"
proof -
  let ?ts = "replicate 49 (turn_at 0)" and ?us = "replicate 1000 (turn_at 20000000000)"
  have s: "50 \<le> sint (RetryCount tireless_signature)" "sends_raw tireless_signature"
    "RetriesDone tireless_signature = 0" "TaskTimeOut tireless_signature = 0"
    "small_counters tireless_signature" "unix_range (CreatedAt tireless_signature)"
    "unix_range (ETA tireless_signature)" "always_fails sample_registrar (Name tireless_signature)"
    "Body tireless_delivery \<noteq> []"
    using failing_fields by (simp_all add: tireless_signature_def tireless_delivery_def sends_raw_def
        small_counters_def int32_range_def)
  have q: "DelayedQueue (bamqp sample_broker) \<noteq> []" by (simp add: sample_broker_conf)
  have c: "length ?ts = 49" "\<forall>t \<in> set (?ts @ ?us). clock_ok t"
    "\<forall>t \<in> set ?ts. \<forall>u \<in> set ?us. m_retry (fst t) + 10 * 1000000000 \<le> m_publish (fst u)"
    using clock_at [of 0] clock_at [of 20000000000] by (auto simp: moment_at_def)
  from retry_50_hot_loop [OF sample_broker_conf(1) narrowing_wire_documented s tireless_decoded q c, of no_codec]
  obtain ms hs :: "message list" where "task_life narrowing_wire no_codec sample_broker sample_registrar (?ts @ ?us)
      tireless_delivery = map (\<lambda>m. ([Ack False], [m])) (ms @ hs)" "length ms = 49" "length hs = length ?us"
    by blast
  then show ?thesis by (simp only: length_map length_append length_replicate)
qed

end
