(* ===== verification/Task_Properties.thy ===== *)
theory Task_Properties
  imports Pool_Properties Failing_Task
begin

section \<open>Properties of task processing\<close>

text \<open>
  What becomes of a delivery, when and where a failed task is sent again, and what the
  registry accepts.
\<close>

subsection \<open>Helper lemmas\<close>

definition never_panics :: "'w publish_op \<Rightarrow> 'w \<Rightarrow> bool" where
  "never_panics pub w \<longleftrightarrow> (\<forall>t s m s' w'. pub t s w \<noteq> (Inl (Panic m), s', w'))"

lemma SendTask_no_panic:
  assumes "never_panics pub w"
  shows "SendTask pub mo sig w \<noteq> (Inl (Panic m), s', w')"
  using assms by (auto simp: never_panics_def SendTask_def SendTaskWithContext_def split: prod.splits sum.splits fault.splits)

text \<open>When the broker does not panic, the recovery does not run.\<close>

lemma process_no_recovery:
  assumes a: "AMQP c = Some a" and quiet: "never_panics pub w"
  shows "amqpProcessSignature pub reg (Some c) mo mo' now d sig w = process_body pub reg c mo now d sig w"
proof -
  have "process_body pub reg c mo now d sig w \<noteq> (Inl (Panic m), acks, s', w')" for m acks s' w'
  proof (cases "disposition reg c a now (m_retry mo) sig")
    case Complete
    from process_body_Complete [OF this, where pub = pub and w = w and d = d] show ?thesis by auto
  next
    case Discard
    from process_body_Discard [OF this, where pub = pub and w = w and d = d] show ?thesis by simp
  next
    case (Replace plan)
    have "send_plan pub mo plan s0 w \<noteq> (Inl (Panic m), s', w')" for s0 m s' w'
      using SendTask_no_panic [OF quiet] by (auto split: option.split)
    with process_body_Replace [OF Replace a, where pub = pub and w = w and d = d] show ?thesis
      by (fastforce split: prod.splits sum.splits fault.splits)
  qed
  then show ?thesis
    by (cases "process_body pub reg c mo now d sig w")
      (auto simp: amqpProcessSignature_def split: sum.splits fault.splits)
qed

text \<open>
  The detailed processor against its specification \<open>disposition\<close>: what is acknowledged, and
  what is confirmed in place of the delivery.
\<close>

definition implements_disposition ::
    "(gotime \<Rightarrow> signature \<Rightarrow> goerror + message) \<Rightarrow> moments \<Rightarrow> disposition \<Rightarrow> ack list \<Rightarrow>
     message list \<Rightarrow> message list \<Rightarrow> bool" where
  "implements_disposition content mo disp acks before after \<longleftrightarrow> (case disp of
     Complete \<Rightarrow> acks = [Ack False] \<and> after = before
   | Discard \<Rightarrow> acks = [Nack False False] \<and> after = before
   | Replace None \<Rightarrow> acks = [Ack False] \<and> after = before
   | Replace (Some s) \<Rightarrow>
       (acks = [Ack False] \<and> (\<exists>m. content (m_publish mo) (stamp mo s) = Inr m \<and> after = before @ [m])) \<or>
       (acks = [Nack False True] \<and> after = before))"

context task_broker
begin

lemma process_implements:
  assumes a: "AMQP c = Some a" and quiet: "never_panics pub w"
    and run: "amqpProcessSignature pub reg (Some c) mo mo' now d sig w = (r, acks, sig', w')"
  shows "implements_disposition content mo (disposition reg c a now (m_retry mo) sig) acks (log w) (log w') \<and>
    (\<forall>m. r \<noteq> Inl (Panic m))"
proof -
  from run have body: "process_body pub reg c mo now d sig w = (r, acks, sig', w')"
    by (simp only: process_no_recovery [OF a quiet])
  show ?thesis
  proof (cases "disposition reg c a now (m_retry mo) sig")
    case Complete
    from process_body_Complete [OF this, where pub = pub and w = w and d = d] body Complete show ?thesis
      by (auto simp: implements_disposition_def)
  next
    case Discard
    from process_body_Discard [OF this, where pub = pub and w = w and d = d] body Discard show ?thesis
      by (auto simp: implements_disposition_def)
  next
    case (Replace plan)
    from process_body_Replace [OF Replace a, where pub = pub and w = w and d = d] obtain s0 where
      s0: "case send_plan pub mo plan s0 w of
      (Inr _, s, w') \<Rightarrow> process_body pub reg c mo now d sig w = (Inr (), [Ack False], s, w')
    | (Inl (Err e), s, w') \<Rightarrow> \<exists>r. process_body pub reg c mo now d sig w = (r, [Nack False True], s, w') \<and>
        (\<forall>m. r \<noteq> Inl (Panic m))
    | (Inl (Panic m), s, w') \<Rightarrow> process_body pub reg c mo now d sig w = (Inl (Panic m), [], s, w')"
      by (rule exE)
    obtain q s1 w1 where q: "send_plan pub mo plan s0 w = (q, s1, w1)" by (metis prod_cases3)
    show ?thesis
    proof (cases q)
      case (Inr u)
      with q have "case plan of None \<Rightarrow> w1 = w | Some s \<Rightarrow> sent mo s w w1"
        using plan_confirmed by simp
      with s0 q Inr body Replace show ?thesis
        by (auto simp: implements_disposition_def sent_def split: option.splits)
    next
      case (Inl e)
      have "send_plan pub mo plan s0 w \<noteq> (Inl (Panic m), s', w')" for m s' w'
        using SendTask_no_panic [OF quiet] by (auto split: option.split)
      with q Inl obtain err where e: "e = Err err" by (cases e) auto
      from plan_failed [OF q [unfolded Inl]] have log: "log w1 = log w" .
      from q Inl e have "plan \<noteq> None" by (cases plan) auto
      with s0 q Inl e body Replace log show ?thesis
        by (auto simp: implements_disposition_def split: option.splits)
    qed
  qed
qed

end

lemma amqp_never_panics:
  assumes "pool_inv out p" "amqpConf p = Some a" "1 \<le> sint (ConnectionPoolSize a)"
  shows "never_panics (Publish (amqp_provider net) codec b) p"
  using AmqpPublishWithConfirm_handed [OF assms]
  by (auto simp: never_panics_def Publish_eq amqp_provider_def split: sum.splits prod.splits)

lemma Processor_delivery:
  assumes "Body d \<noteq> []" "signature_of_delivery codec d = Inr sig"
    and "Processor pub codec reg cfg mo mo' now (DeliveryJob d) w = (r, acks, w')"
  obtains sig' where "amqpProcessSignature pub reg cfg mo mo' now d sig w = (r, acks, sig', w')"
  using assms by (auto simp: Processor_def amqpMsgProcessor_def split: prod.splits)

subsection \<open>Settling a delivery\<close>

text \<open>
  C3. Processing a delivery does exactly what its disposition says, and settles it by exactly
  one acknowledgement, never panicking: a completed task is acknowledged; a task nobody can
  run is rejected without requeueing; a failed, panicked, overdue or timed-out task is
  acknowledged only after its replacement (with the routing key, retry count and ETA of the
  plan) was confirmed by the server, or when there is no queue to send it to, and goes back to
  the queue when the replacement could not be published.
\<close>

theorem delivery_implements_disposition:
  assumes "pool_inv out p" "amqpConf p = Some a0" "1 \<le> sint (ConnectionPoolSize a0)"
    and "AMQP c = Some a" "Body d \<noteq> []" "signature_of_delivery codec d = Inr sig"
    and "Processor (Publish (amqp_provider net) codec b) codec reg (Some c) mo mo' now (DeliveryJob d) p =
      (r, acks, p')"
  shows "implements_disposition (published_message codec b) mo
      (disposition reg c a now (m_retry mo) sig) acks (confirmed p) (confirmed p') \<and>
    length acks = 1 \<and> (\<forall>m. r \<noteq> Inl (Panic m))"
proof -
  obtain sig' where run:
    "amqpProcessSignature (Publish (amqp_provider net) codec b) reg (Some c) mo mo' now d sig p = (r, acks, sig', p')"
    using Processor_delivery [OF assms(5-7)] .
  from amqp.process_implements [OF assms(4) amqp_never_panics [OF assms(1-3)] run]
  show ?thesis by (auto simp: implements_disposition_def split: disposition.splits option.splits)
qed

definition sample_moments :: moments where
  "sample_moments = \<lparr>m_retry = 1700000001000000000, m_created = 0, m_publish = 1700000001000000000,
     m_uuid = ''2''\<rparr>"

theorem delivery_implements_disposition_witness:
  "case Processor (Publish (amqp_provider calm_net) no_codec sample_broker) no_codec sample_registrar
      (Some sample_config) sample_moments sample_moments 1700000000000000000
      (DeliveryJob failing_delivery) pooled_provider of
     (r, acks, p') \<Rightarrow> length acks = 1 \<and> (confirmed p' = [] \<longleftrightarrow> acks \<noteq> [Ack False])"
proof -
  obtain r acks p' where run: "Processor (Publish (amqp_provider calm_net) no_codec sample_broker) no_codec
      sample_registrar (Some sample_config) sample_moments sample_moments 1700000000000000000
      (DeliveryJob failing_delivery) pooled_provider = (r, acks, p')" by (metis prod_cases3)
  have a: "AMQP sample_config = Some sample_amqp" "1 \<le> sint (ConnectionPoolSize sample_amqp)"
    "Body failing_delivery \<noteq> []"
    by (simp_all add: sample_config_def sample_amqp_def failing_delivery_def)
  have "\<exists>s. disposition sample_registrar sample_config sample_amqp 1700000000000000000
      (m_retry sample_moments) failing_signature = Replace (Some s)"
    by (simp add: disposition_def checkTaskTimeout_def callable_def sample_registrar_def retry_plan_def
        retry_exhausted_def failing_signature_def raw_signature_def zero_signature_def sample_amqp_def)
  with delivery_implements_disposition [OF pooled_inv pooled_fields(1) a(2,1,3) failing_decoded run]
  show ?thesis
    by (auto simp: run implements_disposition_def pooled_fields)
qed

text \<open>
  C11. No task is acknowledged away, in any state of the provider and even when the broker
  panics. A delivery gets at most one acknowledgement. It is acknowledged only if the task
  completed, or exactly the message its disposition asks for is confirmed (nothing is asked
  for only if the queue it should go to, the timeout queue for an overdue task and the failed
  queue for a failed one, is not configured), or the broker panicked on that message, leaving
  the signature \<open>s\<close>, and exactly what the recovery's retry asks for \<open>s\<close> is confirmed. If
  nothing was sent, the task completed or the queue it should go to is not configured. A
  delivery is rejected for good only if no task of its name can be run; and one without any
  acknowledgement is left by a panic, with nothing published.
\<close>

theorem no_task_acknowledged_away:
  assumes "AMQP c = Some a" "Body d \<noteq> []" "signature_of_delivery codec d = Inr sig"
    and "Processor (Publish (amqp_provider net) codec b) codec reg (Some c) mo mo' now (DeliveryJob d) p =
      (r, acks, p')"
  shows "acks \<in> {[], [Ack False], [Nack False False], [Nack False True]} \<and>
    (acks = [Ack False] \<longrightarrow>
       (disposition reg c a now (m_retry mo) sig = Complete \<and> confirmed p' = confirmed p) \<or>
       (\<exists>plan. disposition reg c a now (m_retry mo) sig = Replace plan \<and> (case plan of
          None \<Rightarrow> confirmed p' = confirmed p \<and>
            (if checkTaskTimeout now sig then TimeoutQueue a = [] else FailedQueue a = [])
        | Some s \<Rightarrow> \<exists>m. published_message codec b (m_publish mo) (stamp mo s) = Inr m \<and>
            confirmed p' = confirmed p @ [m])) \<or>
       (\<exists>e s p1. process_body (Publish (amqp_provider net) codec b) reg c mo now d sig p = (Inl (Panic e), [], s, p1) \<and>
          (case retry_plan a (m_retry mo') s of
             None \<Rightarrow> confirmed p' = confirmed p \<and> retry_exhausted s \<and> FailedQueue a = []
           | Some s' \<Rightarrow> \<exists>m. published_message codec b (m_publish mo') (stamp mo' s') = Inr m \<and>
               confirmed p' = confirmed p @ [m]))) \<and>
    (acks = [Ack False] \<and> confirmed p' = confirmed p \<longrightarrow>
       disposition reg c a now (m_retry mo) sig = Complete \<or>
       (checkTaskTimeout now sig \<and> TimeoutQueue a = []) \<or> FailedQueue a = []) \<and>
    (acks \<noteq> [Ack False] \<longrightarrow> confirmed p' = confirmed p) \<and>
    (acks = [Nack False False] \<longrightarrow> callable reg (Name sig) = None) \<and>
    (acks = [] \<longrightarrow> (\<exists>m. r = Inl (Panic m)))"
proof -
  let ?pub = "Publish (amqp_provider net) codec b" and ?disp = "disposition reg c a now (m_retry mo) sig"
  obtain sig' where run: "amqpProcessSignature ?pub reg (Some c) mo mo' now d sig p = (r, acks, sig', p')"
    using Processor_delivery [OF assms(2-4)] .
  have discard: "?disp = Discard \<Longrightarrow> callable reg (Name sig) = None"
    by (auto simp: disposition_def split: if_splits option.splits prod.splits)
  from amqp.amqpProcessSignature_settled [OF assms(1) run]
  consider (complete) "acks = [Ack False]" "?disp = Complete" "confirmed p' = confirmed p"
    | (discard) "acks = [Nack False False]" "?disp = Discard" "confirmed p' = confirmed p"
    | (replaced) plan where "acks = [Ack False]" "?disp = Replace plan"
        "amqp.replaced codec b mo plan p p'"
    | (recovered) e s p1 where "acks = [Ack False]"
        "process_body ?pub reg c mo now d sig p = (Inl (Panic e), [], s, p1)"
        "amqp.replaced codec b mo' (retry_plan a (m_retry mo') s) p p'"
    | (requeued) "acks = [Nack False True]" "confirmed p' = confirmed p"
    | (panic) "acks = []" "\<exists>m. r = Inl (Panic m)" "confirmed p' = confirmed p"
    unfolding amqp.settled_def by blast
  then show ?thesis
  proof cases
    case (replaced plan)
    then show ?thesis using disposition_None [of reg c a now "m_retry mo" sig]
      by (cases plan) (auto simp: amqp.replaced_def amqp.sent_def split: if_splits)
  next
    case (recovered e s p1)
    show ?thesis
    proof (cases "retry_plan a (m_retry mo') s")
      case None
      with recovered plan_None(1) [of a "m_retry mo'" s] show ?thesis by (simp add: amqp.replaced_def)
    next
      case (Some s')
      with recovered show ?thesis by (auto simp: amqp.replaced_def amqp.sent_def)
    qed
  qed (use discard in auto)
qed

theorem no_task_acknowledged_away_witness:
  "case Processor (Publish (amqp_provider calm_net) no_codec sample_broker) no_codec
     sample_registrar (Some sample_config) sample_moments sample_moments 1700000000000000000
     (DeliveryJob failing_delivery) pooled_provider of
     (r, acks, p') \<Rightarrow> acks \<noteq> [Nack False False] \<and> (acks = [Ack False] \<longrightarrow> confirmed p' \<noteq> [])"
proof -
  obtain r acks p' where run: "Processor (Publish (amqp_provider calm_net) no_codec sample_broker) no_codec
      sample_registrar (Some sample_config) sample_moments sample_moments 1700000000000000000
      (DeliveryJob failing_delivery) pooled_provider = (r, acks, p')" by (metis prod_cases3)
  have a: "AMQP sample_config = Some sample_amqp" "Body failing_delivery \<noteq> []"
    by (simp_all add: sample_config_def failing_delivery_def)
  have "callable sample_registrar (Name failing_signature) \<noteq> None"
    "disposition sample_registrar sample_config sample_amqp 1700000000000000000 (m_retry sample_moments)
       failing_signature \<noteq> Complete"
    "TimeoutQueue sample_amqp \<noteq> []" "FailedQueue sample_amqp \<noteq> []"
    by (simp_all add: disposition_def checkTaskTimeout_def callable_def sample_registrar_def failing_signature_def
        raw_signature_def zero_signature_def sample_amqp_def)
  with no_task_acknowledged_away [OF a failing_decoded run] run show ?thesis
    by (auto simp: pooled_fields)
qed

subsection \<open>Retry delays\<close>

text \<open>
  C26. The delay before the k-th retry is the k-th Fibonacci number of seconds, at most ten,
  for every k up to 49; it is never more than ten seconds for any argument; and at 50 the
  multiplication overflows and the delay is negative.
\<close>

theorem retry_delay:
  "(k \<le> 49 \<longrightarrow> sint (getRetryInterval (of_nat k)) = min (int (fib k)) 10 * 1000000000) \<and>
   sint (getRetryInterval n) \<le> 10 * 1000000000 \<and> sint (getRetryInterval 50) < 0"
  using getRetryInterval_exact [of k] getRetryInterval_max [of n] by (simp add: getRetryInterval_50)

theorem retry_delay_witness:
  "sint (getRetryInterval 6) = 8000000000 \<and> sint (getRetryInterval 7) = 10000000000"
proof -
  have "fib 6 = 8" "fib 7 = 13" by (simp_all add: eval_nat_numeral)
  with retry_delay [of 6 0] retry_delay [of 7 0] show ?thesis by simp
qed

text \<open>
  C27. A task sent as JSON keeps its routing key, so at the fiftieth retry it is published to
  the delayed queue once more, but with an ETA in the past and therefore no expiration: a
  message that never expires there is never dead-lettered back to the task queue. The consumer
  acknowledges the delivery, and the task is never run again nor reported as failed.
\<close>

theorem retry_50_parked:
  assumes "AMQP c = Some a" "sint (RetriesDone sig) = 49" "50 \<le> sint (RetryCount sig)"
    and "RoutingKey sig = DelayedQueue a" "DelayedQueue a \<noteq> []"
    and "ETA sig = Some eta" "eta \<le> m_publish mo" "Priority sig \<le> 1"
    and "retryTask (Publish (amqp_provider net) codec b) (Some c) mo sig p = (Inr (), sig', p')"
  shows "\<exists>msg. confirmed p' = confirmed p @ [(getExchangeName b, DelayedQueue a, msg)] \<and>
    Expiration msg = [] \<and> RetriesDone sig' = RetriesDone sig"
proof -
  let ?s = "stamp mo sig"
  have run: "SendTask (Publish (amqp_provider net) codec b) mo sig p = (Inr (), sig', p')"
    using assms(9) by (simp add: retryTask_plan [OF assms(1)] retry_plan_50 [OF assms(2,3)])
  have ttl: "ttl_ms (m_publish mo) ?s = 0"
    using assms(6-8) by (auto simp: ttl_ms_def)
  obtain m where m: "published_message codec b (m_publish mo) ?s = Inr m" "confirmed p' = confirmed p @ [m]"
    using amqp.SendTask_confirmed [OF run] by blast
  have "RoutingKey (published_signature b (m_publish mo) ?s) = DelayedQueue a"
    using assms(4,5) by (simp add: published_signature_def)
  with m(1) ttl have "\<exists>msg. m = (getExchangeName b, DelayedQueue a, msg) \<and> Expiration msg = []"
    by (auto simp: published_message_def sint_getTaskTTL split: sum.splits)
  moreover have "sig' = published_signature b (m_publish mo) ?s"
    using run by (auto simp: SendTask_def SendTaskWithContext_def Publish_eq split: sum.splits prod.splits fault.splits)
  ultimately show ?thesis using m(2) by (auto simp: published_signature_def)
qed

text \<open>
  C28. A prioritised task with a start timeout that has been retried is lost when its retries
  are exhausted: the rule that gives such messages an expiration of five milliseconds does not
  look at where they go, so the message to the failed queue expires there after five
  milliseconds. The delivery is acknowledged all the same.
\<close>

theorem failed_task_expires:
  assumes "AMQP c = Some a" "FailedQueue a \<noteq> []" "retry_exhausted sig"
    and "1 < Priority sig" "TaskTimeOut sig \<noteq> 0" "ETA sig \<noteq> None"
    and "retryTask (Publish (amqp_provider net) codec b) (Some c) mo sig p = (Inr (), sig', p')"
  shows "\<exists>msg. confirmed p' = confirmed p @ [(getExchangeName b, FailedQueue a, msg)] \<and>
    Expiration msg = ''5''"
proof -
  let ?s = "stamp mo (sig\<lparr>RoutingKey := FailedQueue a\<rparr>)"
  have "retry_plan a (m_retry mo) sig = Some (sig\<lparr>RoutingKey := FailedQueue a\<rparr>)"
    using assms(2,3) by (simp add: retry_plan_def)
  then have run: "SendTask (Publish (amqp_provider net) codec b) mo (sig\<lparr>RoutingKey := FailedQueue a\<rparr>) p =
      (Inr (), sig', p')"
    using assms(7) by (simp add: retryTask_plan [OF assms(1)])
  have ttl: "ttl_ms (m_publish mo) ?s = 5" using assms(4-6) by (auto simp: ttl_ms_def)
  have "digit_char 5 = CHR ''5''" by code_simp
  then have five: "itoa 5 = ''5''" by (simp add: itoa_def utoa.simps)
  obtain m where m: "published_message codec b (m_publish mo) ?s = Inr m" "confirmed p' = confirmed p @ [m]"
    using amqp.SendTask_confirmed [OF run] by blast
  have "RoutingKey (published_signature b (m_publish mo) ?s) = FailedQueue a"
    using assms(2) by (simp add: published_signature_def)
  with m(1) ttl five have "\<exists>msg. m = (getExchangeName b, FailedQueue a, msg) \<and> Expiration msg = ''5''"
    by (auto simp: published_message_def sint_getTaskTTL split: sum.splits)
  with m(2) show ?thesis by auto
qed

text \<open>A task sent as JSON, with a codec that knows it, on the calm network.\<close>

definition json_signature :: signature where
  "json_signature = \<lparr>UUID = ''task_9'', Name = ''Fail'', Args = None, RawArgs = None,
     RoutingKey = ''delay_test'', Priority = 0, RetryCount = 60, RetryTimeout = 0, WaitTime = 0,
     RetriesDone = 49, TaskTimeOut = 0, IgnoreWhenTaskNotRegistered = False,
     CreatedAt = Some 0, ETA = Some 0\<rparr>"

definition urgent_signature :: signature where
  "urgent_signature = json_signature\<lparr>Priority := 5, TaskTimeOut := 60, RetryCount := 2, RetriesDone := 2\<rparr>"

lemma calm_SendTask:
  assumes "published_message codec b (m_publish mo) (stamp mo s) = Inr m"
  shows "\<exists>sig' p'. SendTask (Publish (amqp_provider calm_net) codec b) mo s pooled_provider = (Inr (), sig', p')"
  using calm_Publish(1) [OF assms]
  by (auto simp: SendTask_def SendTaskWithContext_def split: prod.splits)

theorem retry_50_parked_witness:
  "\<exists>sig' p' msg. retryTask (Publish (amqp_provider calm_net) (one_codec json_signature ''j'') sample_broker)
      (Some sample_config) sample_moments json_signature pooled_provider = (Inr (), sig', p') \<and>
     confirmed p' = [(''paota_task_exchange'', ''delay_test'', msg)] \<and> Expiration msg = []"
proof -
  let ?pub = "Publish (amqp_provider calm_net) (one_codec json_signature ''j'') sample_broker"
  have a: "AMQP sample_config = Some sample_amqp" "DelayedQueue sample_amqp = ''delay_test''"
    by (simp_all add: sample_config_def sample_amqp_def)
  have s: "sint (RetriesDone json_signature) = 49" "50 \<le> sint (RetryCount json_signature)"
    "RoutingKey json_signature = DelayedQueue sample_amqp" "ETA json_signature = Some 0"
    "Priority json_signature \<le> 1" "stamp sample_moments json_signature = json_signature"
    by (simp_all add: json_signature_def a stamp_def)
  have "\<exists>m. published_message (one_codec json_signature ''j'') sample_broker (m_publish sample_moments)
      (stamp sample_moments json_signature) = Inr m"
    unfolding s(6) by (simp add: published_message_def prepareMessageBodyAndHeaders_def sends_raw_def
        one_codec_def json_signature_def)
  then obtain sig' p' where send: "SendTask ?pub sample_moments json_signature pooled_provider = (Inr (), sig', p')"
    using calm_SendTask by blast
  then have run: "retryTask ?pub (Some sample_config) sample_moments json_signature pooled_provider = (Inr (), sig', p')"
    by (simp add: retryTask_plan [OF a(1)] retry_plan_50 [OF s(1,2)])
  have k: "DelayedQueue sample_amqp \<noteq> []" "0 \<le> m_publish sample_moments"
    by (simp_all add: a sample_moments_def)
  have "getExchangeName sample_broker = ''paota_task_exchange''"
    by (simp add: getExchangeName_def sample_broker_def sample_amqp_def)
  with retry_50_parked [OF a(1) s(1-3) k(1) s(4) k(2) s(5) run] run a(2) pooled_fields(2)
  show ?thesis by auto
qed

theorem failed_task_expires_witness:
  "\<exists>sig' p' msg. retryTask (Publish (amqp_provider calm_net)
        (one_codec (urgent_signature\<lparr>RoutingKey := ''failed_test''\<rparr>) ''j'') sample_broker)
      (Some sample_config) sample_moments urgent_signature pooled_provider = (Inr (), sig', p') \<and>
     confirmed p' = [(''paota_task_exchange'', ''failed_test'', msg)] \<and> Expiration msg = ''5''"
proof -
  let ?s = "urgent_signature\<lparr>RoutingKey := ''failed_test''\<rparr>"
  let ?pub = "Publish (amqp_provider calm_net) (one_codec ?s ''j'') sample_broker"
  have a: "AMQP sample_config = Some sample_amqp" "FailedQueue sample_amqp = ''failed_test''"
    by (simp_all add: sample_config_def sample_amqp_def)
  have s: "retry_exhausted urgent_signature" "1 < Priority urgent_signature"
    "TaskTimeOut urgent_signature \<noteq> 0" "ETA urgent_signature \<noteq> None" "stamp sample_moments ?s = ?s"
    by (simp_all add: urgent_signature_def json_signature_def retry_exhausted_def stamp_def)
  have "\<exists>m. published_message (one_codec ?s ''j'') sample_broker (m_publish sample_moments)
      (stamp sample_moments ?s) = Inr m"
    unfolding s(5) by (simp add: published_message_def prepareMessageBodyAndHeaders_def sends_raw_def
        one_codec_def urgent_signature_def json_signature_def)
  then obtain sig' p' where send: "SendTask ?pub sample_moments ?s pooled_provider = (Inr (), sig', p')"
    using calm_SendTask by blast
  then have run: "retryTask ?pub (Some sample_config) sample_moments urgent_signature pooled_provider = (Inr (), sig', p')"
    using s(1) a by (simp add: retryTask_plan [OF a(1)] retry_plan_def)
  have k: "FailedQueue sample_amqp \<noteq> []" by (simp add: a)
  have "getExchangeName sample_broker = ''paota_task_exchange''"
    by (simp add: getExchangeName_def sample_broker_def sample_amqp_def)
  with failed_task_expires [OF a(1) k s(1-4) run] run a(2) pooled_fields(2)
  show ?thesis by auto
qed

end
