(* ===== verification/Json_Text.thy ===== *)
theory Json_Text
  imports Json_Signature
begin

section \<open>A JSON text library\<close>

text \<open>
  A compact printer and a parser for JSON trees, with a quotation mark and a backslash
  escaped and an instant written as its number of nanoseconds: an instance of the library
  the signature component takes, which meets \<open>json_documented\<close>. The parser's fuel is twice
  the length of the text and one more: every step down or along the tree consumes at least
  half of a character of it.
\<close>

fun print_chars :: "string \<Rightarrow> string" where
  "print_chars [] = ''\"''"
| "print_chars (c # cs) = (if c = CHR ''\"'' \<or> c = CHR 0x5C then CHR 0x5C # c # print_chars cs else c # print_chars cs)"

fun parse_chars :: "string \<Rightarrow> (string \<times> string) option" where
  "parse_chars [] = None"
| "parse_chars (c # cs) =
     (if c = CHR ''\"'' then Some ([], cs)
      else if c = CHR 0x5C then (case cs of [] \<Rightarrow> None | d # ds \<Rightarrow> map_option (apfst ((#) d)) (parse_chars ds))
      else map_option (apfst ((#) c)) (parse_chars cs))"

lemma parse_print_chars [simp]: "parse_chars (print_chars s @ rest) = Some (s, rest)"
  by (induction s) auto

text \<open>The elements of an array are printed with a comma before each, the first comma then being dropped.\<close>

fun print_value :: "json \<Rightarrow> string" and print_items :: "json list \<Rightarrow> string"
  and print_members :: "(string \<times> json) list \<Rightarrow> string" where
  "print_value JNull = ''null''"
| "print_value (JBool b) = (if b then ''true'' else ''false'')"
| "print_value (JNum s) = (if s = [] then ''0'' else s)"
| "print_value (JStr s) = CHR ''\"'' # print_chars s"
| "print_value (JArr js) = CHR ''['' # (if js = [] then '']'' else tl (print_items js))"
| "print_value (JObj kvs) = CHR ''{'' # (if kvs = [] then ''}'' else tl (print_members kvs))"
| "print_items [] = '']''"
| "print_items (j # js) = CHR '','' # print_value j @ print_items js"
| "print_members [] = ''}''"
| "print_members (kv # kvs) =
     CHR '','' # CHR ''\"'' # print_chars (fst kv) @ CHR '':'' # print_value (snd kv) @ print_members kvs"

definition number_char :: "char \<Rightarrow> bool" where
  "number_char c \<longleftrightarrow> is_digit c \<or> c = CHR ''-''"

fun parse_value :: "nat \<Rightarrow> string \<Rightarrow> (json \<times> string) option"
  and parse_items :: "nat \<Rightarrow> string \<Rightarrow> (json list \<times> string) option"
  and parse_members :: "nat \<Rightarrow> string \<Rightarrow> ((string \<times> json) list \<times> string) option" where
  "parse_value 0 t = None"
| "parse_value (Suc n) t = (case t of
     [] \<Rightarrow> None
   | c # cs \<Rightarrow>
      (if c = CHR ''n'' then (if take 3 cs = ''ull'' then Some (JNull, drop 3 cs) else None)
       else if c = CHR ''t'' then (if take 3 cs = ''rue'' then Some (JBool True, drop 3 cs) else None)
       else if c = CHR ''f'' then (if take 4 cs = ''alse'' then Some (JBool False, drop 4 cs) else None)
       else if c = CHR ''\"'' then map_option (apfst JStr) (parse_chars cs)
       else if c = CHR ''['' then
         (if cs \<noteq> [] \<and> hd cs = CHR '']'' then Some (JArr [], tl cs)
          else map_option (apfst JArr) (parse_items n (CHR '','' # cs)))
       else if c = CHR ''{'' then
         (if cs \<noteq> [] \<and> hd cs = CHR ''}'' then Some (JObj [], tl cs)
          else map_option (apfst JObj) (parse_members n (CHR '','' # cs)))
       else if int_literal (takeWhile number_char t) \<noteq> None
         then Some (JNum (takeWhile number_char t), dropWhile number_char t)
       else None))"
| "parse_items 0 t = None"
| "parse_items (Suc n) t = (case t of
     [] \<Rightarrow> None
   | c # cs \<Rightarrow>
      (if c = CHR '']'' then Some ([], cs)
       else if c = CHR '','' then (case parse_value n cs of
           None \<Rightarrow> None | Some (j, rest) \<Rightarrow> map_option (apfst ((#) j)) (parse_items n rest))
       else None))"
| "parse_members 0 t = None"
| "parse_members (Suc n) t = (case t of
     [] \<Rightarrow> None
   | c # cs \<Rightarrow>
      (if c = CHR ''}'' then Some ([], cs)
       else if c = CHR '','' \<and> cs \<noteq> [] \<and> hd cs = CHR ''\"'' then (case parse_chars (tl cs) of
           None \<Rightarrow> None
         | Some (k, rest) \<Rightarrow>
            (if rest = [] \<or> hd rest \<noteq> CHR '':'' then None
             else case parse_value n (tl rest) of
                None \<Rightarrow> None | Some (j, rest') \<Rightarrow> map_option (apfst ((#) (k, j))) (parse_members n rest')))
       else None))"

lemma print_nonempty [simp]: "print_value j \<noteq> []" "print_items js \<noteq> []" "print_members kvs \<noteq> []"
  by (cases j, simp_all) (cases js, simp_all, cases kvs, simp_all)

lemma comma_items:
  "js \<noteq> [] \<Longrightarrow> CHR '','' # tl (print_items js) = print_items js"
  "kvs \<noteq> [] \<Longrightarrow> CHR '','' # tl (print_members kvs) = print_members kvs"
  by (cases js, simp_all) (cases kvs, simp_all)

lemma number_chars:
  assumes "int_literal s = Some i"
  shows "s \<noteq> []" "list_all number_char s"
proof -
  have digits: "list_all number_char t" if "nat_literal t" for t
    using that by (auto simp: nat_literal_def number_char_def list_all_iff)
  show "s \<noteq> []" using assms by auto
  show "list_all number_char s"
    using assms digits [of s] digits [of "tl s"]
    by (cases s) (auto simp: int_literal_def number_char_def split: if_splits)
qed

lemma number_char_not:
  "number_char c \<Longrightarrow> c \<notin> set ''ntf]}{['' \<and> c \<noteq> CHR ''\"''"
  by (auto simp: number_char_def is_digit_def)

lemma hd_print:
  assumes "plain_json j"
  shows "hd (print_value j) \<noteq> CHR '']''"
proof (cases j)
  case (JNum s)
  then obtain i where "int_literal s = Some i" using assms by auto
  from number_chars [OF this] JNum show ?thesis using number_char_not by (cases s) auto
qed auto

definition ends_number :: "string \<Rightarrow> bool" where
  "ends_number rest \<longleftrightarrow> rest = [] \<or> \<not> number_char (hd rest)"

lemma ends_number_after [simp]:
  "ends_number (print_items js @ rest)" "ends_number (print_members kvs @ rest)"
  by (cases js, simp_all add: ends_number_def number_char_def is_digit_def)
    (cases kvs, simp_all add: ends_number_def number_char_def is_digit_def)

lemma parse_number:
  assumes s: "int_literal s = Some i" and rest: "ends_number rest"
  shows "parse_value (Suc n) (s @ rest) = Some (JNum s, rest)"
proof -
  obtain c cs where c: "s = c # cs" using number_chars(1) [OF s] by (cases s) auto
  have all: "\<forall>x \<in> set s. number_char x" using number_chars(2) [OF s] by (simp add: list_all_iff)
  then have "takeWhile number_char (s @ rest) = s" "dropWhile number_char (s @ rest) = rest"
    using rest by (cases rest; simp add: ends_number_def)+
  moreover have "c \<notin> set ''ntf]}{[''" "c \<noteq> CHR ''\"''" using all c number_char_not [of c] by auto
  ultimately show ?thesis using s c by simp
qed

lemma parse_print:
  "plain_json j \<longrightarrow> (\<forall>n rest. 2 * length (print_value j) \<le> n \<longrightarrow> ends_number rest \<longrightarrow>
     parse_value n (print_value j @ rest) = Some (j, rest))"
  "list_all plain_json js \<longrightarrow> (\<forall>n rest. 2 * length (print_items js) \<le> n + 1 \<longrightarrow>
     parse_items n (print_items js @ rest) = Some (js, rest))"
  "list_all (\<lambda>kv. plain_json (snd kv)) kvs \<longrightarrow> (\<forall>n rest. 2 * length (print_members kvs) \<le> n + 1 \<longrightarrow>
     parse_members n (print_members kvs @ rest) = Some (kvs, rest))"
proof (induction j and js and kvs rule: print_value_print_items_print_members.induct)
  case (3 s)
  show ?case
  proof (intro impI allI)
    fix n rest assume "plain_json (JNum s)" "2 * length (print_value (JNum s)) \<le> n" "ends_number rest"
    moreover from this obtain i where "int_literal s = Some i" by auto
    ultimately show "parse_value n (print_value (JNum s) @ rest) = Some (JNum s, rest)"
      using number_chars(1) [of s i] parse_number [of s i rest "n - 1"] by (cases n; cases s) auto
  qed
next
  case (5 js)
  show ?case
  proof (intro impI allI)
    fix n rest assume p: "plain_json (JArr js)" and n: "2 * length (print_value (JArr js)) \<le> n"
    show "parse_value n (print_value (JArr js) @ rest) = Some (JArr js, rest)"
    proof (cases js)
      case Nil
      with n show ?thesis by (cases n) auto
    next
      case (Cons j js')
      then have "js \<noteq> []" by simp
      obtain m where m: "n = Suc m" using n by (cases n) auto
      have t: "tl (print_items js) = print_value j @ print_items js'" using Cons by simp
      have "hd (print_value j) \<noteq> CHR '']''" using p Cons hd_print [of j] by simp
      then have h: "hd (tl (print_items js) @ rest) \<noteq> CHR '']''" "tl (print_items js) @ rest \<noteq> []" using t by simp_all
      have c: "CHR '','' # tl (print_items js) @ rest = print_items js @ rest" using Cons by simp
      have "2 * length (print_items js) \<le> m + 1" using n m Cons by simp
      then have "parse_items m (print_items js @ rest) = Some (js, rest)" using 5 p \<open>js \<noteq> []\<close> by simp
      with h c m Cons show ?thesis by simp
    qed
  qed
next
  case (6 kvs)
  show ?case
  proof (intro impI allI)
    fix n rest assume p: "plain_json (JObj kvs)" and n: "2 * length (print_value (JObj kvs)) \<le> n"
    show "parse_value n (print_value (JObj kvs) @ rest) = Some (JObj kvs, rest)"
    proof (cases kvs)
      case Nil
      with n show ?thesis by (cases n) auto
    next
      case (Cons kv kvs')
      then have "kvs \<noteq> []" by simp
      obtain m where m: "n = Suc m" using n by (cases n) auto
      have h: "hd (tl (print_members kvs) @ rest) \<noteq> CHR ''}''" "tl (print_members kvs) @ rest \<noteq> []" using Cons by simp_all
      have c: "CHR '','' # tl (print_members kvs) @ rest = print_members kvs @ rest" using Cons by simp
      have "2 * length (print_members kvs) \<le> m + 1" using n m Cons by simp
      then have "parse_members m (print_members kvs @ rest) = Some (kvs, rest)" using 6 p \<open>kvs \<noteq> []\<close> by simp
      with h c m Cons show ?thesis by simp
    qed
  qed
next
  case (8 j js)
  show ?case
  proof (intro impI allI)
    fix n rest assume p: "list_all plain_json (j # js)" and n: "2 * length (print_items (j # js)) \<le> n + 1"
    obtain m where m: "n = Suc m" using n by (cases n) auto
    have "parse_value m (print_value j @ print_items js @ rest) = Some (j, print_items js @ rest)"
      using 8(1) p n m ends_number_after(1) by simp
    moreover have "parse_items m (print_items js @ rest) = Some (js, rest)" using 8(2) p n m by simp
    ultimately show "parse_items n (print_items (j # js) @ rest) = Some (j # js, rest)" using m by simp
  qed
next
  case (10 kv kvs)
  show ?case
  proof (intro impI allI)
    fix n rest assume p: "list_all (\<lambda>kv. plain_json (snd kv)) (kv # kvs)"
      and n: "2 * length (print_members (kv # kvs)) \<le> n + 1"
    obtain m where m: "n = Suc m" using n by (cases n) auto
    have "parse_value m (print_value (snd kv) @ print_members kvs @ rest) = Some (snd kv, print_members kvs @ rest)"
      using 10(1) p n m ends_number_after(2) by simp
    moreover have "parse_members m (print_members kvs @ rest) = Some (kvs, rest)" using 10(2) p n m by simp
    ultimately show "parse_members n (print_members (kv # kvs) @ rest) = Some (kv # kvs, rest)" using m by simp
  qed
qed (auto simp: gr0_conv_Suc Suc_le_eq numeral_eq_Suc dest!: less_imp_Suc_add)

definition text_lib :: json_lib where
  "text_lib = \<lparr>print_json = print_value,
     parse_json = \<lambda>t. (case parse_value (2 * length t) t of Some (j, []) \<Rightarrow> Some j | _ \<Rightarrow> None),
     first_json = \<lambda>t. map_option fst (parse_value (2 * length t) t),
     time_text = \<lambda>t. Some (itoa t), parse_time = int_literal, other_json = \<lambda>_. None\<rparr>"

lemma text_lib_documented: "json_documented text_lib"
proof -
  have "plain_text (itoa t)" for t
  proof -
    have "number_char c \<Longrightarrow> of_char c < (128 :: nat)" for c by (auto simp: number_char_def is_digit_def)
    then show ?thesis using number_chars(2) [of "itoa t" t] by (auto simp: plain_text_def list_all_iff)
  qed
  moreover have "parse_value (2 * length (print_value j)) (print_value j) = Some (j, [])" if "plain_json j" for j
    using parse_print(1) [of j] that by (auto simp: ends_number_def dest: spec [where x = "[]"])
  ultimately show ?thesis by (simp add: json_documented_def text_lib_def)
qed

end
