(* ===== verification/Registry_Properties.thy ===== *)
theory Registry_Properties
  imports Task_Properties Json_Text
begin

section \<open>Properties of signatures, the registry and the configuration\<close>

text \<open>
  The two message formats and what survives them, the registration of tasks and what the
  processor makes of what was registered, the start timeout, and the configuration provider.
\<close>

subsection \<open>Message formats\<close>

text \<open>
  C29. A signature with raw arguments is rebuilt by the consumer from the message it was
  published as, except for what the headers do not carry: the argument list, the routing key
  and the priority are gone, and the two instants are cut to whole seconds. It is again a raw
  signature, so later sends use the same format.
\<close>

theorem raw_round_trip:
  assumes "wire_documented wire" "small_counters s" "unix_range (CreatedAt s)" "unix_range (ETA s)"
    and "sends_raw s" "published_message codec b now s = Inr m"
  shows "\<exists>s'. signature_of_delivery codec (redeliver wire m) = Inr s' \<and> sends_raw s' \<and>
    s' = s\<lparr>Args := None, RoutingKey := [], Priority := 0,
      CreatedAt := map_option (\<lambda>t. t div 1000000000 * 1000000000) (CreatedAt s),
      ETA := map_option (\<lambda>t. t div 1000000000 * 1000000000) (ETA s)\<rparr>"
proof (intro exI conjI)
  show "signature_of_delivery codec (redeliver wire m) = Inr (header_image s)"
    by (rule raw_redelivery [OF assms])
qed (use assms(5) in \<open>simp_all add: header_image_def whole_seconds_def sends_raw_def\<close>)

theorem raw_round_trip_witness:
  "\<exists>m. published_message no_codec sample_broker 0 (raw_signature\<lparr>Priority := 9\<rparr>) = Inr m \<and>
     signature_of_delivery no_codec (redeliver narrowing_wire m) = Inr raw_signature"
proof -
  let ?s = "raw_signature\<lparr>Priority := 9\<rparr>"
  obtain m where m: "published_message no_codec sample_broker 0 ?s = Inr m"
    by (simp add: published_message_def prepareMessageBodyAndHeaders_def sends_raw_def sample_defs)
  have s: "small_counters ?s" "unix_range (CreatedAt ?s)" "unix_range (ETA ?s)" "sends_raw ?s"
    by (simp_all add: raw_signature_def zero_signature_def sends_raw_def small_counters_def
        int32_range_def unix_range_def)
  have "?s\<lparr>Args := None, RoutingKey := [], Priority := 0,
      CreatedAt := map_option (\<lambda>t. t div 1000000000 * 1000000000) (CreatedAt ?s),
      ETA := map_option (\<lambda>t. t div 1000000000 * 1000000000) (ETA ?s)\<rparr> = raw_signature"
    by (simp add: raw_signature_def zero_signature_def)
  with raw_round_trip [OF narrowing_wire_documented s m] m show ?thesis by auto
qed

text \<open>
  C30. A signature without raw arguments whose texts are ASCII and whose arguments are
  strings, booleans, integers, nil, and slices and maps of these, is sent as JSON and read
  back, whatever the wire does to headers: all its fields return, every integer among the
  arguments (nested ones included) as a \<^verbatim>\<open>json.Number\<close> with its digits, and the nil raw
  arguments as the literal \<open>null\<close>. That literal is recognised by the next send, so the
  task stays in the JSON format: what was read can be sent again, as the same text, and is
  then read back unchanged. The JSON of a signature is written and read as encoding/json
  does, over the documented behaviour of its text layer.
\<close>

theorem json_round_trip:
  assumes "json_documented lib" "plain_signature s" "RawArgs s = None \<or> RawArgs s = Some ''null''"
    and "published_message (encoding_json lib) b now s = Inr m"
    and "s' = s\<lparr>RawArgs := Some ''null'',
      Args := map_option (map (\<lambda>a. a\<lparr>Arg_Value := numbered (Arg_Value a)\<rparr>)) (Args s)\<rparr>"
  shows "signature_of_delivery (encoding_json lib) (redeliver wire m) = Inr s' \<and>
    (\<exists>m'. published_message (encoding_json lib) b now' s' = Inr m' \<and>
       PubBody (snd (snd m')) = PubBody (snd (snd m)) \<and>
       signature_of_delivery (encoding_json lib) (redeliver wire' m') = Inr s')"
proof -
  have s': "s' = json_image s" using assms(5) by (simp add: json_image_def numbered_arg_def [abs_def])
  from json_redelivery [OF assms(1-4), of wire now'] obtain m' where
    m: "signature_of_delivery (encoding_json lib) (redeliver wire m) = Inr s'" and
    m': "published_message (encoding_json lib) b now' s' = Inr m'" "PubBody (snd (snd m')) = PubBody (snd (snd m))"
    using s' by blast
  have "plain_signature s'" "RawArgs s' = Some ''null''" using plain_image [OF assms(2)] s' by (simp_all add: json_image_def)
  then have "signature_of_delivery (encoding_json lib) (redeliver wire' m') = Inr s'"
    using json_redelivery [OF assms(1) _ _ m'(1), of wire' 0] s' by simp
  with m m' show ?thesis by blast
qed

text \<open>A signature with an integer, and a map with a slice of integers, among its arguments.\<close>

definition args_signature :: signature where
  "args_signature = json_signature\<lparr>Args := Some [
     \<lparr>Arg_Name = ''n'', Arg_Type = ''int'', Arg_Value = VInt 7\<rparr>,
     \<lparr>Arg_Name = ''m'', Arg_Type = ''map'', Arg_Value = VMap [(''k'', VSlice [VInt64 (- 2), VString ''x'']), (''on'', VBool True)]\<rparr>]\<rparr>"

definition args_signature_read :: signature where
  "args_signature_read = json_signature\<lparr>RawArgs := Some ''null'', Args := Some [
     \<lparr>Arg_Name = ''n'', Arg_Type = ''int'', Arg_Value = VNumber ''7''\<rparr>,
     \<lparr>Arg_Name = ''m'', Arg_Type = ''map'', Arg_Value = VMap [(''k'', VSlice [VNumber ''-2'', VString ''x'']), (''on'', VBool True)]\<rparr>]\<rparr>"

theorem json_round_trip_witness:
  "\<exists>m. published_message (encoding_json text_lib) sample_broker 0 args_signature = Inr m \<and>
     signature_of_delivery (encoding_json text_lib) (redeliver (\<lambda>v. VNil) m) = Inr args_signature_read"
proof -
  let ?a = "args_signature\<lparr>RawArgs := Some ''null'',
      Args := map_option (map (\<lambda>a. a\<lparr>Arg_Value := numbered (Arg_Value a)\<rparr>)) (Args args_signature)\<rparr>"
  have raw: "RawArgs args_signature = None \<or> RawArgs args_signature = Some ''null''"
    by (simp add: args_signature_def json_signature_def)
  have plain: "plain_signature args_signature"
    by (simp add: plain_signature_def plain_arg_def plain_text_def args_signature_def json_signature_def)
  obtain j where "args_json text_lib (Args args_signature) = Some j"
    using args_round_trip [of "Args args_signature" text_lib] plain
    by (auto simp: plain_signature_def split: option.splits)
  then have "\<exists>t. json_marshal (encoding_json text_lib) args_signature = Inr t"
    by (simp add: encoding_json_def signature_json_def raw_json_def time_json_def args_signature_def
        json_signature_def text_lib_def)
  then obtain m where m: "published_message (encoding_json text_lib) sample_broker 0 args_signature = Inr m"
    by (auto simp: published_message_def prepareMessageBodyAndHeaders_def sends_raw_def args_signature_def json_signature_def)
  have "digit_char 7 = CHR ''7''" "digit_char 2 = CHR ''2''" by code_simp+
  then have "?a = args_signature_read"
    by (simp add: args_signature_def args_signature_read_def json_signature_def itoa_def utoa.simps)
  with json_round_trip [OF text_lib_documented plain raw m refl, THEN conjunct1] m show ?thesis by auto
qed

text \<open>
  C31. A delivery that cannot be read is rejected once without requeueing, with an error, and
  neither the broker nor anything else is touched: an empty body, or a body that is not the
  JSON of a signature where there is no \<open>task_name\<close> header. A delivery with that header is
  never unreadable, whatever the types of its headers.
\<close>

theorem unreadable_rejected:
  assumes "Body d = [] \<or> (Headers d ''task_name'' = None \<and> (\<exists>e. json_decode codec (Body d) = Inl e))"
  shows "(\<exists>e. Processor pub codec reg cfg mo mo' now (DeliveryJob d) w = (Inl (Err e), [Nack False False], w)) \<and>
    (Headers d' ''task_name'' \<noteq> None \<longrightarrow> (\<exists>s. signature_of_delivery codec d' = Inr s \<and> RawArgs s = Some (Body d')))"
  using assms
  by (auto simp: Processor_def amqpMsgProcessor_def signature_of_delivery_def BytesToSignature_def
      SignatureFromAmqpHeadersAndBody_def Let_def split: prod.split)

theorem unreadable_rejected_witness:
  "fst (snd (Processor (\<lambda>t s w. (Inr (), s, w)) no_codec sample_registrar None sample_moments sample_moments 0
     (DeliveryJob \<lparr>Headers = Map.empty, Body = ''xx'', ack_error = None\<rparr>) (0 :: nat))) = [Nack False False]"
proof -
  let ?d = "\<lparr>Headers = Map.empty, Body = ''xx'', ack_error = None\<rparr>"
  have "Body ?d = [] \<or> (Headers ?d ''task_name'' = None \<and> (\<exists>e. json_decode no_codec (Body ?d) = Inl e))"
    by (simp add: no_codec_def)
  from unreadable_rejected [OF this, THEN conjunct1, of "\<lambda>t s w. (Inr (), s, w)" sample_registrar None
      sample_moments sample_moments 0 "0 :: nat"]
  show ?thesis by (elim exE) (simp only: fst_conv snd_conv)
qed

subsection \<open>Registering tasks\<close>

lemma validate_all_cases:
  "(validate_all en = Inr () \<and> (\<forall>(k, v) \<in> set en. ValidateTask v = Inr ())) \<or>
   (\<exists>e. validate_all en = Inl e \<and> (\<exists>(k, v) \<in> set en. ValidateTask v = Inl e))"
  by (induction en) (auto split: sum.splits)

lemma store_all_eq:
  "distinct (map fst en) \<Longrightarrow> store_all en r = r\<lparr>
     registeredTasks := (\<lambda>k. case map_of en k of Some v \<Rightarrow> Some v | None \<Rightarrow> registeredTasks r k),
     registeredTasksCount := registeredTasksCount r + of_nat (length en)\<rparr>"
proof (induction en r rule: store_all.induct)
  case (2 k v rest r)
  then have "map_of rest k = None" by (auto simp: map_of_eq_None_iff)
  with 2 show ?case by (auto simp: fun_eq_iff split: option.split)
qed simp

text \<open>
  C32. Registering a map of tasks is all or nothing and does not depend on the order in which
  Go visits the map: either every function is valid, and then exactly the named tasks are
  added or replaced and the count grows by the number of entries, or the registry is unchanged
  and the error is that of an invalid task of the map.
\<close>

theorem register_all_or_nothing:
  assumes "distinct (map fst en1)" "distinct (map fst en2)" "set en1 = set en2"
    and "RegisterTasks en1 en2 r = (res, r')"
  shows "if \<forall>(k, v) \<in> set en1. ValidateTask v = Inr ()
    then res = Inr () \<and> (\<forall>k. registeredTasks r' k =
        (case map_of en1 k of Some v \<Rightarrow> Some v | None \<Rightarrow> registeredTasks r k)) \<and>
      GetRegisteredTaskCount r' = GetRegisteredTaskCount r + of_nat (length en1)
    else r' = r \<and> (\<exists>(k, v) \<in> set en1. ValidateTask v = res \<and> res \<noteq> Inr ())"
proof -
  have "map_of en1 = map_of en2" using assms(1-3) by (simp add: map_of_inject_set)
  moreover have "length en1 = length en2"
    using assms(1-3) distinct_card [of en1] distinct_card [of en2]
    by (simp add: distinct_map)
  moreover note store_all_eq [OF assms(2), of r]
  ultimately have store: "store_all en2 r = r\<lparr>
     registeredTasks := (\<lambda>k. case map_of en1 k of Some v \<Rightarrow> Some v | None \<Rightarrow> registeredTasks r k),
     registeredTasksCount := registeredTasksCount r + of_nat (length en1)\<rparr>" by simp
  from validate_all_cases [of en1] show ?thesis
  proof
    assume ok: "validate_all en1 = Inr () \<and> (\<forall>(k, v) \<in> set en1. ValidateTask v = Inr ())"
    with assms(4) have "res = Inr ()" and r': "r' = store_all en2 r" by (simp_all add: RegisterTasks_def)
    with ok show ?thesis unfolding r' store by (simp add: GetRegisteredTaskCount_def)
  next
    assume "\<exists>e. validate_all en1 = Inl e \<and> (\<exists>(k, v) \<in> set en1. ValidateTask v = Inl e)"
    then obtain e k v where e: "validate_all en1 = Inl e" "(k, v) \<in> set en1" "ValidateTask v = Inl e" by auto
    with assms(4) have "r' = r" "res = Inl e" by (auto simp: RegisterTasks_def)
    moreover have "\<not> (\<forall>(k, v) \<in> set en1. ValidateTask v = Inr ())" using e(2,3) by force
    ultimately show ?thesis using e(2,3) by auto
  qed
qed

theorem register_all_or_nothing_witness:
  "snd (RegisterTasks [(''a'', TaskFunc (\<lambda>s limit. (s, Returned None))), (''b'', OtherTask error_type)]
      [(''b'', OtherTask error_type), (''a'', TaskFunc (\<lambda>s limit. (s, Returned None)))] NewDefaultTaskRegistrar) = NewDefaultTaskRegistrar"
proof -
  let ?e1 = "[(''a'', TaskFunc (\<lambda>s limit. (s, Returned None))), (''b'', OtherTask error_type)]"
  let ?e2 = "[(''b'', OtherTask error_type), (''a'', TaskFunc (\<lambda>s limit. (s, Returned None)))]"
  obtain res r' where run: "RegisterTasks ?e1 ?e2 NewDefaultTaskRegistrar = (res, r')" by fastforce
  have bad: "\<not> (\<forall>(k, v) \<in> set ?e1. ValidateTask v = Inr ())"
    by (simp add: ValidateTask_def error_type_def)
  have "set ?e1 = set ?e2" by auto
  with register_all_or_nothing [OF _ _ _ run] bad run show ?thesis by simp
qed

subsection \<open>What the processor makes of registered tasks\<close>

lemma not_callable_discards:
  assumes "callable reg (Name sig) = None" "\<not> checkTaskTimeout now sig"
  shows "disposition reg c a now t sig = Discard"
  using assms by (simp add: disposition_def)

text \<open>
  C33. Registration accepts more than the processor can run. A value that is not of the exact
  type \<^verbatim>\<open>func(*schema.Signature) error\<close> is accepted if and only if it is a function, with any
  parameters, whose last result implements error; but the processor never calls it: the
  deliveries of its task are rejected without requeueing and reported as errors, so they are
  dropped.
\<close>

theorem accepted_but_never_run:
  assumes "RegisterTasks [(n, OtherTask t)] [(n, OtherTask t)] r = (res, r')" "t \<noteq> task_func_type"
    and "Name sig = n" "\<not> checkTaskTimeout now sig"
  shows "(res = Inr () \<longleftrightarrow> (\<exists>nm ins outs e. t = FuncType nm ins outs e \<and> outs \<noteq> [] \<and> implements_error (last outs))) \<and>
    (res = Inr () \<longrightarrow> IsTaskRegistered r' n \<and>
      amqpProcessSignature pub r' (Some c) mo mo' now d sig w =
        (Inl (Err (TaskErr ErrTaskMustBeFunc)), [Nack False False], sig, w))"
proof -
  have valid: "res = Inr () \<longleftrightarrow> ValidateTask (OtherTask t) = Inr ()"
    using assms(1) by (auto simp: RegisterTasks_def split: sum.splits)
  have "amqpProcessSignature pub r' (Some c) mo mo' now d sig w =
        (Inl (Err (TaskErr ErrTaskMustBeFunc)), [Nack False False], sig, w) \<and> IsTaskRegistered r' n"
    if "res = Inr ()"
  proof -
    have reg: "registeredTasks r' n = Some (OtherTask t)"
      using assms(1) that by (auto simp: RegisterTasks_def split: sum.splits)
    then have "callable r' (Name sig) = None" using assms(3) by (simp add: callable_def)
    from not_callable_discards [OF this assms(4)]
    have "disposition r' c sample_amqp now (m_retry mo) sig = Discard" .
    from process_body_Discard [OF this, where pub = pub and d = d and w = w] reg show ?thesis
      by (simp add: amqpProcessSignature_def IsTaskRegistered_def)
  qed
  with valid show ?thesis by (simp add: ValidateTask_ok_iff)
qed

theorem accepted_but_never_run_witness:
  "\<exists>r'. RegisterTasks [(''Print'', OtherTask (FuncType None [PlainType ''int'' KInt False] [PlainType ''string'' KString False, error_type] False))]
      [(''Print'', OtherTask (FuncType None [PlainType ''int'' KInt False] [PlainType ''string'' KString False, error_type] False))]
      NewDefaultTaskRegistrar = (Inr (), r') \<and>
    fst (snd (amqpProcessSignature (\<lambda>t s w. (Inr (), s, w)) r' (Some sample_config) sample_moments
      sample_moments 0 failing_delivery raw_signature (0 :: nat))) = [Nack False False]"
proof -
  let ?t = "FuncType None [PlainType ''int'' KInt False] [PlainType ''string'' KString False, error_type] False"
  obtain res r' where run: "RegisterTasks [(''Print'', OtherTask ?t)] [(''Print'', OtherTask ?t)]
      NewDefaultTaskRegistrar = (res, r')" by fastforce
  have s: "?t \<noteq> task_func_type" "Name raw_signature = ''Print''" "\<not> checkTaskTimeout 0 raw_signature"
    by (simp_all add: raw_signature_def zero_signature_def checkTaskTimeout_def task_func_type_def)
  have "implements_error (last [PlainType ''string'' KString False, error_type])" by (simp add: error_type_def)
  with accepted_but_never_run [OF run s, where pub = "\<lambda>t s w. (Inr (), s, w)" and w = "0 :: nat"
      and c = sample_config and mo = sample_moments and mo' = sample_moments and d = failing_delivery] run
  show ?thesis by auto
qed

text \<open>
  C34. The flag \<open>IgnoreWhenTaskNotRegistered\<close> is carried in both message formats and read by
  nothing: a delivery whose task is not registered is rejected without requeueing and reported
  as an error, with the flag and without it.
\<close>

theorem ignore_flag_has_no_effect:
  assumes "registeredTasks reg (Name sig) = None" "\<not> checkTaskTimeout now sig"
  shows "amqpProcessSignature pub reg (Some c) mo mo' now d (sig\<lparr>IgnoreWhenTaskNotRegistered := flag\<rparr>) w =
    (Inl (Err (TaskErr ErrTaskMustBeFunc)), [Nack False False],
     sig\<lparr>IgnoreWhenTaskNotRegistered := flag\<rparr>, w)"
proof -
  let ?s = "sig\<lparr>IgnoreWhenTaskNotRegistered := flag\<rparr>"
  have "callable reg (Name ?s) = None" using assms(1) by (simp add: callable_def)
  moreover have "\<not> checkTaskTimeout now ?s" using assms(2)
    by (simp add: checkTaskTimeout_def split: option.splits if_splits)
  ultimately have "disposition reg c sample_amqp now (m_retry mo) ?s = Discard" by (rule not_callable_discards)
  from process_body_Discard [OF this, where pub = pub and d = d and w = w] show ?thesis
    by (simp add: amqpProcessSignature_def)
qed

theorem ignore_flag_has_no_effect_witness:
  "fst (snd (amqpProcessSignature (\<lambda>t s w. (Inr (), s, w)) NewDefaultTaskRegistrar (Some sample_config)
     sample_moments sample_moments 0 failing_delivery
     (raw_signature\<lparr>IgnoreWhenTaskNotRegistered := True\<rparr>) (0 :: nat))) = [Nack False False]"
proof -
  have s: "registeredTasks NewDefaultTaskRegistrar (Name raw_signature) = None"
    "\<not> checkTaskTimeout 0 raw_signature"
    by (simp_all add: NewDefaultTaskRegistrar_def raw_signature_def zero_signature_def checkTaskTimeout_def)
  show ?thesis by (simp add: ignore_flag_has_no_effect [OF s])
qed

subsection \<open>The start timeout\<close>

text \<open>
  C35. A delivery is overdue exactly when its age has reached its start timeout in seconds
  (a timeout of zero means never, and so does a missing creation time). An overdue task is
  not run: what the processor does with it is the same whatever is registered. With no
  timeout queue configured it is acknowledged and nothing is sent; otherwise it is
  acknowledged exactly when a message was confirmed, and that is the message of the task with
  its start timeout cleared, sent to the timeout queue. The signature sent can never be
  overdue again, and (for a raw task) neither can the one a consumer reads from the message.
  (For ages below 292 years, the range of a duration, and a broker that does not panic.)
\<close>

theorem start_timeout_once:
  assumes "CreatedAt sig = Some t" "t \<le> now" "now - t < 2 ^ 63" "AMQP c = Some a" "wire_documented wire"
    and "never_panics (Publish (amqp_provider net) codec b) p"
    and "process_body (Publish (amqp_provider net) codec b) reg c mo now d sig p = (r, acks, sig', p')"
  shows "(checkTaskTimeout now sig \<longleftrightarrow>
      TaskTimeOut sig \<noteq> 0 \<and> sint (TaskTimeOut sig) * 1000000000 \<le> now - t) \<and>
    (checkTaskTimeout now sig \<longrightarrow>
      (\<forall>reg'. process_body (Publish (amqp_provider net) codec b) reg' c mo now d sig p = (r, acks, sig', p')) \<and>
      (TimeoutQueue a = [] \<longrightarrow> acks = [Ack False] \<and> p' = p) \<and>
      (TimeoutQueue a \<noteq> [] \<longrightarrow> (acks = [Nack False True] \<and> confirmed p' = confirmed p) \<or>
        (acks = [Ack False] \<and> (\<exists>s m. s = stamp mo (sig\<lparr>TaskTimeOut := 0, RoutingKey := TimeoutQueue a\<rparr>) \<and>
          published_message codec b (m_publish mo) s = Inr m \<and> confirmed p' = confirmed p @ [m] \<and>
          fst (snd m) = TimeoutQueue a \<and> (\<forall>later. \<not> checkTaskTimeout later s) \<and>
          (sends_raw sig \<longrightarrow> (\<exists>s'. signature_of_delivery codec (redeliver wire m) = Inr s' \<and>
             (\<forall>later. \<not> checkTaskTimeout later s')))))))"
proof -
  let ?pub = "Publish (amqp_provider net) codec b"
  have "sint (time_sub now t) = now - t"
    unfolding time_sub_def using assms(2,3) by (subst sint64_of_int) auto
  with assms(1) have iff: "checkTaskTimeout now sig \<longleftrightarrow>
      TaskTimeOut sig \<noteq> 0 \<and> sint (TaskTimeOut sig) * 1000000000 \<le> now - t"
    by (simp add: checkTaskTimeout_def)
  have same: "process_body ?pub reg' c mo now d sig p = (r, acks, sig', p')" if "checkTaskTimeout now sig" for reg'
    using assms(7) that by (simp add: process_body_def)
  have none: "acks = [Ack False] \<and> p' = p" if "checkTaskTimeout now sig" "TimeoutQueue a = []"
    using assms(4,7) that by (simp add: process_body_def pushToTimeoutAmqpQueue_def)
  have sent: "(acks = [Nack False True] \<and> confirmed p' = confirmed p) \<or>
      (acks = [Ack False] \<and> (\<exists>m. published_message codec b (m_publish mo)
         (stamp mo (sig\<lparr>TaskTimeOut := 0, RoutingKey := TimeoutQueue a\<rparr>)) = Inr m \<and> confirmed p' = confirmed p @ [m]))"
    if "checkTaskTimeout now sig" "TimeoutQueue a \<noteq> []"
  proof -
    obtain q s1 p1 where q: "SendTask ?pub mo (sig\<lparr>TaskTimeOut := 0, RoutingKey := TimeoutQueue a\<rparr>) p = (q, s1, p1)"
      by (metis prod_cases3)
    show ?thesis
    proof (cases q)
      case (Inr u)
      then have "acks = [Ack False]" "p' = p1"
        using assms(4,7) that q by (simp_all add: process_body_def pushToTimeoutAmqpQueue_def)
      with amqp.SendTask_confirmed [of net codec b mo _ p s1 p1] q Inr show ?thesis by auto
    next
      case (Inl e)
      with q SendTask_no_panic [OF assms(6)] obtain err where e: "e = Err err" by (cases e) auto
      then have "acks = [Nack False True]" "p' = p1"
        using assms(4,7) that q Inl by (simp_all add: process_body_def pushToTimeoutAmqpQueue_def)
      with amqp.SendTask_failed [OF q [unfolded Inl]] show ?thesis by simp
    qed
  qed
  show ?thesis
  proof (intro conjI impI allI)
    assume o: "checkTaskTimeout now sig" and queue: "TimeoutQueue a \<noteq> []"
    let ?s = "stamp mo (sig\<lparr>TaskTimeOut := 0, RoutingKey := TimeoutQueue a\<rparr>)"
    have never: "\<not> checkTaskTimeout later s" if "TaskTimeOut s = 0" for later s
      using that by (simp add: checkTaskTimeout_def)
    have key: "fst (snd m) = TimeoutQueue a" if "published_message codec b (m_publish mo) ?s = Inr m" for m
      using that queue by (auto simp: published_message_def published_signature_def split: sum.splits)
    have again: "\<exists>s'. signature_of_delivery codec (redeliver wire m) = Inr s' \<and> (\<forall>later. \<not> checkTaskTimeout later s')"
      if raw: "sends_raw sig" and m: "published_message codec b (m_publish mo) ?s = Inr m" for m
    proof -
      have "sends_raw ?s" "TaskTimeOut ?s = 0" using raw by (simp_all add: sends_raw_def)
      from raw_timeout_redelivered [OF assms(5) this m] never show ?thesis by blast
    qed
    have later: "\<forall>later. \<not> checkTaskTimeout later ?s" by (intro allI never) simp
    from sent [OF o queue] show "(acks = [Nack False True] \<and> confirmed p' = confirmed p) \<or>
        (acks = [Ack False] \<and> (\<exists>s m. s = ?s \<and>
          published_message codec b (m_publish mo) s = Inr m \<and> confirmed p' = confirmed p @ [m] \<and>
          fst (snd m) = TimeoutQueue a \<and> (\<forall>later. \<not> checkTaskTimeout later s) \<and>
          (sends_raw sig \<longrightarrow> (\<exists>s'. signature_of_delivery codec (redeliver wire m) = Inr s' \<and>
             (\<forall>later. \<not> checkTaskTimeout later s')))))"
    proof (elim disjE conjE exE)
      fix m
      assume m: "published_message codec b (m_publish mo) ?s = Inr m" and out: "acks = [Ack False]" "confirmed p' = confirmed p @ [m]"
      show ?thesis
        by (rule disjI2, rule conjI [OF out(1)], rule exI [of _ ?s], rule exI [of _ m],
          intro conjI refl m out key later impI again)
    qed (rule disjI1, rule conjI)
  qed (use iff same none in blast)+
qed

theorem start_timeout_once_witness:
  "case process_body (Publish (amqp_provider calm_net) no_codec sample_broker) sample_registrar sample_config
      (moment_at 5000000000) 5000000000 failing_delivery
      (raw_signature\<lparr>CreatedAt := Some 0, TaskTimeOut := 5\<rparr>) pooled_provider of
     (r, acks, sig', p') \<Rightarrow> (acks = [Nack False True] \<and> confirmed p' = []) \<or>
       (acks = [Ack False] \<and> map (\<lambda>m. fst (snd m)) (confirmed p') = [''timeout_test''])"
proof -
  let ?s = "raw_signature\<lparr>CreatedAt := Some 0, TaskTimeOut := 5\<rparr>"
  let ?pub = "Publish (amqp_provider calm_net) no_codec sample_broker"
  obtain r acks sig' p' where run: "process_body ?pub sample_registrar sample_config (moment_at 5000000000)
      5000000000 failing_delivery ?s pooled_provider = (r, acks, sig', p')" by (metis prod_cases4)
  have a: "AMQP sample_config = Some sample_amqp" "TimeoutQueue sample_amqp = ''timeout_test''"
    "1 \<le> sint (ConnectionPoolSize sample_amqp)"
    by (simp_all add: sample_config_def) (simp_all add: sample_amqp_def)
  have f: "CreatedAt ?s = Some 0" "(0 :: int) \<le> 5000000000" "(5000000000 - 0 :: int) < 2 ^ 63" by simp_all
  have quiet: "never_panics ?pub pooled_provider"
    by (rule amqp_never_panics [OF pooled_inv pooled_fields(1) a(3)])
  note main = start_timeout_once [OF f a(1) narrowing_wire_documented quiet run]
  have "TaskTimeOut ?s \<noteq> 0 \<and> sint (TaskTimeOut ?s) * 1000000000 \<le> 5000000000 - 0" by simp
  with main [THEN conjunct1] have "checkTaskTimeout 5000000000 ?s" by (rule iffD2)
  with main [THEN conjunct2] a(2) run show ?thesis by (auto simp: pooled_fields)
qed

subsection \<open>Sending\<close>

text \<open>
  C36. Every message of a task carries the same identity: a task sent without an identifier or
  a creation time gets them at the first send, those it has are kept, and what the caller's
  signature looks like after the send is sent again with the same identifier and creation
  time, at whatever time and with whatever fresh identifier at hand.
\<close>

theorem identity_is_stable:
  assumes "SendTask (Publish (amqp_provider net) codec b) mo sig p = (Inr (), sig', p')"
  shows "UUID sig' \<noteq> [] \<and> CreatedAt sig' \<noteq> None \<and>
    (UUID sig \<noteq> [] \<longrightarrow> UUID sig' = UUID sig) \<and>
    (CreatedAt sig \<noteq> None \<longrightarrow> CreatedAt sig' = CreatedAt sig) \<and>
    (\<exists>s m. UUID s = UUID sig' \<and> CreatedAt s = CreatedAt sig' \<and>
       published_message codec b (m_publish mo) s = Inr m \<and> confirmed p' = confirmed p @ [m]) \<and>
    stamp mo' sig' = sig'"
proof -
  have sig': "sig' = published_signature b (m_publish mo) (stamp mo sig)"
    using assms by (auto simp: SendTask_def SendTaskWithContext_def Publish_eq
        split: sum.splits prod.splits fault.splits)
  have id: "UUID sig' = UUID (stamp mo sig)" "CreatedAt sig' = CreatedAt (stamp mo sig)"
    by (simp_all add: sig' published_signature_def)
  have ne: "UUID sig' \<noteq> []" "CreatedAt sig' \<noteq> None" by (simp_all add: id)
  have keep: "UUID sig \<noteq> [] \<Longrightarrow> UUID (stamp mo sig) = UUID sig"
    "CreatedAt sig \<noteq> None \<Longrightarrow> CreatedAt (stamp mo sig) = CreatedAt sig"
    by (auto simp: stamp_def Let_def)
  obtain m where "published_message codec b (m_publish mo) (stamp mo sig) = Inr m" "confirmed p' = confirmed p @ [m]"
    using amqp.SendTask_confirmed [OF assms] by blast
  then have ex: "\<exists>s m. UUID s = UUID sig' \<and> CreatedAt s = CreatedAt sig' \<and>
      published_message codec b (m_publish mo) s = Inr m \<and> confirmed p' = confirmed p @ [m]"
    using id by (intro exI [of _ "stamp mo sig"] exI [of _ m]) simp
  show ?thesis
    by (intro conjI impI ne ex stamp_idem [OF ne]) (simp_all add: id keep)
qed

theorem identity_is_stable_witness:
  "\<exists>sig' p'. SendTask (Publish (amqp_provider calm_net) no_codec sample_broker) (moment_at 3)
     (raw_signature\<lparr>UUID := [], CreatedAt := None\<rparr>) pooled_provider = (Inr (), sig', p') \<and>
     stamp (moment_at 9) sig' = sig'"
proof -
  let ?s = "raw_signature\<lparr>UUID := [], CreatedAt := None\<rparr>"
  have "\<exists>m. published_message no_codec sample_broker (m_publish (moment_at 3)) (stamp (moment_at 3) ?s) = Inr m"
    by (simp add: published_message_def prepareMessageBodyAndHeaders_def sends_raw_def stamp_def
        sample_defs)
  then obtain sig' p' where run: "SendTask (Publish (amqp_provider calm_net) no_codec sample_broker)
      (moment_at 3) ?s pooled_provider = (Inr (), sig', p')"
    using calm_SendTask by blast
  from identity_is_stable [OF run, of "moment_at 9"] run show ?thesis by auto
qed

subsection \<open>Configuration\<close>

text \<open>
  C37. A configuration given by the program is stored if and only if it satisfies the
  constraints of its tags; then the provider hands it out unchanged, except that a missing
  execution limit becomes ten seconds. A rejected configuration leaves the provider as it was.
\<close>

theorem set_config_validates:
  assumes "validator_documented validate"
  shows "case SetApplicationConfig validate c cp of
     (Inr _, cp') \<Rightarrow> config_tags_ok c \<and> GetConfig cp' = Some (c\<lparr>MaxTaskExecutionDuration :=
        (if MaxTaskExecutionDuration c = 0 then 10 else MaxTaskExecutionDuration c)\<rparr>)
   | (Inl e, cp') \<Rightarrow> \<not> config_tags_ok c \<and> cp' = cp \<and> (\<exists>err. e = Err err)"
proof -
  obtain r cp' where run: "SetApplicationConfig validate c cp = (r, cp')" by fastforce
  show ?thesis
  proof (cases r)
    case (Inl e)
    have "(validate c = None) = config_tags_ok c" using assms by (simp add: validator_documented_def)
    with Inl SetApplicationConfig_rejects [of validate c cp e cp'] run show ?thesis by auto
  next
    case (Inr u)
    from SetApplicationConfig_GetConfig [of validate c cp cp'] run Inr obtain c' where
      c': "GetConfig cp' = Some c'" "validate c = None"
      "c' = c\<lparr>MaxTaskExecutionDuration := MaxTaskExecutionDuration c'\<rparr>"
      "MaxTaskExecutionDuration c' = (if MaxTaskExecutionDuration c = 0 then 10 else MaxTaskExecutionDuration c)"
      by auto
    from c'(2) assms have "config_tags_ok c" by (simp add: validator_documented_def)
    moreover have "GetConfig cp' = Some (c\<lparr>MaxTaskExecutionDuration :=
        (if MaxTaskExecutionDuration c = 0 then 10 else MaxTaskExecutionDuration c)\<rparr>)"
      using c'(1,3) unfolding c'(4) by simp
    ultimately show ?thesis by (simp only: run Inr prod.case sum.case simp_thms)
  qed
qed

definition tag_validator :: "config \<Rightarrow> goerror option" where
  "tag_validator c = (if config_tags_ok c then None else Some (LibErr ''validation failed''))"

lemma tag_validator_documented: "validator_documented tag_validator"
  by (simp add: validator_documented_def tag_validator_def)

lemma sample_config_ok: "config_tags_ok sample_config"
  by (simp add: config_tags_ok_def amqp_tags_ok_def sample_config_def sample_amqp_def)

theorem set_config_validates_witness:
  "GetConfig (snd (SetApplicationConfig tag_validator (sample_config\<lparr>MaxTaskExecutionDuration := 0\<rparr>)
     NewConfigProvider)) = Some sample_config"
proof -
  let ?c = "sample_config\<lparr>MaxTaskExecutionDuration := 0\<rparr>"
  have ok: "config_tags_ok ?c" using sample_config_ok by (simp add: config_tags_ok_def)
  have "?c\<lparr>MaxTaskExecutionDuration := 10\<rparr> = sample_config" by (simp add: sample_config_def)
  with set_config_validates [OF tag_validator_documented, of ?c NewConfigProvider] ok show ?thesis
    by (auto split: prod.splits sum.splits)
qed

text \<open>
  C38. Reading the environment parses into the stored configuration before validating it: when
  the validation fails the caller gets the error, but the invalid configuration stays stored,
  and \<open>GetConfig\<close> hands it out from then on.
\<close>

theorem env_keeps_invalid_config:
  assumes "parse (applicationConfig cp) = (cfg, None)" "validate cfg = Some e" "cfg \<noteq> empty_config"
  shows "\<exists>cp'. ReadFromEnv validate parse cp = (Inl (Err e), cp') \<and> GetConfig cp' = Some cfg"
  using assms by (simp add: ReadFromEnv_def ValidateConfig_def GetConfig_def go_fail_def)

theorem env_keeps_invalid_config_witness:
  "\<exists>e cp'. ReadFromEnv tag_validator (\<lambda>c. (sample_config\<lparr>Broker := ''redis''\<rparr>, None)) NewConfigProvider =
     (Inl (Err e), cp') \<and> GetConfig cp' = Some (sample_config\<lparr>Broker := ''redis''\<rparr>)"
proof -
  let ?c = "sample_config\<lparr>Broker := ''redis''\<rparr>"
  have v: "tag_validator ?c = Some (LibErr ''validation failed'')" "?c \<noteq> empty_config"
    by (simp_all add: tag_validator_def config_tags_ok_def sample_config_def empty_config_def)
  show ?thesis
    using env_keeps_invalid_config [where parse = "\<lambda>c. (?c, None)" and cp = NewConfigProvider
        and validate = tag_validator, OF refl v] by blast
qed

end
