(* ===== verification/Work_Group.thy ===== *)
theory Work_Group
  imports Go_Effects "HOL-Library.Signed_Division"
begin

section \<open>The worker group (internal/workergroup/workergroup.go)\<close>

text \<open>
  A fixed number of workers, each with an unbuffered job channel and the goroutines that read
  it, and the round-robin hand-over of jobs. \<open>AssignJob\<close> holds the mutex from the choice of a
  worker until that worker has taken the job, so a hand-over has two steps: the choice
  (\<open>select_worker\<close>), after which the job is \<open>pending\<close>, and the rendezvous on the channel.
  \<open>handed\<close> lists the jobs \<open>AssignJob\<close> was called with, \<open>processed\<close> the jobs that
  \<open>Processor\<close> has returned from, each with the index of its worker: both only record history.
\<close>

datatype 'j goroutine = Receiving | Processing 'j | Exited

record 'j worker =
  WorkerID :: "64 word"
  channel_closed :: bool
  goroutines :: "'j goroutine list"

record 'j work_group =
  Namespace :: string
  Concurrency :: "64 word"
  Workers :: "'j worker list"
  lastAssignedWorkerIndex :: goint
  pending :: "(nat \<times> 'j) option"
  handed_jobs :: "'j list"
  processed :: "(nat \<times> 'j) list"

definition NewWorkerGroup :: "64 word \<Rightarrow> string \<Rightarrow> 'j work_group" where
  "NewWorkerGroup concurrency namespace =
     \<lparr>Namespace = namespace, Concurrency = concurrency,
      Workers = map (\<lambda>i. \<lparr>WorkerID = of_nat i, channel_closed = False, goroutines = []\<rparr>)
        [0 ..< unat concurrency],
      lastAssignedWorkerIndex = 0, pending = None, handed_jobs = [], processed = []\<rparr>"

definition GetWorkerGroupName :: "'j work_group \<Rightarrow> string" where
  "GetWorkerGroupName wg = Namespace wg"

text \<open>\<open>Start\<close> runs one more goroutine on each of the first \<open>Concurrency\<close> workers.\<close>

definition StartGroup :: "('j work_group, unit) go" where
  "StartGroup wg =
     (if length (Workers wg) < unat (Concurrency wg)
      then (Inl (Panic ''index out of range''), wg)
      else (Inr (), wg\<lparr>Workers :=
        map (\<lambda>w. w\<lparr>goroutines := goroutines w @ [Receiving]\<rparr>) (take (unat (Concurrency wg)) (Workers wg))
        @ drop (unat (Concurrency wg)) (Workers wg)\<rparr>))"

text \<open>\<open>Stop\<close> closes the channels in order; closing a closed channel panics.\<close>

fun close_channels :: "'j worker list \<Rightarrow> (fault + unit) \<times> 'j worker list" where
  "close_channels [] = (Inr (), [])"
| "close_channels (w # ws) =
     (if channel_closed w then (Inl (Panic ''close of closed channel''), w # ws)
      else (case close_channels ws of (r, ws') \<Rightarrow> (r, w\<lparr>channel_closed := True\<rparr> # ws')))"

definition StopGroup :: "('j work_group, unit) go" where
  "StopGroup wg = (case close_channels (Workers wg) of (r, ws) \<Rightarrow> (r, wg\<lparr>Workers := ws\<rparr>))"

text \<open>
  The first part of \<open>AssignJob\<close>, up to the send. Go's remainder has the sign of the dividend
  (\<open>smod\<close>), and a division by zero panics.
\<close>

definition select_worker :: "'j \<Rightarrow> ('j work_group, nat) go" where
  "select_worker job wg =
     (if Workers wg = [] then (Inl (Panic ''integer divide by zero''), wg)
      else (let i = sint (lastAssignedWorkerIndex wg + 1) smod int (length (Workers wg));
                wg' = wg\<lparr>lastAssignedWorkerIndex := word_of_int i\<rparr>
            in if i < 0 then (Inl (Panic ''index out of range''), wg')
               else (Inr (nat i), wg'\<lparr>pending := Some (nat i, job), handed_jobs := handed_jobs wg @ [job]\<rparr>)))"

text \<open>
  The second part: the send panics on a closed channel; otherwise it succeeds when the \<open>g\<close>-th
  goroutine of the worker is at its receive, and the call returns.
\<close>

definition send_job :: "nat \<Rightarrow> ('j work_group, unit) go" where
  "send_job g wg = (case pending wg of
     None \<Rightarrow> (Inr (), wg)
   | Some (i, job) \<Rightarrow>
      (if channel_closed (Workers wg ! i)
       then (Inl (Panic ''send on closed channel''), wg\<lparr>pending := None\<rparr>)
       else (Inr (), wg\<lparr>pending := None, Workers := (Workers wg)[i := (Workers wg ! i)
         \<lparr>goroutines := (goroutines (Workers wg ! i))[g := Processing job]\<rparr>]\<rparr>)))"

definition set_goroutine :: "nat \<Rightarrow> nat \<Rightarrow> 'j goroutine \<Rightarrow> 'j work_group \<Rightarrow> 'j work_group" where
  "set_goroutine i g x wg = wg\<lparr>Workers := (Workers wg)[i := (Workers wg ! i)
     \<lparr>goroutines := (goroutines (Workers wg ! i))[g := x]\<rparr>]\<rparr>"

definition goroutine_at :: "'j work_group \<Rightarrow> nat \<Rightarrow> nat \<Rightarrow> 'j goroutine option" where
  "goroutine_at wg i g =
     (if i < length (Workers wg) \<and> g < length (goroutines (Workers wg ! i))
      then Some (goroutines (Workers wg ! i) ! g) else None)"

text \<open>
  The loop of \<open>work\<close>: a goroutine that has processed its job reports it and receives again,
  and one at its receive leaves when the channel is closed.
\<close>

inductive worker_step :: "'j work_group \<Rightarrow> 'j work_group \<Rightarrow> bool" where
  finish: "goroutine_at wg i g = Some (Processing j) \<Longrightarrow>
    worker_step wg (set_goroutine i g Receiving (wg\<lparr>processed := processed wg @ [(i, j)]\<rparr>))"
| leave: "goroutine_at wg i g = Some Receiving \<Longrightarrow> channel_closed (Workers wg ! i) \<Longrightarrow>
    worker_step wg (set_goroutine i g Exited wg)"

inductive group_step :: "'j work_group \<Rightarrow> 'j work_group \<Rightarrow> bool" where
  select: "pending wg = None \<Longrightarrow> select_worker j wg = (Inr i, wg') \<Longrightarrow> group_step wg wg'"
| send: "pending wg = Some (i, j) \<Longrightarrow> goroutine_at wg i g = Some Receiving \<Longrightarrow>
    send_job g wg = (Inr (), wg') \<Longrightarrow> group_step wg wg'"
| work: "worker_step wg wg' \<Longrightarrow> group_step wg wg'"
| stop: "StopGroup wg = (Inr (), wg') \<Longrightarrow> group_step wg wg'"

inductive group_reach :: "64 word \<Rightarrow> string \<Rightarrow> 'j work_group \<Rightarrow> bool" for n ns where
  start: "StartGroup (NewWorkerGroup n ns) = (Inr (), wg) \<Longrightarrow> group_reach n ns wg"
| step: "group_reach n ns wg \<Longrightarrow> group_step wg wg' \<Longrightarrow> group_reach n ns wg'"

inductive_cases worker_stepE: "worker_step wg wg'"
inductive_cases group_stepE: "group_step wg wg'"

subsection \<open>What a worker has taken\<close>

text \<open>
  The jobs the group has given to worker \<open>i\<close>, oldest first: those it has processed, the one
  it is processing and the one waiting at its channel; and the reference: the jobs at every
  \<open>n\<close>-th position of the hand-over order, worker 1 first.
\<close>

fun job_of :: "'j goroutine \<Rightarrow> 'j list" where
  "job_of (Processing j) = [j]"
| "job_of Receiving = []"
| "job_of Exited = []"

definition done_by :: "'j work_group \<Rightarrow> nat \<Rightarrow> 'j list" where
  "done_by wg i = map snd (filter (\<lambda>x. fst x = i) (processed wg))"

definition in_hand :: "'j work_group \<Rightarrow> nat \<Rightarrow> 'j list" where
  "in_hand wg i = concat (map job_of (goroutines (Workers wg ! i)))"

definition waiting_for :: "'j work_group \<Rightarrow> nat \<Rightarrow> 'j list" where
  "waiting_for wg i = (case pending wg of None \<Rightarrow> [] | Some (k, j) \<Rightarrow> if k = i then [j] else [])"

definition taken_by :: "'j work_group \<Rightarrow> nat \<Rightarrow> 'j list" where
  "taken_by wg i = done_by wg i @ in_hand wg i @ waiting_for wg i"

definition dealt :: "nat \<Rightarrow> nat \<Rightarrow> 'j list \<Rightarrow> 'j list" where
  "dealt n i js = map ((!) js) (filter (\<lambda>k. Suc k mod n = i) [0 ..< length js])"

lemma dealt_Nil [simp]: "dealt n i [] = []"
  by (simp add: dealt_def)

lemma dealt_snoc [simp]:
  "dealt n i (js @ [j]) = dealt n i js @ (if Suc (length js) mod n = i then [j] else [])"
  by (simp add: dealt_def nth_append)

definition group_inv :: "nat \<Rightarrow> 'j work_group \<Rightarrow> bool" where
  "group_inv n wg \<longleftrightarrow> length (Workers wg) = n \<and>
     (\<forall>i < n. length (goroutines (Workers wg ! i)) = 1) \<and>
     lastAssignedWorkerIndex wg = of_nat (length (handed_jobs wg) mod n) \<and>
     (\<forall>i j. pending wg = Some (i, j) \<longrightarrow> i < n) \<and>
     (\<forall>i < n. taken_by wg i = dealt n i (handed_jobs wg))"

lemma next_index:
  assumes "0 < n" "int n < 2 ^ 63"
  shows "sint (of_nat (m mod n) + 1 :: 64 word) smod int n = int (Suc m mod n)"
proof -
  have lt: "m mod n < n" using assms by simp
  then have "sint (word_of_int (int (m mod n) + 1) :: 64 word) = int (m mod n) + 1"
    using assms by (intro sint64_of_int) linarith+
  moreover have "(of_nat (m mod n) + 1 :: 64 word) = word_of_int (int (m mod n) + 1)"
    by (simp only: of_int_add of_int_of_nat_eq of_int_1)
  moreover have "0 \<le> int (m mod n) + 1" "0 \<le> int n" by linarith+
  ultimately have "sint (of_nat (m mod n) + 1 :: 64 word) smod int n = (int (m mod n) + 1) mod int n"
    by (simp only: smod_mod_positive)
  also have "\<dots> = int (Suc m mod n)"
    by (metis mod_Suc_eq of_nat_Suc add.commute zmod_int)
  finally show ?thesis .
qed

lemma select_worker_eq:
  assumes "0 < n" "int n < 2 ^ 63" "length (Workers wg) = n"
    and "lastAssignedWorkerIndex wg = of_nat (length (handed_jobs wg) mod n)"
  shows "select_worker j wg =
    (Inr (Suc (length (handed_jobs wg)) mod n),
     wg\<lparr>lastAssignedWorkerIndex := of_nat (Suc (length (handed_jobs wg)) mod n),
        pending := Some (Suc (length (handed_jobs wg)) mod n, j),
        handed_jobs := handed_jobs wg @ [j]\<rparr>)"
  using assms by (auto simp: select_worker_def next_index Let_def)

lemma goroutine_at_single:
  assumes "group_inv n wg" "goroutine_at wg i g = Some x"
  shows "i < n" "g = 0" "goroutines (Workers wg ! i) = [x]"
  using assms by (auto simp: group_inv_def goroutine_at_def length_Suc_conv split: if_splits)

text \<open>Setting the only goroutine of a worker changes what this worker holds, and nothing else.\<close>

lemma in_hand_set:
  assumes "group_inv n wg" "goroutine_at wg i g = Some x" "k < n"
  shows "in_hand (set_goroutine i g y wg) k = (if k = i then job_of y else in_hand wg k)"
proof -
  note at = goroutine_at_single [OF assms(1,2)]
  have "length (Workers wg) = n" using assms(1) by (simp add: group_inv_def)
  with at assms(3) show ?thesis by (simp add: in_hand_def set_goroutine_def)
qed

lemma group_inv_set:
  assumes "group_inv n wg" "goroutine_at wg i g = Some x"
  shows "length (Workers (set_goroutine i g y wg)) = n"
    "\<forall>k < n. length (goroutines (Workers (set_goroutine i g y wg) ! k)) = 1"
  using assms(1) goroutine_at_single [OF assms]
  by (auto simp: group_inv_def set_goroutine_def nth_list_update)

lemma send_job_set:
  "send_job g wg = (Inr (), wg') \<Longrightarrow> pending wg = Some (i, j) \<Longrightarrow>
   wg' = (set_goroutine i g (Processing j) wg)\<lparr>pending := None\<rparr>"
  by (auto simp: send_job_def set_goroutine_def split: if_splits)

lemma set_goroutine_fields [simp]:
  "pending (set_goroutine i g y wg) = pending wg"
  "handed_jobs (set_goroutine i g y wg) = handed_jobs wg"
  "processed (set_goroutine i g y wg) = processed wg"
  "lastAssignedWorkerIndex (set_goroutine i g y wg) = lastAssignedWorkerIndex wg"
  by (simp_all add: set_goroutine_def)

lemma close_channels_same:
  "close_channels ws = (r, ws') \<Longrightarrow> map goroutines ws' = map goroutines ws"
  by (induction ws arbitrary: r ws') (auto split: if_splits prod.splits)

lemma group_inv_start:
  assumes "StartGroup (NewWorkerGroup n ns) = (r, wg)"
  shows "r = Inr ()" "group_inv (unat n) wg" "pending wg = None"
    "\<forall>w \<in> set (Workers wg). \<not> channel_closed w"
  using assms
  by (auto simp: StartGroup_def NewWorkerGroup_def group_inv_def taken_by_def done_by_def in_hand_def
      waiting_for_def)

lemma stop_same:
  assumes "StopGroup wg = (r, wg')"
  shows "map goroutines (Workers wg') = map goroutines (Workers wg)" "pending wg' = pending wg"
    "handed_jobs wg' = handed_jobs wg" "processed wg' = processed wg"
    "lastAssignedWorkerIndex wg' = lastAssignedWorkerIndex wg"
  using assms by (auto simp: StopGroup_def split: prod.splits dest: close_channels_same)

lemma group_inv_same:
  assumes "group_inv n wg" "map goroutines (Workers wg') = map goroutines (Workers wg)"
    and "pending wg' = pending wg" "handed_jobs wg' = handed_jobs wg"
    and "processed wg' = processed wg" "lastAssignedWorkerIndex wg' = lastAssignedWorkerIndex wg"
  shows "group_inv n wg'"
proof -
  have len: "length (Workers wg') = length (Workers wg)" using assms(2) by (rule map_eq_imp_length_eq)
  have "goroutines (Workers wg' ! i) = goroutines (Workers wg ! i)" if "i < length (Workers wg)" for i
    using assms(2) that len by (metis nth_map)
  with assms(1,3-6) len show ?thesis
    by (simp add: group_inv_def taken_by_def done_by_def in_hand_def waiting_for_def)
qed

lemma select_inv:
  assumes "group_inv n wg" "0 < n" "int n < 2 ^ 63" "pending wg = None"
    and "select_worker j wg = (Inr i, wg')"
  shows "group_inv n wg'"
proof -
  have "wg' = wg\<lparr>lastAssignedWorkerIndex := of_nat (Suc (length (handed_jobs wg)) mod n),
        pending := Some (Suc (length (handed_jobs wg)) mod n, j),
        handed_jobs := handed_jobs wg @ [j]\<rparr>"
    using assms(5) select_worker_eq [OF assms(2,3), of wg j] assms(1) unfolding group_inv_def by auto
  with assms(1,2,4) show ?thesis
    by (auto simp: group_inv_def taken_by_def done_by_def in_hand_def waiting_for_def)
qed

lemma send_inv:
  assumes "group_inv n wg" "pending wg = Some (i, j)" "goroutine_at wg i g = Some Receiving"
    and "send_job g wg = (Inr (), wg')"
  shows "group_inv n wg'"
proof -
  note wg' = send_job_set [OF assms(4,2)]
  note at = goroutine_at_single [OF assms(1,3)]
  have hand: "in_hand wg' k = (if k = i then [j] else in_hand wg k)" if "k < n" for k
    using in_hand_set [OF assms(1,3) that, of "Processing j"] by (simp add: wg' in_hand_def)
  have "in_hand wg i = []" using at by (simp add: in_hand_def)
  with assms(1,2) hand group_inv_set [OF assms(1,3), of "Processing j"] show ?thesis
    by (auto simp: group_inv_def taken_by_def done_by_def waiting_for_def wg')
qed

lemma worker_step_inv:
  assumes "group_inv n wg" "worker_step wg wg'"
  shows "group_inv n wg'"
  using assms(2)
proof (cases rule: worker_step.cases)
  case (finish i g j)
  note at = goroutine_at_single [OF assms(1) finish(2)]
  let ?wg = "wg\<lparr>processed := processed wg @ [(i, j)]\<rparr>"
  have set: "set_goroutine i g Receiving ?wg = (set_goroutine i g Receiving wg)\<lparr>processed := processed wg @ [(i, j)]\<rparr>"
    by (simp add: set_goroutine_def)
  have hand: "in_hand wg' k = (if k = i then [] else in_hand wg k)" if "k < n" for k
    using in_hand_set [OF assms(1) finish(2) that, of Receiving] by (simp add: finish(1) set in_hand_def)
  have "in_hand wg i = [j]" using at by (simp add: in_hand_def)
  with assms(1) hand group_inv_set [OF assms(1) finish(2), of Receiving] show ?thesis
    by (auto simp: group_inv_def taken_by_def done_by_def waiting_for_def finish(1) set)
next
  case (leave i g)
  note at = goroutine_at_single [OF assms(1) leave(2)]
  have hand: "in_hand wg' k = in_hand wg k" if "k < n" for k
    using in_hand_set [OF assms(1) leave(2) that, of Exited] at by (auto simp: leave(1) in_hand_def)
  with assms(1) group_inv_set [OF assms(1) leave(2), of Exited] show ?thesis
    by (auto simp: group_inv_def taken_by_def done_by_def waiting_for_def leave(1))
qed

lemma group_step_inv:
  assumes "group_step wg wg'" "group_inv n wg" "0 < n" "int n < 2 ^ 63"
  shows "group_inv n wg'"
  using assms(1)
proof (cases rule: group_step.cases)
  case stop
  then show ?thesis using stop_same assms(2) by (blast intro: group_inv_same)
qed (use assms(2-4) in \<open>blast intro: select_inv send_inv worker_step_inv\<close>)+

lemma group_reach_inv:
  assumes "group_reach n ns wg" "0 < unat n" "int (unat n) < 2 ^ 63"
  shows "group_inv (unat n) wg"
  using assms(1)
proof (induction rule: group_reach.induct)
  case (start wg)
  then show ?case by (rule group_inv_start(2))
next
  case (step wg wg')
  then show ?case using assms(2,3) by (blast intro: group_step_inv)
qed

subsection \<open>A whole call of AssignJob on a group that is running\<close>

text \<open>
  One schedule of the call: the chosen worker first finishes the job it has, if any, and then
  takes the new one. On a running group it is a path of the step relation
  (\<open>AssignJob_running\<close>). It is not meant for a group that was not started, on which the call
  would block: no goroutine reads the channel.
\<close>

definition AssignJob :: "'j \<Rightarrow> ('j work_group, unit) go" where
  "AssignJob job = go_bind (select_worker job) (\<lambda>i wg.
     send_job 0 (case goroutine_at wg i 0 of
         Some (Processing j) \<Rightarrow> set_goroutine i 0 Receiving (wg\<lparr>processed := processed wg @ [(i, j)]\<rparr>)
       | _ \<Rightarrow> wg))"

text \<open>The goroutine of one worker over the jobs it takes: an error is only logged.\<close>

fun work :: "('j \<Rightarrow> ('s, unit) go) \<Rightarrow> 'j list \<Rightarrow> ('s, unit) go" where
  "work processor [] s = (Inr (), s)"
| "work processor (job # jobs) s = (case processor job s of
     (Inl (Panic m), s') \<Rightarrow> (Inl (Panic m), s')
   | (Inl (Err _), s') \<Rightarrow> work processor jobs s'
   | (Inr _, s') \<Rightarrow> work processor jobs s')"

text \<open>A group of \<open>n\<close> workers that runs: nobody hands a job over, no channel is closed, no worker has left.\<close>

definition all_serving :: "'j worker list \<Rightarrow> bool" where
  "all_serving ws \<longleftrightarrow> (\<forall>w \<in> set ws. \<not> channel_closed w \<and> Exited \<notin> set (goroutines w))"

definition running :: "nat \<Rightarrow> 'j work_group \<Rightarrow> bool" where
  "running n wg \<longleftrightarrow> group_inv n wg \<and> 0 < n \<and> int n < 2 ^ 63 \<and> pending wg = None \<and>
     all_serving (Workers wg)"

lemma running_start:
  assumes "0 < unat n" "int (unat n) < 2 ^ 63" "StartGroup (NewWorkerGroup n ns) = (r, wg)"
  shows "running (unat n) wg" "handed_jobs wg = []" "Namespace wg = ns"
proof -
  have "all_serving (Workers wg)"
    using assms(3) by (auto simp: StartGroup_def NewWorkerGroup_def all_serving_def)
  with group_inv_start [OF assms(3)] assms(1,2) show "running (unat n) wg"
    by (auto simp: running_def)
  from assms(3) show "handed_jobs wg = []" "Namespace wg = ns"
    by (auto simp: StartGroup_def NewWorkerGroup_def)
qed

lemma all_serving_set:
  assumes "all_serving (Workers wg)" "y \<noteq> Exited" "i < length (Workers wg)"
  shows "all_serving (Workers (set_goroutine i g y wg))"
proof -
  let ?w = "(Workers wg ! i)\<lparr>goroutines := (goroutines (Workers wg ! i))[g := y]\<rparr>"
  have "Workers wg ! i \<in> set (Workers wg)" using assms(3) by simp
  with assms(1) have w: "\<not> channel_closed (Workers wg ! i)" "Exited \<notin> set (goroutines (Workers wg ! i))"
    by (auto simp: all_serving_def)
  then have "Exited \<notin> set (goroutines ?w)"
    using assms(2) set_update_subset_insert [of "goroutines (Workers wg ! i)" g y] by auto
  with w(1) assms(1) show ?thesis
    using set_update_subset_insert [of "Workers wg" i ?w]
    by (fastforce simp: all_serving_def set_goroutine_def)
qed

lemma AssignJob_running:
  assumes run: "running n wg"
  shows "\<exists>wg'. AssignJob j wg = (Inr (), wg') \<and> running n wg' \<and>
    handed_jobs wg' = handed_jobs wg @ [j] \<and> group_step\<^sup>*\<^sup>* wg wg'"
proof -
  define i where "i = Suc (length (handed_jobs wg)) mod n"
  from run have n: "group_inv n wg" "0 < n" "int n < 2 ^ 63" "pending wg = None" "all_serving (Workers wg)"
    by (auto simp: running_def)
  then have len: "length (Workers wg) = n" by (simp add: group_inv_def)
  define wg1 where "wg1 = wg\<lparr>lastAssignedWorkerIndex := of_nat i, pending := Some (i, j),
    handed_jobs := handed_jobs wg @ [j]\<rparr>"
  have sel: "select_worker j wg = (Inr i, wg1)"
    using select_worker_eq [OF n(2,3), of wg j] n(1) by (auto simp: group_inv_def i_def wg1_def)
  have inv1: "group_inv n wg1" by (rule select_inv [OF n(1-4) sel])
  have s1: "group_step wg wg1" by (rule group_step.select [OF n(4) sel])
  have i: "i < length (Workers wg1)" "i < n" using n(2) by (simp_all add: i_def wg1_def len)
  obtain x where x: "goroutines (Workers wg1 ! i) = [x]" "x \<noteq> Exited"
    using inv1 i n(5) by (auto simp: group_inv_def length_Suc_conv all_serving_def wg1_def)
      (metis list.set_intros(1) nth_mem)
  define wg2 where "wg2 = (case goroutine_at wg1 i 0 of
      Some (Processing j) \<Rightarrow> set_goroutine i 0 Receiving (wg1\<lparr>processed := processed wg1 @ [(i, j)]\<rparr>)
    | _ \<Rightarrow> wg1)"
  have at1: "goroutine_at wg1 i 0 = Some x" using i x by (simp add: goroutine_at_def)
  have s2: "worker_step\<^sup>*\<^sup>* wg1 wg2" "group_inv n wg2"
    using at1 x(2) inv1 worker_step.finish [of wg1 i 0] worker_step_inv [OF inv1]
    by (cases x; force simp: wg2_def)+
  have wg2: "pending wg2 = Some (i, j)" "handed_jobs wg2 = handed_jobs wg @ [j]"
    "goroutine_at wg2 i 0 = Some Receiving" "all_serving (Workers wg2)" "length (Workers wg2) = n"
    using at1 x i n(5) all_serving_set [of wg1 Receiving i 0]
    by (cases x; simp add: wg2_def goroutine_at_def set_goroutine_def; simp add: wg1_def len)+
  define wg3 where "wg3 = (set_goroutine i 0 (Processing j) wg2)\<lparr>pending := None\<rparr>"
  have i2: "i < length (Workers wg2)" using i wg2(5) by simp
  then have "\<not> channel_closed (Workers wg2 ! i)" using wg2(4) by (auto simp: all_serving_def)
  then have snd: "send_job 0 wg2 = (Inr (), wg3)"
    using wg2(1) by (simp add: send_job_def wg3_def set_goroutine_def)
  have s3: "group_step wg2 wg3" by (rule group_step.send [OF wg2(1,3) snd])
  have inv3: "group_inv n wg3" by (rule send_inv [OF s2(2) wg2(1,3) snd])
  have "all_serving (Workers wg3)"
    using all_serving_set [OF wg2(4) _ i2, of "Processing j" 0] by (simp add: wg3_def)
  then have "running n wg3" using inv3 n(2,3) by (auto simp: running_def wg3_def)
  moreover have "AssignJob j wg = (Inr (), wg3)"
    using sel snd by (simp add: AssignJob_def go_bind_def wg2_def)
  moreover have "group_step\<^sup>*\<^sup>* wg1 wg2"
    using s2(1) by (induction rule: rtranclp.induct) (auto intro: group_step.work rtranclp.rtrancl_into_rtrancl)
  then have "group_step\<^sup>*\<^sup>* wg wg3" using s1 s3 by (meson converse_rtranclp_into_rtranclp rtranclp.rtrancl_into_rtrancl)
  moreover have "handed_jobs wg3 = handed_jobs wg @ [j]" by (simp add: wg3_def wg2)
  ultimately show ?thesis by blast
qed

lemma no_workers_panic:
  "AssignJob job (NewWorkerGroup 0 ns) =
     (Inl (Panic ''integer divide by zero''), NewWorkerGroup 0 ns)"
  by (simp add: AssignJob_def go_bind_def select_worker_def NewWorkerGroup_def)

text \<open>
  What the consumer relies on of a worker group: while the group is ready a call of
  \<open>AssignJob\<close> returns, hands over the one job, and leaves the group ready.
\<close>

locale job_sink =
  fixes assign :: "'j \<Rightarrow> ('g, unit) go"
    and jobs :: "'g \<Rightarrow> 'j list"
    and ready :: "'g \<Rightarrow> bool"
  assumes assign_ready: "ready g \<Longrightarrow>
    \<exists>g'. assign j g = (Inr (), g') \<and> ready g' \<and> jobs g' = jobs g @ [j]"

interpretation group: job_sink AssignJob handed_jobs "running n" for n
proof unfold_locales
  fix g :: "'j work_group" and j
  assume "running n g"
  from AssignJob_running [OF this, of j]
  show "\<exists>g'. AssignJob j g = (Inr (), g') \<and> running n g' \<and> handed_jobs g' = handed_jobs g @ [j]"
    by (elim exE conjE) (intro exI conjI)
qed

end
