(* ===== verification/Amqp_Consumer.thy ===== *)
theory Amqp_Consumer
  imports Task_Registrar Work_Group
begin

section \<open>The AMQP consumer (StartConsumer and StopConsumer of broker.go)\<close>

text \<open>
  The consumer of one call of \<open>StartConsumer\<close>: it borrows a connection, opens a channel,
  subscribes to the task queue and hands deliveries over to the worker group until an event
  ends it; the channel and the connection are given back by deferred calls. The state has the
  provider's side \<open>prov\<close>, the worker group \<open>grp\<close>, the counter of the broker's
  \<^verbatim>\<open>processingWG\<close>, the deliveries it has rejected with \<^verbatim>\<open>Nack(false, false)\<close>, and the
  number of values it has sent on \<^verbatim>\<open>doneStopChannel\<close>.

  The \<^verbatim>\<open>select\<close> takes the ready events in any order, so a call that returns has taken some
  deliveries \<open>ds\<close> and then an event \<open>fin\<close> that ends it; a call that is never ended does not
  return. (\<^verbatim>\<open>errorsChan\<close> is a local channel that nothing is sent to, so its case is never
  taken.) \<open>env k\<close> is what the network and the rest of the process do to the provider before
  the \<^verbatim>\<open>select\<close> at which \<open>k\<close> of the deliveries are still to come, an empty delivery and the
  event that ends the call included. \<open>nack d\<close> is the error \<^verbatim>\<open>Nack\<close> returns on \<open>d\<close>.
\<close>

record ('w, 'g) consumer =
  prov :: 'w
  grp :: 'g
  processingWG :: int
  nacked :: "delivery list"
  done_stops :: nat

datatype consumer_end =
    Cancelled string
  | AmqpErrorEvent "string option"
  | ConnClosed "string option"
  | ChClosed "string option"
  | DeliveriesClosed
  | StopRequest

definition on_prov :: "('w, 'a) go \<Rightarrow> (('w, 'g) consumer, 'a) go" where
  "on_prov m s = (case m (prov s) of (r, w) \<Rightarrow> (r, s\<lparr>prov := w\<rparr>))"

definition on_grp :: "('g, 'a) go \<Rightarrow> (('w, 'g) consumer, 'a) go" where
  "on_grp m s = (case m (grp s) of (r, g) \<Rightarrow> (r, s\<lparr>grp := g\<rparr>))"

definition processDelivery :: "(delivery \<Rightarrow> goerror option) \<Rightarrow> (delivery \<Rightarrow> ('g, unit) go) \<Rightarrow>
    delivery \<Rightarrow> (('w, 'g) consumer, unit) go" where
  "processDelivery nack assign amqpMsg =
     go_defer (go_update (\<lambda>s. s\<lparr>processingWG := processingWG s - 1\<rparr>))
      (if Body amqpMsg = []
       then go_seq (go_update (\<lambda>s. s\<lparr>nacked := nacked s @ [amqpMsg]\<rparr>))
         (case nack amqpMsg of
            Some err \<Rightarrow> go_fail (Err err)
          | None \<Rightarrow> go_fail (Err (BrokerErr ErrEmptyMessage)))
       else on_grp (assign amqpMsg))"

text \<open>
  The event that ends the call. A close notification without an error carries a nil
  \<^verbatim>\<open>*amqp.Error\<close>, which becomes an \<^verbatim>\<open>error\<close> that is not nil.
\<close>

fun end_consumer :: "consumer_end \<Rightarrow> (('w, 'g) consumer, unit) go" where
  "end_consumer (Cancelled tag) = go_fail (Err (TextErr (''consumer cancelled by broker: '' @ tag)))"
| "end_consumer (AmqpErrorEvent amqpErr) = go_fail (Err (AmqpErr amqpErr))"
| "end_consumer (ConnClosed err) = go_fail (Err (AmqpErr err))"
| "end_consumer (ChClosed err) = go_fail (Err (AmqpErr err))"
| "end_consumer DeliveriesClosed = go_fail (Err (BrokerErr ErrEmptyMessage))"
| "end_consumer StopRequest = go_update (\<lambda>s. s\<lparr>done_stops := Suc (done_stops s)\<rparr>)"

fun consume_loop :: "(delivery \<Rightarrow> goerror option) \<Rightarrow> (delivery \<Rightarrow> ('g, unit) go) \<Rightarrow>
    (nat \<Rightarrow> 'w \<Rightarrow> 'w) \<Rightarrow> delivery list \<Rightarrow> consumer_end \<Rightarrow> (('w, 'g) consumer, unit) go" where
  "consume_loop nack assign env [] fin =
     go_seq (on_prov (go_update (env 0))) (end_consumer fin)"
| "consume_loop nack assign env (d # ds) fin =
     go_seq (on_prov (go_update (env (length (d # ds)))))
      (go_seq (go_update (\<lambda>s. s\<lparr>processingWG := processingWG s + 1\<rparr>))
       (go_seq (processDelivery nack assign d) (consume_loop nack assign env ds fin)))"

definition StartConsumer :: "'w amqp_iface \<Rightarrow> amqp_broker \<Rightarrow> (delivery \<Rightarrow> goerror option) \<Rightarrow>
    (delivery \<Rightarrow> ('g, unit) go) \<Rightarrow> string \<Rightarrow> (nat \<Rightarrow> 'w \<Rightarrow> 'w) \<Rightarrow> delivery list \<Rightarrow> consumer_end \<Rightarrow>
    (('w, 'g) consumer, unit) go" where
  "StartConsumer ap b nack assign groupName env ds fin =
     go_bind (on_prov (getConnection ap)) (\<lambda>conn.
       go_defer (on_prov (i_ReleaseConnectionToPool ap (IfConn conn)))
        (go_bind (on_prov (i_CreateAmqpChannel ap conn False)) (\<lambda>(channel, _).
           go_defer (on_prov (i_CloseAmqpChannel ap channel))
            (go_seq (on_prov (i_SetChannelQoS ap channel (getQueuePrefetchCount b)))
              (go_seq (on_prov (i_CreateConsumer ap channel (getTaskQueue b) groupName))
                (consume_loop nack assign env ds fin))))))"

subsection \<open>Weakest preconditions of the lifted operations\<close>

lemma wp_on_prov [wp_simps]: "wp (on_prov m) Q s = wp m (\<lambda>r w. Q r (s\<lparr>prov := w\<rparr>)) (prov s)"
  by (simp add: wp_def on_prov_def split: prod.splits)

lemma wp_on_grp [wp_simps]: "wp (on_grp m) Q s = wp m (\<lambda>r g. Q r (s\<lparr>grp := g\<rparr>)) (grp s)"
  by (simp add: wp_def on_grp_def split: prod.splits)

text \<open>What the loop does to the group's side, over the contract of a job sink.\<close>

definition end_error :: "consumer_end \<Rightarrow> fault + unit" where
  "end_error fin = (case fin of
     Cancelled tag \<Rightarrow> Inl (Err (TextErr (''consumer cancelled by broker: '' @ tag)))
   | AmqpErrorEvent e \<Rightarrow> Inl (Err (AmqpErr e))
   | ConnClosed e \<Rightarrow> Inl (Err (AmqpErr e))
   | ChClosed e \<Rightarrow> Inl (Err (AmqpErr e))
   | DeliveriesClosed \<Rightarrow> Inl (Err (BrokerErr ErrEmptyMessage))
   | StopRequest \<Rightarrow> Inr ())"

lemma end_error_nil: "end_error fin = Inr () \<longleftrightarrow> fin = StopRequest"
  by (simp add: end_error_def split: consumer_end.split)

lemma end_consumer_eq:
  "end_consumer fin s =
     (end_error fin, s\<lparr>done_stops := done_stops s + (if fin = StopRequest then 1 else 0)\<rparr>)"
  by (cases fin) (simp_all add: end_error_def go_fail_def go_update_def)

text \<open>The deliveries before the first one with an empty body, and what that one causes.\<close>

definition has_body :: "delivery \<Rightarrow> bool" where
  "has_body d \<longleftrightarrow> Body d \<noteq> []"

definition consume_result :: "(delivery \<Rightarrow> goerror option) \<Rightarrow> delivery list \<Rightarrow> consumer_end \<Rightarrow> fault + unit" where
  "consume_result nack ds fin = (case dropWhile has_body ds of
     [] \<Rightarrow> end_error fin
   | d # _ \<Rightarrow> (case nack d of Some e \<Rightarrow> Inl (Err e) | None \<Rightarrow> Inl (Err (BrokerErr ErrEmptyMessage))))"

lemma consume_result_Cons: "has_body d \<Longrightarrow> consume_result nack (d # ds) fin = consume_result nack ds fin"
  by (simp add: consume_result_def)

lemma consume_result_error: "consume_result nack ds fin \<noteq> Inl (Panic m)"
  by (auto simp: consume_result_def end_error_def split: list.split option.split consumer_end.split)

lemma consume_result_nil: "consume_result nack ds fin = Inr () \<longleftrightarrow> list_all has_body ds \<and> fin = StopRequest"
proof (cases "list_all has_body ds")
  case True
  then have "dropWhile has_body ds = []" by (simp add: dropWhile_eq_Nil_conv list_all_iff)
  then have "consume_result nack ds fin = end_error fin"
    unfolding consume_result_def by (simp only: list.case)
  with True show ?thesis by (simp add: end_error_nil)
next
  case False
  then obtain d ds' where "dropWhile has_body ds = d # ds'"
    by (metis dropWhile_eq_Nil_conv list_all_iff neq_Nil_conv)
  with False show ?thesis by (simp add: consume_result_def split: option.split)
qed

text \<open>
  The deliveries \<open>ds\<close> are consumed up to the first one without a body: those before it are
  handed over in order, that one is rejected, and the counter is back where it was.
\<close>

definition consumed :: "('g \<Rightarrow> delivery list) \<Rightarrow> delivery list \<Rightarrow> ('w, 'g) consumer \<Rightarrow>
    ('w, 'g) consumer \<Rightarrow> bool" where
  "consumed jobs ds s s' \<longleftrightarrow> jobs (grp s') = jobs (grp s) @ takeWhile has_body ds \<and>
     nacked s' = nacked s @ take 1 (dropWhile has_body ds) \<and> processingWG s' = processingWG s"

definition side_untouched :: "('w, 'g) consumer \<Rightarrow> ('w, 'g) consumer \<Rightarrow> bool" where
  "side_untouched s s' \<longleftrightarrow> grp s' = grp s \<and> processingWG s' = processingWG s \<and> nacked s' = nacked s \<and>
     done_stops s' = done_stops s"

locale delivery_sink = job_sink assign jobs ready
  for assign :: "delivery \<Rightarrow> ('g, unit) go"
    and jobs :: "'g \<Rightarrow> delivery list"
    and ready :: "'g \<Rightarrow> bool"
begin

lemma consume_loop_spec:
  assumes "ready (grp s)" "I (prov s)" "\<And>k w. I w \<Longrightarrow> I (env k w)"
  shows "\<exists>s'. consume_loop nack assign env ds fin s = (consume_result nack ds fin, s') \<and>
    ready (grp s') \<and> consumed jobs ds s s' \<and> I (prov s') \<and>
    done_stops s' = done_stops s + (if consume_result nack ds fin = Inr () then 1 else 0)"
  using assms(1,2)
proof (induction ds arbitrary: s)
  case Nil
  then show ?case
    by (simp add: go_seq_def go_bind_def on_prov_def go_update_def end_consumer_eq consume_result_def
        end_error_nil consumed_def assms(3))
next
  case (Cons d ds)
  let ?p = "env (length (d # ds)) (prov s)"
  have env: "I ?p" by (rule assms(3) [OF Cons.prems(2)])
  show ?case
  proof (cases "has_body d")
    case False
    then show ?thesis using Cons.prems env
      by (auto simp: go_seq_def go_bind_def on_prov_def go_update_def processDelivery_def go_defer_def
          go_fail_def has_body_def consume_result_def consumed_def split: option.splits)
  next
    case True
    obtain g' where g': "assign d (grp s) = (Inr (), g')" "ready g'" "jobs g' = jobs (grp s) @ [d]"
      using assign_ready [OF Cons.prems(1)] by blast
    have step: "consume_loop nack assign env (d # ds) fin s =
        consume_loop nack assign env ds fin (s\<lparr>prov := ?p, grp := g'\<rparr>)"
      using True g'(1) by (simp add: go_seq_def go_bind_def on_prov_def go_update_def processDelivery_def
          go_defer_def on_grp_def has_body_def)
    obtain s' where s': "consume_loop nack assign env ds fin (s\<lparr>prov := ?p, grp := g'\<rparr>) =
        (consume_result nack ds fin, s')"
      "ready (grp s')" "consumed jobs ds (s\<lparr>prov := ?p, grp := g'\<rparr>) s'" "I (prov s')"
      "done_stops s' = done_stops s + (if consume_result nack ds fin = Inr () then 1 else 0)"
      using Cons.IH [of "s\<lparr>prov := ?p, grp := g'\<rparr>"] g'(2) env by auto
    show ?thesis
      by (rule exI [of _ s']) (use s' g'(3) True in
        \<open>simp add: step consume_result_Cons consumed_def del: consume_loop.simps\<close>)
  qed
qed

text \<open>
  A call of \<open>StartConsumer\<close> on the AMQP provider: either the set-up failed, and the group saw
  nothing of it, or the deliveries were consumed and the outcome is that of the loop. In both
  cases the borrowed connection is back (or replaced) and no channel stays open.
\<close>

definition outcome_ok :: "(delivery \<Rightarrow> goerror option) \<Rightarrow> delivery list \<Rightarrow> consumer_end \<Rightarrow>
    ('w, 'g) consumer \<Rightarrow> fault + unit \<Rightarrow> ('w, 'g) consumer \<Rightarrow> bool" where
  "outcome_ok nack ds fin s r s' \<longleftrightarrow>
     ((\<exists>e. r = Inl (Err e)) \<and> side_untouched s s') \<or>
     (r = consume_result nack ds fin \<and> ready (grp s') \<and> consumed jobs ds s s' \<and>
      done_stops s' = done_stops s + (if r = Inr () then 1 else 0))"

lemma outcome_ok_prov [simp]:
  "outcome_ok nack ds fin (s\<lparr>prov := w\<rparr>) r s' = outcome_ok nack ds fin s r s'"
  "outcome_ok nack ds fin s r (s'\<lparr>prov := w\<rparr>) = outcome_ok nack ds fin s r s'"
  by (simp_all add: outcome_ok_def side_untouched_def consumed_def)

lemma outcome_ok_setup [simp]: "outcome_ok nack ds fin s (Inl (Err e)) s"
  by (simp add: outcome_ok_def side_untouched_def)

lemma wp_consume_loop:
  assumes "ready (grp s)" "I (prov s)" "\<And>k w. I w \<Longrightarrow> I (env k w)"
  shows "wp (consume_loop nack assign env ds fin)
    (\<lambda>r s'. I (prov s') \<and> outcome_ok nack ds fin s r s') s"
  using consume_loop_spec [where I = I and env = env, OF assms, of nack ds fin]
  by (auto simp: wp_def outcome_ok_def)

end

text \<open>What the rest of the process and the network may do to the provider meanwhile.\<close>

definition env_ok :: "(provider \<Rightarrow> provider) \<Rightarrow> bool" where
  "env_ok env \<longleftrightarrow> (\<forall>out p. pool_inv out p \<longrightarrow> pool_inv out (env p) \<and>
     channels (env p) \<subseteq> channels p \<and> amqpConf (env p) = amqpConf p)"

text \<open>It may also be known to lose no connection, whatever it does with them.\<close>

definition env_lossless :: "(provider \<Rightarrow> provider) \<Rightarrow> bool" where
  "env_lossless env \<longleftrightarrow> (\<forall>out p. pool_inv out p \<longrightarrow> nothing_lost out p out (env p))"

text \<open>Another goroutine that publishes, with any outcome, is such an environment.\<close>

lemma env_publishing:
  "env_ok (\<lambda>p. snd (AmqpPublishWithConfirm net key msg ex p))"
  "env_lossless (\<lambda>p. snd (AmqpPublishWithConfirm net key msg ex p))"
  using wpD [OF AmqpPublishWithConfirm_inv prod.collapse [symmetric]]
    AmqpPublishWithConfirm_returns [OF _ prod.collapse [symmetric]]
  by (fastforce simp: env_ok_def env_lossless_def)+

text \<open>
  The state while \<open>c\<close> is lent to the consumer, which started from \<open>p0\<close>: it has no channels
  but \<open>chs\<close>, and in a lossless environment (\<open>E\<close>) nothing has been lost.
\<close>

abbreviation lent_to :: "bool \<Rightarrow> provider \<Rightarrow> amqp_config option \<Rightarrow> conn \<Rightarrow> conn list \<Rightarrow>
    (chan \<times> conn) set \<Rightarrow> provider \<Rightarrow> bool" where
  "lent_to E p0 conf c out chs p \<equiv> pool_inv (c # out) p \<and> channels p \<subseteq> chs \<and> amqpConf p = conf \<and>
     (E \<longrightarrow> nothing_lost out p0 (c # out) p)"

lemma lent_same:
  assumes "nothing_lost out p0 (c # out) p" "ConnectionPool p' = ConnectionPool p" "closed p' = closed p"
    "watched p' = watched p"
  shows "nothing_lost out p0 (c # out) p'"
  using nothing_lost_trans [OF assms(1) nothing_lost_same] assms(2-4) by simp

lemma wp_call_on_channel_lent:
  assumes "lent_to E p0 conf c out chs p"
  shows "wp (call_on_channel net k)
    (\<lambda>r p'. lent_to E p0 conf c out chs p' \<and> (\<forall>e. r = Inl e \<longrightarrow> (\<exists>err. e = Err err))) p"
  using assms pool_inv_same [of "c # out" p] lent_same [of out p0 c p]
  by (auto simp: call_on_channel_def wp_simps split: option.split)

lemma wp_CloseAmqpChannel_lent:
  assumes "lent_to E p0 conf c out (insert (ch, c) chs) p"
  shows "wp (CloseAmqpChannel net ch)
    (\<lambda>r p'. lent_to E p0 conf c out chs p' \<and> (\<forall>m. r \<noteq> Inl (Panic m))) p"
  using assms pool_inv_same [of "c # out" p] lent_same [of out p0 c p]
  by (auto simp: CloseAmqpChannel_def wp_simps split: option.split)

lemma wp_CreateAmqpChannel_lent:
  assumes "lent_to E p0 conf c out chs p"
  shows "wp (CreateAmqpChannel net (Some c) False) (\<lambda>r p'. case r of
      Inr (ch, _) \<Rightarrow> lent_to E p0 conf c out (insert (ch, c) chs) p'
    | Inl e \<Rightarrow> lent_to E p0 conf c out chs p' \<and> (\<exists>err. e = Err err)) p"
  using assms pool_inv_same [of "c # out" p] lent_same [of out p0 c p]
  by (auto simp: CreateAmqpChannel_def wp_simps split: option.split)

lemma env_lent:
  assumes "env_ok e" "E \<Longrightarrow> env_lossless e" "lent_to E p0 conf c out chs p"
  shows "lent_to E p0 conf c out chs (e p)"
proof -
  have "pool_inv (c # out) (e p) \<and> channels (e p) \<subseteq> channels p \<and> amqpConf (e p) = amqpConf p"
    using assms(1,3) unfolding env_ok_def by blast
  moreover have "nothing_lost out p0 (c # out) (e p)" if E
    using assms(2,3) that nothing_lost_trans unfolding env_lossless_def by blast
  ultimately show ?thesis using assms(3) by auto
qed

text \<open>After the call: \<open>c\<close> is idle or closed, and nobody else has lost anything.\<close>

abbreviation given_back :: "bool \<Rightarrow> provider \<Rightarrow> amqp_config option \<Rightarrow> conn \<Rightarrow> conn list \<Rightarrow>
    (chan \<times> conn) set \<Rightarrow> provider \<Rightarrow> bool" where
  "given_back E p0 conf c out chs p \<equiv> pool_inv out p \<and> channels p \<subseteq> chs \<and> amqpConf p = conf \<and>
     (E \<longrightarrow> nothing_lost out p0 out p) \<and> c \<in> set (idle p) \<union> closed p"

lemma wp_Release_lent:
  assumes "lent_to E p0 conf c out chs p"
  shows "wp (ReleaseConnectionToPool net (IfConn (Some c)))
    (\<lambda>r p'. given_back E p0 conf c out chs p' \<and> (\<forall>m. r \<noteq> Inl (Panic m))) p"
proof (rule wp_mono [OF wp_conj [OF ReleaseConnectionToPool_inv wpI]])
  show "pool_inv (c # out) p" "c \<in> set (c # out)" using assms by simp_all
  show "(\<forall>m. r \<noteq> Inl (Panic m)) \<and> nothing_lost (c # out) p out s' \<and> c \<in> accounted out s'"
    if "ReleaseConnectionToPool net (IfConn (Some c)) p = (r, s')" for r s'
    using that Release_lossless [OF that, of out]
    by (auto dest: Release_no_panic simp: nothing_lost_def accounted_def)
qed (use assms in \<open>auto simp: pool_frame_def pool_inv_def accounted_def intro: nothing_lost_trans\<close>)

text \<open>Borrowing the connection: with a usable configuration there is a connection or an error.\<close>

lemma provider_ops:
  "i_GetConnectionFromPool (amqp_provider net) = GetConnectionFromPool net"
  "i_ReleaseConnectionToPool (amqp_provider net) = ReleaseConnectionToPool net"
  "i_CreateAmqpChannel (amqp_provider net) = CreateAmqpChannel net"
  "i_CloseAmqpChannel (amqp_provider net) = CloseAmqpChannel net"
  "i_SetChannelQoS (amqp_provider net) ch n = call_on_channel net (Qos n 0 False)"
  "i_CreateConsumer (amqp_provider net) ch q tag =
     call_on_channel net (Consume q tag False False False False)"
  by (simp_all add: amqp_provider_def SetChannelQoS_def CreateConsumer_def)

lemma wp_getConnection_lent:
  assumes inv: "pool_inv out p" and conf: "amqpConf p = Some a" "1 \<le> sint (ConnectionPoolSize a)"
  shows "wp (getConnection (amqp_provider net)) (\<lambda>r p'. getConnection (amqp_provider net) p = (r, p') \<and>
    (case r of
       Inr conn \<Rightarrow> \<exists>c. conn = Some c \<and> lent_to E p (Some a) c out (channels p) p'
     | Inl e \<Rightarrow> pool_inv out p' \<and> channels p' \<subseteq> channels p \<and> amqpConf p' = Some a \<and>
         nothing_lost out p out p' \<and> (\<exists>err. e = Err err))) p"
proof (rule wpI)
  fix r p'
  assume run: "getConnection (amqp_provider net) p = (r, p')"
  obtain r0 p0 where get: "GetConnectionFromPool net p = (r0, p0)" by fastforce
  have "\<forall>e. r0 = Inl e \<longrightarrow> (\<exists>err. e = Err err)"
    using GetConnectionFromPool_no_panic [OF inv conf get] by (metis fault.exhaust)
  with wpD [OF GetConnectionFromPool_inv [OF inv] get] Get_lossless [OF inv get] run get
  show "getConnection (amqp_provider net) p = (r, p') \<and> (case r of
       Inr conn \<Rightarrow> \<exists>c. conn = Some c \<and> lent_to E p (Some a) c out (channels p) p'
     | Inl e \<Rightarrow> pool_inv out p' \<and> channels p' \<subseteq> channels p \<and> amqpConf p' = Some a \<and>
         nothing_lost out p out p' \<and> (\<exists>err. e = Err err))"
    by (auto simp: getConnection_def provider_ops go_bind_def go_return_def borrowed_post_def pool_frame_def
        conf split: sum.splits)
qed

lemma prov_update: "prov (s\<lparr>prov := w\<rparr>) = w"
  by simp

context delivery_sink
begin

lemma wp_call_then:
  assumes "lent_to E p0 conf c out C w"
    and m: "\<And>w. lent_to E p0 conf c out C w \<Longrightarrow>
      wp m (\<lambda>r s'. lent_to E p0 conf c out C (prov s') \<and> outcome_ok nack ds fin s r s') (s\<lparr>prov := w\<rparr>)"
  shows "wp (go_seq (on_prov (call_on_channel net k)) m)
    (\<lambda>r s'. lent_to E p0 conf c out C (prov s') \<and> outcome_ok nack ds fin s r s') (s\<lparr>prov := w\<rparr>)"
  unfolding wp_seq wp_on_prov
  by (rule wp_mono [OF wp_call_on_channel_lent])
    (use assms in \<open>auto split: sum.split\<close>)

text \<open>The part of the call that has a channel, and the part that has the connection.\<close>

lemma wp_with_channel:
  assumes w: "lent_to E p0 conf c out (insert (ch, c) chs) w" and ready: "ready (grp s)"
    and env: "\<forall>k. env_ok (env k)" "E \<Longrightarrow> \<forall>k. env_lossless (env k)"
  shows "wp (go_defer (on_prov (CloseAmqpChannel net ch))
      (go_seq (on_prov (call_on_channel net k1)) (go_seq (on_prov (call_on_channel net k2))
        (consume_loop nack assign env ds fin))))
    (\<lambda>r s'. lent_to E p0 conf c out chs (prov s') \<and> outcome_ok nack ds fin s r s') (s\<lparr>prov := w\<rparr>)"
proof -
  let ?C = "insert (ch, c) chs"
  have keep: "lent_to E p0 conf c out ?C (env k v)" if "lent_to E p0 conf c out ?C v" for k v
    by (rule env_lent [OF _ _ that]) (use env in auto)
  have loop: "wp (consume_loop nack assign env ds fin)
      (\<lambda>r s'. lent_to E p0 conf c out ?C (prov s') \<and> outcome_ok nack ds fin s r s') (s\<lparr>prov := v\<rparr>)"
    if "lent_to E p0 conf c out ?C v" for v
    using wp_consume_loop [where I = "lent_to E p0 conf c out ?C" and s = "s\<lparr>prov := v\<rparr>" and env = env,
      OF _ _ keep] that ready by simp
  have inner: "wp (go_seq (on_prov (call_on_channel net k2)) (consume_loop nack assign env ds fin))
      (\<lambda>r s'. lent_to E p0 conf c out ?C (prov s') \<and> outcome_ok nack ds fin s r s') (s\<lparr>prov := v\<rparr>)"
    if "lent_to E p0 conf c out ?C v" for v
    by (rule wp_call_then [OF that loop])
  show ?thesis
    unfolding wp_defer wp_on_prov
    by (rule wp_mono [OF wp_call_then [OF w inner]], assumption,
        rule wp_mono [OF wp_CloseAmqpChannel_lent [where c = c and out = out and chs = chs and E = E and ?p0.0 = p0]])
      (auto split: sum.split fault.split)
qed

lemma wp_with_connection:
  assumes w: "lent_to E p0 conf c out chs w" and ready: "ready (grp s)"
    and env: "\<forall>k. env_ok (env k)" "E \<Longrightarrow> \<forall>k. env_lossless (env k)"
  shows "wp (go_defer (on_prov (ReleaseConnectionToPool net (IfConn (Some c))))
      (go_bind (on_prov (CreateAmqpChannel net (Some c) False)) (\<lambda>(ch, _).
        go_defer (on_prov (CloseAmqpChannel net ch))
         (go_seq (on_prov (call_on_channel net k1)) (go_seq (on_prov (call_on_channel net (k2 ch)))
           (consume_loop nack assign env ds fin))))))
    (\<lambda>r s'. given_back E p0 conf c out chs (prov s') \<and> outcome_ok nack ds fin s r s') (s\<lparr>prov := w\<rparr>)"
proof -
  have "wp (go_bind (on_prov (CreateAmqpChannel net (Some c) False)) (\<lambda>(ch, _).
        go_defer (on_prov (CloseAmqpChannel net ch))
         (go_seq (on_prov (call_on_channel net k1)) (go_seq (on_prov (call_on_channel net (k2 ch)))
           (consume_loop nack assign env ds fin)))))
    (\<lambda>r s'. lent_to E p0 conf c out chs (prov s') \<and> outcome_ok nack ds fin s r s') (s\<lparr>prov := w\<rparr>)"
    unfolding wp_bind wp_on_prov prov_update
  proof (rule wp_mono [OF wp_CreateAmqpChannel_lent [OF w]], goal_cases)
    case (1 r p1)
    show ?case
    proof (cases r)
      case (Inl e)
      with 1 show ?thesis by auto
    next
      case (Inr x)
      with 1 wp_with_channel [where E = E and ?p0.0 = p0 and conf = conf and c = c and out = out and chs = chs
            and ch = "fst x" and w = p1, OF _ ready env] show ?thesis
        by (simp add: split_beta)
    qed
  qed
  then show ?thesis
    unfolding wp_defer wp_on_prov
    by (rule wp_mono, intro wp_mono [OF wp_Release_lent])
      (auto split: sum.split fault.split)
qed

text \<open>
  The whole call. The connection it borrowed is idle or closed at the end, and in an
  environment that loses no connection none is lost.
\<close>

lemma StartConsumer_spec:
  assumes inv: "pool_inv out (prov s)" and ready: "ready (grp s)" and env: "\<forall>k. env_ok (env k)"
    and conf: "amqpConf (prov s) = Some a" "1 \<le> sint (ConnectionPoolSize a)"
  shows "wp (StartConsumer (amqp_provider net) b nack assign gn env ds fin)
    (\<lambda>r s'. pool_inv out (prov s') \<and> channels (prov s') \<subseteq> channels (prov s) \<and>
       amqpConf (prov s') = Some a \<and>
       ((\<forall>k. env_lossless (env k)) \<longrightarrow> nothing_lost out (prov s) out (prov s')) \<and>
       (\<forall>c p1. getConnection (amqp_provider net) (prov s) = (Inr (Some c), p1) \<longrightarrow>
          c \<in> set (idle (prov s')) \<union> closed (prov s')) \<and>
       outcome_ok nack ds fin s r s') s"
proof -
  let ?E = "\<forall>k. env_lossless (env k)"
  show ?thesis
    unfolding StartConsumer_def wp_bind [of "on_prov (getConnection (amqp_provider net))"] wp_on_prov
  proof (rule wp_mono [OF wp_getConnection_lent [where E = ?E, OF inv conf]])
    fix r p1
    assume got: "getConnection (amqp_provider net) (prov s) = (r, p1) \<and> (case r of
       Inr conn \<Rightarrow> \<exists>c. conn = Some c \<and> lent_to ?E (prov s) (Some a) c out (channels (prov s)) p1
     | Inl e \<Rightarrow> pool_inv out p1 \<and> channels p1 \<subseteq> channels (prov s) \<and> amqpConf p1 = Some a \<and>
         nothing_lost out (prov s) out p1 \<and> (\<exists>err. e = Err err))"
    show "case r of
        Inl e \<Rightarrow> pool_inv out (prov (s\<lparr>prov := p1\<rparr>)) \<and> channels (prov (s\<lparr>prov := p1\<rparr>)) \<subseteq> channels (prov s) \<and>
       amqpConf (prov (s\<lparr>prov := p1\<rparr>)) = Some a \<and>
       (?E \<longrightarrow> nothing_lost out (prov s) out (prov (s\<lparr>prov := p1\<rparr>))) \<and>
       (\<forall>c p1'. getConnection (amqp_provider net) (prov s) = (Inr (Some c), p1') \<longrightarrow>
          c \<in> set (idle (prov (s\<lparr>prov := p1\<rparr>))) \<union> closed (prov (s\<lparr>prov := p1\<rparr>))) \<and>
       outcome_ok nack ds fin s (Inl e) (s\<lparr>prov := p1\<rparr>)
      | Inr conn \<Rightarrow> wp (go_defer (on_prov (i_ReleaseConnectionToPool (amqp_provider net) (IfConn conn)))
        (go_bind (on_prov (i_CreateAmqpChannel (amqp_provider net) conn False)) (\<lambda>(channel, _).
           go_defer (on_prov (i_CloseAmqpChannel (amqp_provider net) channel))
            (go_seq (on_prov (i_SetChannelQoS (amqp_provider net) channel (getQueuePrefetchCount b)))
              (go_seq (on_prov (i_CreateConsumer (amqp_provider net) channel (getTaskQueue b) gn))
                (consume_loop nack assign env ds fin))))))
        (\<lambda>r s'. pool_inv out (prov s') \<and> channels (prov s') \<subseteq> channels (prov s) \<and>
       amqpConf (prov s') = Some a \<and> (?E \<longrightarrow> nothing_lost out (prov s) out (prov s')) \<and>
       (\<forall>c p1. getConnection (amqp_provider net) (prov s) = (Inr (Some c), p1) \<longrightarrow>
          c \<in> set (idle (prov s')) \<union> closed (prov s')) \<and>
       outcome_ok nack ds fin s r s') (s\<lparr>prov := p1\<rparr>)"
    proof (cases r)
      case (Inl e)
      with got show ?thesis by auto
    next
      case (Inr conn)
      with got obtain c where c: "conn = Some c"
        "lent_to ?E (prov s) (Some a) c out (channels (prov s)) p1"
        "getConnection (amqp_provider net) (prov s) = (Inr (Some c), p1)" by auto
      have "wp (go_defer (on_prov (ReleaseConnectionToPool net (IfConn (Some c))))
        (go_bind (on_prov (CreateAmqpChannel net (Some c) False)) (\<lambda>(ch, _).
           go_defer (on_prov (CloseAmqpChannel net ch))
            (go_seq (on_prov (call_on_channel net k1)) (go_seq (on_prov (call_on_channel net (k2 ch)))
              (consume_loop nack assign env ds fin))))))
        (\<lambda>r s'. given_back ?E (prov s) (Some a) c out (channels (prov s)) (prov s') \<and>
          outcome_ok nack ds fin s r s') (s\<lparr>prov := p1\<rparr>)" for k1 k2
        by (rule wp_with_connection [OF c(2) ready env]) assumption
      from wp_mono [OF this] c(3) show ?thesis
        unfolding Inr c(1) sum.case provider_ops by auto
    qed
  qed
qed

end

text \<open>The worker group is such a sink while it is running.\<close>

interpretation deliveries: delivery_sink AssignJob handed_jobs "running n" for n
  by unfold_locales

end
