(* ===== verification/Worker_Pool.thy ===== *)
theory Worker_Pool
  imports Amqp_Consumer
begin

section \<open>The worker pool (workerpool/workerpool.go) and its factory (internal/factory)\<close>

text \<open>
  The object a program holds: it is built from a configuration by the factory, which connects
  to the server; tasks are registered with it and sent through it; and \<open>Start\<close> runs its
  worker group and its consumer. The state of the process these functions share is the
  package-level configuration provider and the AMQP provider the broker talks to.
\<close>

record process =
  global_provider :: "config_provider option"
  amqp_side :: provider

definition on_amqp :: "(provider, 'a) go \<Rightarrow> (process, 'a) go" where
  "on_amqp m s = (case m (amqp_side s) of (r, p) \<Rightarrow> (r, s\<lparr>amqp_side := p\<rparr>))"

subsection \<open>The factory\<close>

text \<open>\<open>NewAMQPBroker\<close> with no provider set for tests: it makes one from the configuration.\<close>

definition factory_NewAMQPBroker :: "amqp_net \<Rightarrow> config option \<Rightarrow> (provider, amqp_broker) go" where
  "factory_NewAMQPBroker net cfg =
     go_seq (go_update (\<lambda>_. NewAmqpProvider (Option.bind cfg AMQP)))
       (NewAMQPBroker (amqp_provider net) cfg)"

definition CreateBroker :: "amqp_net \<Rightarrow> config option \<Rightarrow> (provider, amqp_broker) go" where
  "CreateBroker net cfg = (case cfg of
     None \<Rightarrow> go_fail nil_deref
   | Some c \<Rightarrow>
      (if Broker c = ''amqp'' then factory_NewAMQPBroker net cfg
       else go_fail (Err (BrokerErr ErrUnsupportedBroker))))"

definition CreateStore :: "config option \<Rightarrow> ('s, unit) go" where
  "CreateStore cfg = (case cfg of
     None \<Rightarrow> go_fail nil_deref
   | Some c \<Rightarrow> (if Store c = [] then go_return () else go_fail (Err (StoreErr ErrUnsupportedStore))))"

definition CreateTaskRegistrar :: "registrar option" where
  "CreateTaskRegistrar = Some NewDefaultTaskRegistrar"

subsection \<open>The pool\<close>

text \<open>
  A backend is an opaque handle, nil at first: the program never uses one. The task
  registrar of the interface may be nil (\<open>None\<close>), and the context is described by its
  dynamic type, \<open>None\<close> for a nil interface.
\<close>

record worker_pool =
  wp_backend :: "nat option"
  wp_broker :: amqp_broker
  wp_config :: "config option"
  wp_taskRegistrar :: registrar
  wp_started :: bool
  wp_workerPoolID :: string
  wp_concurrency :: "64 word"
  wp_nameSpace :: string
  wp_contextType :: "gotype option"
  wp_workerGroup :: "delivery work_group"
  wp_configProvider :: config_provider

definition validateContextType :: "gotype option \<Rightarrow> ('s, unit) go" where
  "validateContextType ctxType = (case ctxType of
     None \<Rightarrow> go_fail nil_deref
   | Some t \<Rightarrow>
      (if kind_of t \<noteq> KStruct
       then go_fail (Err (TextErr ''work: Context needs to be a struct type''))
       else go_return ()))"

definition createWorkerPool :: "amqp_net \<Rightarrow> string \<Rightarrow> gotype option \<Rightarrow> 64 word \<Rightarrow> string \<Rightarrow>
    config_provider \<Rightarrow> (process, worker_pool) go" where
  "createWorkerPool net uuid ctx concurrency nameSpace configProvider =
     go_seq (validateContextType ctx)
      (go_bind (on_amqp (CreateBroker net (GetConfig configProvider))) (\<lambda>factoryBroker.
        go_seq (CreateStore (GetConfig configProvider))
         (case CreateTaskRegistrar of
            None \<Rightarrow> go_fail (Err (TextErr ''failed to start the worker pool''))
          | Some taskRegistrar \<Rightarrow> go_return
              \<lparr>wp_backend = None, wp_broker = factoryBroker, wp_config = GetConfig configProvider,
               wp_taskRegistrar = taskRegistrar, wp_started = False, wp_workerPoolID = uuid,
               wp_concurrency = concurrency, wp_nameSpace = nameSpace, wp_contextType = ctx,
               wp_workerGroup = NewWorkerGroup concurrency nameSpace,
               wp_configProvider = configProvider\<rparr>)))"

text \<open>
  \<open>GetConfigProvider\<close> never returns nil, so the error \<^verbatim>\<open>config is not provided\<close> of
  \<open>NewWorkerPool\<close> has no branch here.
\<close>

definition NewWorkerPool :: "amqp_net \<Rightarrow> string \<Rightarrow> gotype option \<Rightarrow> 64 word \<Rightarrow> string \<Rightarrow>
    (process, worker_pool) go" where
  "NewWorkerPool net uuid ctx concurrency nameSpace s =
     (case GetConfigProvider (global_provider s) of (cnfProvider, g) \<Rightarrow>
        createWorkerPool net uuid ctx concurrency nameSpace cnfProvider (s\<lparr>global_provider := g\<rparr>))"

definition NewWorkerPoolWithConfig :: "amqp_net \<Rightarrow> (config \<Rightarrow> goerror option) \<Rightarrow> string \<Rightarrow>
    gotype option \<Rightarrow> 64 word \<Rightarrow> string \<Rightarrow> config \<Rightarrow> (process, worker_pool) go" where
  "NewWorkerPoolWithConfig net validate uuid ctx concurrency nameSpace conf =
     (case SetApplicationConfig validate conf NewConfigProvider of
        (Inl err, _) \<Rightarrow> go_fail err
      | (Inr _, configProvider) \<Rightarrow> createWorkerPool net uuid ctx concurrency nameSpace configProvider)"

definition NewWorkerPoolWithOptions :: "amqp_net \<Rightarrow> string \<Rightarrow> gotype option \<Rightarrow> 64 word \<Rightarrow> string \<Rightarrow>
    unit \<Rightarrow> (process, worker_pool) go" where
  "NewWorkerPoolWithOptions net uuid ctx concurrency namespace workerPoolOpts =
     NewWorkerPool net uuid ctx concurrency namespace"

definition GetBroker :: "worker_pool \<Rightarrow> amqp_broker" where
  "GetBroker pool = wp_broker pool"

definition SetBroker :: "amqp_broker \<Rightarrow> worker_pool \<Rightarrow> worker_pool" where
  "SetBroker broker pool = pool\<lparr>wp_broker := broker\<rparr>"

definition GetBackend :: "worker_pool \<Rightarrow> nat option" where
  "GetBackend pool = wp_backend pool"

definition SetBackend :: "nat option \<Rightarrow> worker_pool \<Rightarrow> worker_pool" where
  "SetBackend backend pool = pool\<lparr>wp_backend := backend\<rparr>"

text \<open>\<open>SendTaskWithContext\<close> of the pool; the signature is a pointer, so its final value is part of the result.\<close>

definition pool_SendTaskWithContext :: "'w publish_op \<Rightarrow> moments \<Rightarrow> signature \<Rightarrow> 'w \<Rightarrow>
    (fault + task_state) \<times> signature \<times> 'w" where
  "pool_SendTaskWithContext pub mo sig w = (case SendTaskWithContext pub mo sig w of
     (Inl (Err err), sig', w') \<Rightarrow>
       (Inl (Err (TextErr (''Publish message error: '' @ error_text err))), sig', w')
   | (Inl (Panic m), sig', w') \<Rightarrow> (Inl (Panic m), sig', w')
   | (Inr _, sig', w') \<Rightarrow> (Inr (NewPendingTaskState sig'), sig', w'))"

definition pool_RegisterTasks :: "(string \<times> task_value) list \<Rightarrow> (string \<times> task_value) list \<Rightarrow>
    (worker_pool, unit) go" where
  "pool_RegisterTasks en1 en2 pool = (case RegisterTasks en1 en2 (wp_taskRegistrar pool) of
     (r, reg) \<Rightarrow> (r, pool\<lparr>wp_taskRegistrar := reg\<rparr>))"

definition pool_IsTaskRegistered :: "worker_pool \<Rightarrow> string \<Rightarrow> bool" where
  "pool_IsTaskRegistered pool name = IsTaskRegistered (wp_taskRegistrar pool) name"

subsection \<open>The consumer goroutine of Start\<close>

text \<open>
  Each round is one call of \<open>StartConsumer\<close>, described by what happens during it, and the
  value of \<^verbatim>\<open>wp.started\<close> read after it. The goroutine leaves the process when the pool is
  stopping (\<open>Inr True\<close>) and sleeps three seconds before the next round otherwise; after the
  rounds given it is about to begin another one (\<open>Inr False\<close>).
\<close>

record 'w round =
  round_env :: "nat \<Rightarrow> 'w \<Rightarrow> 'w"
  round_deliveries :: "delivery list"
  round_end :: consumer_end
  round_started :: bool

fun consumer_goroutine :: "'w amqp_iface \<Rightarrow> amqp_broker \<Rightarrow> (delivery \<Rightarrow> goerror option) \<Rightarrow>
    (delivery \<Rightarrow> ('g, unit) go) \<Rightarrow> string \<Rightarrow> 'w round list \<Rightarrow> (('w, 'g) consumer, bool) go" where
  "consumer_goroutine ap b nack assign gn [] = go_return False"
| "consumer_goroutine ap b nack assign gn (rd # rds) = (\<lambda>s.
     case StartConsumer ap b nack assign gn (round_env rd) (round_deliveries rd) (round_end rd) s of
       (Inl (Panic m), s') \<Rightarrow> (Inl (Panic m), s')
     | (_, s') \<Rightarrow> (if \<not> round_started rd then (Inr True, s')
         else consumer_goroutine ap b nack assign gn rds s'))"

text \<open>
  While the pool is not being stopped no error ends the goroutine: every round hands over
  either nothing (its set-up failed) or its deliveries up to the first empty one, no channel
  stays open, and no connection is lost.
\<close>

definition handed_in_rounds :: "'w round list \<Rightarrow> delivery list list \<Rightarrow> bool" where
  "handed_in_rounds rds hs \<longleftrightarrow>
     list_all2 (\<lambda>rd h. h = [] \<or> h = takeWhile has_body (round_deliveries rd)) rds hs"

context delivery_sink
begin

lemma consumer_goroutine_survives:
  assumes "pool_inv out (prov s)" "ready (grp s)"
    and "amqpConf (prov s) = Some a" "1 \<le> sint (ConnectionPoolSize a)"
    and "\<forall>rd \<in> set rds. (\<forall>k. env_ok (round_env rd k)) \<and> round_started rd"
  shows "\<exists>s' hs. consumer_goroutine (amqp_provider net) b nack assign gn rds s = (Inr False, s') \<and>
    ready (grp s') \<and> pool_inv out (prov s') \<and> channels (prov s') \<subseteq> channels (prov s) \<and>
    ((\<forall>rd \<in> set rds. \<forall>k. env_lossless (round_env rd k)) \<longrightarrow> nothing_lost out (prov s) out (prov s')) \<and>
    handed_in_rounds rds hs \<and> jobs (grp s') = jobs (grp s) @ concat hs"
  using assms
proof (induction rds arbitrary: s)
  case Nil
  then show ?case by (simp add: go_return_def handed_in_rounds_def)
next
  case (Cons rd rds)
  obtain r s1 where run: "StartConsumer (amqp_provider net) b nack assign gn (round_env rd)
      (round_deliveries rd) (round_end rd) s = (r, s1)" by fastforce
  have env: "\<forall>k. env_ok (round_env rd k)" using Cons.prems(5) by simp
  from wpD [OF StartConsumer_spec [OF Cons.prems(1,2) env Cons.prems(3,4)] run]
  have s1: "pool_inv out (prov s1)" "channels (prov s1) \<subseteq> channels (prov s)"
    "amqpConf (prov s1) = Some a"
    "(\<forall>k. env_lossless (round_env rd k)) \<longrightarrow> nothing_lost out (prov s) out (prov s1)"
    "outcome_ok nack (round_deliveries rd) (round_end rd) s r s1" by auto
  from s1(5) obtain h where h: "ready (grp s1)" "jobs (grp s1) = jobs (grp s) @ h"
    "h = [] \<or> h = takeWhile has_body (round_deliveries rd)" "\<forall>m. r \<noteq> Inl (Panic m)"
    using Cons.prems(2) consume_result_error
    by (auto simp: outcome_ok_def side_untouched_def consumed_def)
  have rest: "consumer_goroutine (amqp_provider net) b nack assign gn (rd # rds) s =
      consumer_goroutine (amqp_provider net) b nack assign gn rds s1"
    using h(4) run Cons.prems(5) by (auto split: sum.split fault.split)
  from Cons.IH [OF s1(1) h(1) s1(3) Cons.prems(4)] Cons.prems(5)
  obtain s' hs where s': "consumer_goroutine (amqp_provider net) b nack assign gn rds s1 = (Inr False, s')"
    "ready (grp s')" "pool_inv out (prov s')" "channels (prov s') \<subseteq> channels (prov s1)"
    "(\<forall>rd \<in> set rds. \<forall>k. env_lossless (round_env rd k)) \<longrightarrow> nothing_lost out (prov s1) out (prov s')"
    "handed_in_rounds rds hs" "jobs (grp s') = jobs (grp s1) @ concat hs" by auto
  have "handed_in_rounds (rd # rds) (h # hs)" using s'(6) h(3) by (simp add: handed_in_rounds_def)
  moreover have "jobs (grp s') = jobs (grp s) @ concat (h # hs)" using s'(7) h(2) by simp
  moreover have "(\<forall>rd \<in> set (rd # rds). \<forall>k. env_lossless (round_env rd k)) \<longrightarrow>
      nothing_lost out (prov s) out (prov s')"
    using s1(4) s'(5) nothing_lost_trans by auto
  moreover have "channels (prov s') \<subseteq> channels (prov s)" using s1(2) s'(4) by (rule subset_trans [rotated])
  ultimately show ?case using rest s'(1-3) by (intro exI [of _ s'] exI [of _ "h # hs"]) auto
qed

end

end
