(* ===== verification/Pool_Lifecycle.thy ===== *)
theory Pool_Lifecycle
  imports Worker_Pool
begin

section \<open>Running and stopping a pool (Start and Stop of workerpool.go)\<close>

text \<open>
  The goroutines of a started pool as a step relation: the main goroutine, which waits for a
  signal and then stops the pool, the consumer goroutine, and the workers. They share
  \<^verbatim>\<open>wp.started\<close> and the job channels, and meet on the two stop channels of the broker. The
  consumer is inside \<open>StartConsumer\<close> in the phases \<open>Connecting\<close> to \<open>Acknowledging\<close>, and
  between two calls of it in the other two. A panic in any goroutine ends the process, and so
  does \<^verbatim>\<open>os.Exit\<close> or the return of the main function from \<open>Start\<close>: no step is possible then.
  \<open>Stop\<close> runs here where the program itself calls it, in the main goroutine after a signal; it
  is public, and a call of it by the application from another goroutine is not a step.
\<close>

datatype consumer_phase =
    Connecting      \<comment> \<open>setting up connection, channel and subscription\<close>
  | Selecting       \<comment> \<open>at the \<^verbatim>\<open>select\<close>\<close>
  | Handing         \<comment> \<open>in \<open>AssignJob\<close>\<close>
  | Acknowledging   \<comment> \<open>has taken the stop request, at \<^verbatim>\<open>doneStopChannel <-\<close>\<close>
  | Returned        \<comment> \<open>\<open>StartConsumer\<close> has returned\<close>
  | Sleeping        \<comment> \<open>the pause before the next attempt\<close>

datatype main_phase =
    Awaiting_signal
  | Closing nat     \<comment> \<open>in \<open>workerGroup.Stop\<close>, about to close this channel\<close>
  | Sending_stop    \<comment> \<open>in \<open>StopConsumer\<close>, at \<^verbatim>\<open>stopChannel <-\<close>\<close>
  | Awaiting_done   \<comment> \<open>in \<open>StopConsumer\<close>, past the send\<close>
  | Stopped         \<comment> \<open>\<open>Stop\<close> has returned\<close>

record life =
  l_pool :: worker_pool
  l_consumer :: consumer_phase
  l_main :: main_phase
  l_exited :: bool
  l_crashed :: "string option"

abbreviation l_group :: "life \<Rightarrow> delivery work_group" where
  "l_group s \<equiv> wp_workerGroup (l_pool s)"

definition set_group :: "delivery work_group \<Rightarrow> life \<Rightarrow> life" where
  "set_group g s = s\<lparr>l_pool := (l_pool s)\<lparr>wp_workerGroup := g\<rparr>\<rparr>"

definition alive :: "life \<Rightarrow> bool" where
  "alive s \<longleftrightarrow> \<not> l_exited s \<and> l_crashed s = None"

text \<open>\<open>Start\<close> up to the start of the consumer goroutine; \<open>Inr False\<close> when it already ran.\<close>

definition begin_Start :: "(worker_pool, bool) go" where
  "begin_Start pool =
     (if wp_started pool then (Inr False, pool)
      else (case StartGroup (wp_workerGroup pool) of
          (Inl e, g) \<Rightarrow> (Inl e, pool\<lparr>wp_started := True, wp_workerGroup := g\<rparr>)
        | (Inr _, g) \<Rightarrow> (Inr True, pool\<lparr>wp_started := True, wp_workerGroup := g\<rparr>)))"

text \<open>\<open>Stop\<close> up to the call of \<open>workerGroup.Stop\<close>; \<open>False\<close> when it returns at once.\<close>

definition begin_Stop :: "worker_pool \<Rightarrow> bool \<times> worker_pool" where
  "begin_Stop pool =
     (if \<not> wp_started pool then (False, pool)
      else if GetRegisteredTaskCount (wp_taskRegistrar pool) = 0 then (False, pool)
      else (True, pool\<lparr>wp_started := False\<rparr>))"

text \<open>One round of the loop of \<open>workerGroup.Stop\<close>.\<close>

definition close_channel_at :: "nat \<Rightarrow> ('j work_group, unit) go" where
  "close_channel_at k wg =
     (if channel_closed (Workers wg ! k) then (Inl (Panic ''close of closed channel''), wg)
      else (Inr (), wg\<lparr>Workers := (Workers wg)[k := (Workers wg ! k)\<lparr>channel_closed := True\<rparr>]\<rparr>))"

text \<open>
  \<open>StopConsumer\<close> and the consumer: the two meet on \<^verbatim>\<open>stopChannel\<close>, and again on
  \<^verbatim>\<open>doneStopChannel\<close>. (\<^verbatim>\<open>processingWG.Wait\<close> in between does not wait: the counter is only
  positive while the consumer is handing a job over.)
\<close>

inductive StopConsumer :: "main_phase \<Rightarrow> consumer_phase \<Rightarrow> main_phase \<Rightarrow> consumer_phase \<Rightarrow> bool" where
  stop_sent: "StopConsumer Sending_stop Selecting Awaiting_done Acknowledging"
| stop_received: "StopConsumer Awaiting_done Acknowledging Stopped Returned"

inductive_cases StopConsumerE: "StopConsumer m c m' c'"

inductive life_step :: "life \<Rightarrow> life \<Rightarrow> bool" where
  connect: "alive s \<Longrightarrow> l_consumer s = Connecting \<Longrightarrow> life_step s (s\<lparr>l_consumer := Selecting\<rparr>)"
| connect_error: "alive s \<Longrightarrow> l_consumer s = Connecting \<Longrightarrow> life_step s (s\<lparr>l_consumer := Returned\<rparr>)"
| take: "alive s \<Longrightarrow> l_consumer s = Selecting \<Longrightarrow> has_body d \<Longrightarrow>
    select_worker d (l_group s) = (Inr i, g) \<Longrightarrow>
    life_step s (set_group g (s\<lparr>l_consumer := Handing\<rparr>))"
| take_panic: "alive s \<Longrightarrow> l_consumer s = Selecting \<Longrightarrow> has_body d \<Longrightarrow>
    select_worker d (l_group s) = (Inl (Panic m), g) \<Longrightarrow> life_step s (s\<lparr>l_crashed := Some m\<rparr>)"
| take_empty: "alive s \<Longrightarrow> l_consumer s = Selecting \<Longrightarrow> \<not> has_body d \<Longrightarrow> life_step s (s\<lparr>l_consumer := Returned\<rparr>)"
| end_event: "alive s \<Longrightarrow> l_consumer s = Selecting \<Longrightarrow> life_step s (s\<lparr>l_consumer := Returned\<rparr>)"
| hand: "alive s \<Longrightarrow> l_consumer s = Handing \<Longrightarrow> pending (l_group s) = Some (i, d) \<Longrightarrow>
    goroutine_at (l_group s) i k = Some Receiving \<Longrightarrow> send_job k (l_group s) = (Inr (), g) \<Longrightarrow>
    life_step s (set_group g (s\<lparr>l_consumer := Selecting\<rparr>))"
| hand_panic: "alive s \<Longrightarrow> l_consumer s = Handing \<Longrightarrow> pending (l_group s) = Some (i, d) \<Longrightarrow>
    send_job k (l_group s) = (Inl (Panic m), g) \<Longrightarrow> life_step s (s\<lparr>l_crashed := Some m\<rparr>)"
| work: "alive s \<Longrightarrow> worker_step (l_group s) g \<Longrightarrow> life_step s (set_group g s)"
| signal_ignored: "alive s \<Longrightarrow> l_main s = Awaiting_signal \<Longrightarrow> begin_Stop (l_pool s) = (False, p) \<Longrightarrow>
    life_step s (s\<lparr>l_pool := p, l_main := Stopped\<rparr>)"
| signal: "alive s \<Longrightarrow> l_main s = Awaiting_signal \<Longrightarrow> begin_Stop (l_pool s) = (True, p) \<Longrightarrow>
    life_step s (s\<lparr>l_pool := p, l_main := Closing 0\<rparr>)"
| close: "alive s \<Longrightarrow> l_main s = Closing k \<Longrightarrow> k < length (Workers (l_group s)) \<Longrightarrow>
    close_channel_at k (l_group s) = (Inr (), g) \<Longrightarrow>
    life_step s (set_group g (s\<lparr>l_main := Closing (Suc k)\<rparr>))"
| close_panic: "alive s \<Longrightarrow> l_main s = Closing k \<Longrightarrow> k < length (Workers (l_group s)) \<Longrightarrow>
    close_channel_at k (l_group s) = (Inl (Panic m), g) \<Longrightarrow> life_step s (s\<lparr>l_crashed := Some m\<rparr>)"
| all_closed: "alive s \<Longrightarrow> l_main s = Closing k \<Longrightarrow> length (Workers (l_group s)) \<le> k \<Longrightarrow>
    life_step s (s\<lparr>l_main := Sending_stop\<rparr>)"
| stop: "alive s \<Longrightarrow> StopConsumer (l_main s) (l_consumer s) m c \<Longrightarrow>
    life_step s (s\<lparr>l_main := m, l_consumer := c\<rparr>)"
| exit: "alive s \<Longrightarrow> l_consumer s = Returned \<Longrightarrow> \<not> wp_started (l_pool s) \<Longrightarrow>
    life_step s (s\<lparr>l_exited := True\<rparr>)"
| sleep: "alive s \<Longrightarrow> l_consumer s = Returned \<Longrightarrow> wp_started (l_pool s) \<Longrightarrow>
    life_step s (s\<lparr>l_consumer := Sleeping\<rparr>)"
| wake: "alive s \<Longrightarrow> l_consumer s = Sleeping \<Longrightarrow> life_step s (s\<lparr>l_consumer := Connecting\<rparr>)"
| main_returns: "alive s \<Longrightarrow> l_main s = Stopped \<Longrightarrow> life_step s (s\<lparr>l_exited := True\<rparr>)"

text \<open>The states of a pool that \<open>Start\<close> was called on.\<close>

definition started_life :: "worker_pool \<Rightarrow> life" where
  "started_life pool = \<lparr>l_pool = snd (begin_Start pool), l_consumer = Connecting,
     l_main = Awaiting_signal, l_exited = False, l_crashed = None\<rparr>"

inductive life_reach :: "worker_pool \<Rightarrow> life \<Rightarrow> bool" for pool where
  start: "fst (begin_Start pool) = Inr True \<Longrightarrow> life_reach pool (started_life pool)"
| step: "life_reach pool s \<Longrightarrow> life_step s t \<Longrightarrow> life_reach pool t"

inductive_cases life_stepE: "life_step s t"

lemma set_group_fields [simp]:
  "l_consumer (set_group g s) = l_consumer s" "l_main (set_group g s) = l_main s"
  "l_exited (set_group g s) = l_exited s" "l_crashed (set_group g s) = l_crashed s"
  "l_group (set_group g s) = g" "wp_started (l_pool (set_group g s)) = wp_started (l_pool s)"
  "alive (set_group g s) = alive s"
  "wp_taskRegistrar (l_pool (set_group g s)) = wp_taskRegistrar (l_pool s)"
  by (simp_all add: set_group_def alive_def)

lemma alive_update [simp]:
  "alive (s\<lparr>l_consumer := c\<rparr>) = alive s" "alive (s\<lparr>l_main := m\<rparr>) = alive s" "alive (s\<lparr>l_pool := p\<rparr>) = alive s"
  by (simp_all add: alive_def)

subsection \<open>The invariant of the life cycle\<close>

definition closed_flags :: "'j work_group \<Rightarrow> bool list" where
  "closed_flags wg = map channel_closed (Workers wg)"

text \<open>The consumer is handing a job to a worker whose channel \<open>Stop\<close> has closed.\<close>

definition doomed :: "life \<Rightarrow> bool" where
  "doomed s \<longleftrightarrow> l_consumer s = Handing \<and>
     (\<exists>i d. pending (l_group s) = Some (i, d) \<and> channel_closed (Workers (l_group s) ! i))"

definition group_ok :: "'j work_group \<Rightarrow> bool" where
  "group_ok wg \<longleftrightarrow> group_inv (length (Workers wg)) wg \<and> Workers wg \<noteq> [] \<and>
     int (length (Workers wg)) < 2 ^ 63"

definition life_inv :: "life \<Rightarrow> bool" where
  "life_inv s \<longleftrightarrow> group_ok (l_group s) \<and>
     (wp_started (l_pool s) \<longrightarrow> l_main s \<in> {Awaiting_signal, Stopped} \<and>
        True \<notin> set (closed_flags (l_group s))) \<and>
     (\<not> wp_started (l_pool s) \<longrightarrow> l_main s \<noteq> Awaiting_signal \<and>
        (l_main s = Awaiting_done \<longrightarrow> l_consumer s = Acknowledging) \<and>
        (l_main s = Stopped \<longrightarrow> l_consumer s = Returned)) \<and>
     (pending (l_group s) = None \<longleftrightarrow> l_consumer s \<noteq> Handing) \<and>
     (\<forall>k. l_main s = Closing k \<longrightarrow> (\<forall>i < length (closed_flags (l_group s)). closed_flags (l_group s) ! i \<longleftrightarrow> i < k)) \<and>
     (\<forall>m. l_crashed s = Some m \<longrightarrow> m = ''send on closed channel'' \<and> doomed s) \<and>
     (l_exited s \<longrightarrow> l_consumer s = Returned \<and> \<not> wp_started (l_pool s) \<or> l_main s = Stopped) \<and>
     (wp_started (l_pool s) \<and> l_main s = Stopped \<longrightarrow>
        GetRegisteredTaskCount (wp_taskRegistrar (l_pool s)) = 0)"

lemma closed_flags_set [simp]: "closed_flags (set_goroutine i g y wg) = closed_flags wg"
  by (cases "i < length (Workers wg)")
    (simp_all add: closed_flags_def set_goroutine_def map_update list_update_same_conv list_update_beyond)

lemma closed_flags_simps [simp]:
  "closed_flags (wg\<lparr>pending := p\<rparr>) = closed_flags wg"
  "closed_flags (wg\<lparr>handed_jobs := h\<rparr>) = closed_flags wg"
  "closed_flags (wg\<lparr>processed := d\<rparr>) = closed_flags wg"
  "closed_flags (wg\<lparr>lastAssignedWorkerIndex := l\<rparr>) = closed_flags wg"
  by (simp_all add: closed_flags_def)

lemma length_closed_flags: "length (closed_flags wg) = length (Workers wg)"
  by (simp add: closed_flags_def)

text \<open>The steps of the group, as the life cycle uses them.\<close>

lemma take_ok:
  assumes "group_ok wg" "pending wg = None" "select_worker d wg = (r, wg')"
  shows "\<exists>i. r = Inr i \<and> i < length (Workers wg) \<and> pending wg' = Some (i, d)"
    "group_ok wg'" "closed_flags wg' = closed_flags wg"
proof -
  let ?n = "length (Workers wg)"
  from assms(1) have ok: "group_inv ?n wg" "0 < ?n" "int ?n < 2 ^ 63" by (auto simp: group_ok_def)
  have sel: "select_worker d wg = (Inr (Suc (length (handed_jobs wg)) mod ?n),
     wg\<lparr>lastAssignedWorkerIndex := of_nat (Suc (length (handed_jobs wg)) mod ?n),
        pending := Some (Suc (length (handed_jobs wg)) mod ?n, d),
        handed_jobs := handed_jobs wg @ [d]\<rparr>)"
    by (rule select_worker_eq [OF ok(2,3) refl]) (use ok(1) in \<open>auto simp: group_inv_def\<close>)
  with assms(3) ok(2) show "\<exists>i. r = Inr i \<and> i < ?n \<and> pending wg' = Some (i, d)"
    "closed_flags wg' = closed_flags wg" by auto
  have "length (Workers wg') = ?n" using sel assms(3) by auto
  with select_inv [OF ok assms(2)] sel assms(3) ok show "group_ok wg'"
    by (simp add: group_ok_def)
qed

lemma hand_ok:
  assumes "group_ok wg" "pending wg = Some (i, d)" "goroutine_at wg i k = Some Receiving"
    and "send_job k wg = (Inr (), wg')"
  shows "group_ok wg'" "closed_flags wg' = closed_flags wg" "pending wg' = None"
proof -
  note wg' = send_job_set [OF assms(4,2)]
  then have len: "length (Workers wg') = length (Workers wg)" by (simp add: set_goroutine_def)
  with send_inv [OF _ assms(2-4)] assms(1) show "group_ok wg'"
    by (auto simp: group_ok_def)
  from wg' show "closed_flags wg' = closed_flags wg" "pending wg' = None" by simp_all
qed

lemma work_ok:
  assumes "group_ok wg" "worker_step wg wg'"
  shows "group_ok wg'" "closed_flags wg' = closed_flags wg" "pending wg' = pending wg"
proof -
  from assms(2) show "closed_flags wg' = closed_flags wg" "pending wg' = pending wg"
    by (auto elim!: worker_stepE)
  then have len: "length (Workers wg') = length (Workers wg)" by (metis length_closed_flags)
  with worker_step_inv [OF _ assms(2)] assms(1) show "group_ok wg'"
    by (auto simp: group_ok_def)
qed

lemma close_ok:
  assumes "group_ok wg" "close_channel_at k wg = (r, wg')" "\<not> closed_flags wg ! k" "k < length (Workers wg)"
  shows "r = Inr ()" "group_ok wg'" "closed_flags wg' = (closed_flags wg)[k := True]"
    "pending wg' = pending wg"
proof -
  from assms(2-4) have wg': "wg' = wg\<lparr>Workers := (Workers wg)[k := (Workers wg ! k)\<lparr>channel_closed := True\<rparr>]\<rparr>"
    "r = Inr ()" by (auto simp: close_channel_at_def closed_flags_def split: if_splits)
  from wg' show "r = Inr ()" "closed_flags wg' = (closed_flags wg)[k := True]" "pending wg' = pending wg"
    by (simp_all add: closed_flags_def map_update)
  have "map goroutines (Workers wg') = map goroutines (Workers wg)"
    using assms(4) by (simp add: wg' map_update list_update_same_conv)
  then have "group_inv (length (Workers wg)) wg'"
    by (rule group_inv_same [rotated]) (use assms(1) in \<open>simp_all add: wg' group_ok_def\<close>)
  then show "group_ok wg'" using assms(1) by (simp add: wg'(1) group_ok_def)
qed

text \<open>Every step keeps the invariant; a step that crashes comes from a doomed state.\<close>

lemma doomed_group: "doomed (s\<lparr>l_crashed := c\<rparr>) = doomed s"
  by (simp add: doomed_def)

lemma send_panic:
  "send_job k wg = (Inl (Panic m), g) \<Longrightarrow> pending wg = Some (i, d) \<Longrightarrow>
   m = ''send on closed channel'' \<and> channel_closed (Workers wg ! i)"
  by (auto simp: send_job_def split: if_splits)

lemma life_step_inv:
  assumes "life_step s t" "life_inv s"
  shows "life_inv t"
  using assms(1)
proof (cases rule: life_step.cases)
  case (take d i g)
  have "pending (l_group s) = None" "group_ok (l_group s)"
    using take assms(2) by (auto simp: life_inv_def)
  from take_ok [OF this(2,1) take(5)] take assms(2) show ?thesis
    by (auto simp: life_inv_def alive_def)
next
  case (take_panic d m g)
  have "pending (l_group s) = None" "group_ok (l_group s)"
    using take_panic assms(2) by (auto simp: life_inv_def)
  from take_ok(1) [OF this(2,1) take_panic(5)] show ?thesis by auto
next
  case (hand i d k g)
  with hand_ok [OF _ hand(4-6)] assms(2) show ?thesis
    by (auto simp: life_inv_def alive_def)
next
  case (hand_panic i d k m g)
  with send_panic [OF hand_panic(5,4)] assms(2) have d: "doomed s" "m = ''send on closed channel''"
    by (auto simp: doomed_def)
  with hand_panic assms(2) show ?thesis
    by (auto simp: life_inv_def alive_def doomed_group)
next
  case (work g)
  with work_ok [OF _ work(3)] assms(2) show ?thesis
    by (auto simp: life_inv_def alive_def)
next
  case (close k g)
  have "\<not> closed_flags (l_group s) ! k" "group_ok (l_group s)"
    using close assms(2) by (auto simp: life_inv_def length_closed_flags)
  from close_ok [OF this(2) close(5) this(1) close(4)] close assms(2) show ?thesis
    by (auto simp: life_inv_def alive_def nth_list_update split: if_splits)
next
  case (close_panic k m g)
  have "\<not> closed_flags (l_group s) ! k" "group_ok (l_group s)"
    using close_panic assms(2) by (auto simp: life_inv_def length_closed_flags)
  from close_ok(1) [OF this(2) close_panic(5) this(1) close_panic(4)] show ?thesis by simp
next
  case (signal p)
  then have "True \<notin> set (closed_flags (l_group s))"
    using assms(2) by (auto simp: life_inv_def begin_Stop_def split: if_splits)
  then have "\<forall>i < length (closed_flags (l_group s)). \<not> closed_flags (l_group s) ! i"
    by (metis nth_mem)
  with signal show ?thesis using assms(2)
    by (auto simp: life_inv_def alive_def begin_Stop_def split: if_splits)
next
  case (signal_ignored p)
  then show ?thesis using assms(2)
    by (auto simp: life_inv_def alive_def begin_Stop_def split: if_splits)
qed (use assms(2) in \<open>auto simp: life_inv_def alive_def elim!: StopConsumerE\<close>)


lemma life_reach_inv:
  assumes "life_reach pool s" and "wp_workerGroup pool = NewWorkerGroup n ns"
    and "0 < unat n" "int (unat n) < 2 ^ 63"
  shows "life_inv s"
  using assms(1)
proof (induction rule: life_reach.induct)
  case start
  obtain r g where "StartGroup (NewWorkerGroup n ns :: delivery work_group) = (r, g)" by fastforce
  with group_inv_start(1) [OF this] have g: "StartGroup (NewWorkerGroup n ns) = (Inr (), g)" by simp
  have "\<not> wp_started pool" using start by (auto simp: begin_Start_def split: if_splits)
  with g have pool: "snd (begin_Start pool) = pool\<lparr>wp_started := True, wp_workerGroup := g\<rparr>"
    by (simp add: begin_Start_def assms(2))
  have run: "running (unat n) g" by (rule running_start(1) [OF assms(3,4) g(1)])
  then have "length (Workers g) = unat n" by (simp add: running_def group_inv_def)
  with run
  show ?case
    by (auto simp: life_inv_def started_life_def pool running_def group_ok_def all_serving_def closed_flags_def)
next
  case (step s t)
  then show ?case by (blast intro: life_step_inv)
qed

text \<open>From a doomed state every step stays doomed, and nothing leaves it but the panic.\<close>

lemma doomed_step:
  assumes "life_step s t" "life_inv s" "doomed s"
  shows "doomed t" "\<not> l_exited t"
proof -
  obtain i d where d: "l_consumer s = Handing" "pending (l_group s) = Some (i, d)"
    "channel_closed (Workers (l_group s) ! i)" using assms(3) by (auto simp: doomed_def)
  have i: "i < length (closed_flags (l_group s))"
    using assms(2) d(2) by (auto simp: life_inv_def group_ok_def group_inv_def length_closed_flags)
  have flag: "closed_flags (l_group s) ! i"
    using d(3) i by (simp add: closed_flags_def)
  have keep: "doomed u" if "l_consumer u = Handing" "pending (l_group u) = Some (i, d)"
    "closed_flags (l_group u) = closed_flags (l_group s) \<or>
     (\<exists>k. closed_flags (l_group u) = (closed_flags (l_group s))[k := True])" for u
  proof -
    have "xs[k := True] ! i" if "xs ! i" for xs k
      using that by (cases "k < length xs") (simp_all add: nth_list_update list_update_beyond)
    with that(3) flag i have "closed_flags (l_group u) ! i" "i < length (closed_flags (l_group u))"
      by auto
    then have "channel_closed (Workers (l_group u) ! i)" by (simp add: closed_flags_def)
    with that show ?thesis by (auto simp: doomed_def)
  qed
  from assms(1) have "doomed t \<and> \<not> l_exited t"
  proof (cases rule: life_step.cases)
    case (hand j e k g)
    with d show ?thesis by (auto simp: send_job_def)
  next
    case (hand_panic j e k m g)
    with assms(3) show ?thesis by (simp add: doomed_group alive_def)
  next
    case (work g)
    with work_ok [OF _ work(3)] assms(2) d keep [of t] show ?thesis
      by (auto simp: life_inv_def alive_def)
  next
    case (close k g)
    have "\<not> closed_flags (l_group s) ! k" "group_ok (l_group s)"
      using close assms(2) by (auto simp: life_inv_def length_closed_flags)
    from close_ok [OF this(2) close(5) this(1) close(4)] close d keep [of t] show ?thesis
      by (auto simp: alive_def)
  next
    case (close_panic k m g)
    with assms(3) show ?thesis by (simp add: doomed_group alive_def)
  next
    case (signal p)
    with d keep [of t] show ?thesis by (auto simp: begin_Stop_def alive_def split: if_splits)
  next
    case (signal_ignored p)
    with d keep [of t] show ?thesis by (auto simp: begin_Stop_def alive_def split: if_splits)
  next
    case main_returns
    have "True \<in> set (closed_flags (l_group s))" using flag i by (metis nth_mem)
    with main_returns assms(2) d(1) show ?thesis by (auto simp: life_inv_def)
  qed (use d keep [of t] in \<open>auto simp: alive_def elim!: StopConsumerE\<close>)
  then show "doomed t" "\<not> l_exited t" by simp_all
qed

lemma doomed_steps:
  assumes "life_step\<^sup>*\<^sup>* s t" "life_inv s" "doomed s" "\<not> l_exited s"
  shows "life_inv t \<and> doomed t \<and> \<not> l_exited t"
  using assms by (induction rule: rtranclp_induct) (auto dest: life_step_inv doomed_step)

lemma doomed_panics:
  assumes "doomed s" "alive s"
  shows "life_step s (s\<lparr>l_crashed := Some ''send on closed channel''\<rparr>)"
proof -
  obtain i d where d: "l_consumer s = Handing" "pending (l_group s) = Some (i, d)"
    "channel_closed (Workers (l_group s) ! i)" using assms(1) by (auto simp: doomed_def)
  then have "send_job 0 (l_group s) = (Inl (Panic ''send on closed channel''), (l_group s)\<lparr>pending := None\<rparr>)"
    by (simp add: send_job_def)
  from life_step.hand_panic [OF assms(2) d(1,2) this] show ?thesis .
qed

text \<open>
  A stop that is not disturbed: the main goroutine closes every channel, no worker moves,
  the idle consumer takes the stop request, and the process exits.
\<close>

lemma close_rest:
  assumes "life_inv s" "alive s" "l_main s = Closing k" "l_consumer s = Selecting"
    and "k \<le> length (Workers (l_group s))"
  shows "\<exists>t. life_step\<^sup>*\<^sup>* s t \<and> life_inv t \<and> alive t \<and> l_main t = Sending_stop \<and> l_consumer t = Selecting \<and>
    wp_started (l_pool t) = wp_started (l_pool s) \<and>
    map goroutines (Workers (l_group t)) = map goroutines (Workers (l_group s))"
  using assms
proof (induction "length (Workers (l_group s)) - k" arbitrary: s k)
  case 0
  let ?t = "s\<lparr>l_main := Sending_stop\<rparr>"
  have step: "life_step s ?t" using 0 by (intro life_step.all_closed) auto
  with life_step_inv [OF step] 0 show ?case by (intro exI [of _ ?t]) auto
next
  case (Suc m)
  have k: "k < length (Workers (l_group s))" using Suc.hyps(2) by simp
  let ?g = "l_group s"
  let ?g' = "?g\<lparr>Workers := (Workers ?g)[k := (Workers ?g ! k)\<lparr>channel_closed := True\<rparr>]\<rparr>"
  have "\<not> closed_flags ?g ! k" using Suc.prems(1,3) k by (auto simp: life_inv_def length_closed_flags)
  then have close: "close_channel_at k ?g = (Inr (), ?g')"
    using k by (simp add: close_channel_at_def closed_flags_def)
  let ?s = "set_group ?g' (s\<lparr>l_main := Closing (Suc k)\<rparr>)"
  have step: "life_step s ?s" by (rule life_step.close [OF Suc.prems(2,3) k close])
  have "m = length (Workers (l_group ?s)) - Suc k" using Suc.hyps(2) by simp
  from Suc.hyps(1) [OF this] life_step_inv [OF step Suc.prems(1)] Suc.prems k obtain t where
    t: "life_step\<^sup>*\<^sup>* ?s t" "life_inv t" "alive t" "l_main t = Sending_stop" "l_consumer t = Selecting"
    "wp_started (l_pool t) = wp_started (l_pool s)"
    "map goroutines (Workers (l_group t)) = map goroutines (Workers (l_group ?s))" by auto
  have "map goroutines (Workers (l_group ?s)) = map goroutines (Workers ?g)"
    using k by (simp add: map_update list_update_same_conv)
  with t step show ?case by (metis converse_rtranclp_into_rtranclp)
qed

lemma quiet_stop:
  assumes "life_inv s" "alive s" "wp_started (l_pool s)" "l_main s = Awaiting_signal"
    and "l_consumer s = Selecting" "GetRegisteredTaskCount (wp_taskRegistrar (l_pool s)) \<noteq> 0"
  shows "\<exists>t. life_step\<^sup>*\<^sup>* s t \<and> l_exited t \<and> l_crashed t = None \<and>
    map goroutines (Workers (l_group t)) = map goroutines (Workers (l_group s))"
proof -
  let ?p = "(l_pool s)\<lparr>wp_started := False\<rparr>"
  let ?s = "s\<lparr>l_pool := ?p, l_main := Closing 0\<rparr>"
  have "begin_Stop (l_pool s) = (True, ?p)" using assms(3,6) by (simp add: begin_Stop_def)
  from life_step.signal [OF assms(2,4) this] have step: "life_step s ?s" .
  from close_rest [of ?s 0] life_step_inv [OF step assms(1)] assms obtain t where
    t: "life_step\<^sup>*\<^sup>* ?s t" "alive t" "l_main t = Sending_stop" "l_consumer t = Selecting"
    "\<not> wp_started (l_pool t)" "map goroutines (Workers (l_group t)) = map goroutines (Workers (l_group s))"
    by auto
  let ?t1 = "t\<lparr>l_main := Awaiting_done, l_consumer := Acknowledging\<rparr>"
  let ?t2 = "?t1\<lparr>l_main := Stopped, l_consumer := Returned\<rparr>"
  let ?t3 = "?t2\<lparr>l_exited := True\<rparr>"
  have "life_step t ?t1" by (rule life_step.stop) (use t(2-4) in \<open>simp_all add: StopConsumer.stop_sent\<close>)
  moreover have "life_step ?t1 ?t2"
    by (rule life_step.stop) (use t(2) in \<open>simp_all add: StopConsumer.stop_received\<close>)
  moreover have "life_step ?t2 ?t3" by (rule life_step.exit) (use t(2,5) in simp_all)
  ultimately have "life_step\<^sup>*\<^sup>* s ?t3"
    using step t(1) by (meson converse_rtranclp_into_rtranclp rtranclp.rtrancl_into_rtrancl)
  then show ?thesis using t(2,6) by (intro exI [of _ ?t3]) (simp add: alive_def)
qed

end
