(* ===== verification/Worker_Properties.thy ===== *)
theory Worker_Properties
  imports Broker_Properties Pool_Lifecycle
begin

section \<open>Properties of the worker group, the consumer and the worker pool\<close>

subsection \<open>Handing jobs over\<close>

text \<open>
  C5. The hand-over is exact: at every moment, whatever the order in which the goroutines run
  and jobs finish, and also while and after the group is stopped, the jobs worker \<open>i\<close> has
  processed, followed by the one it is processing and the one waiting at its channel, are
  exactly the jobs at every \<open>n\<close>-th position of the hand-over order, in that order. No job is
  lost, given to two workers or processed twice, and the loads differ by at most one.
\<close>

theorem round_robin_exact:
  assumes "group_reach n ns wg" "0 < unat n" "int (unat n) < 2 ^ 63" "i < unat n"
  shows "map snd (filter (\<lambda>x. fst x = i) (processed wg)) @ in_hand wg i @ waiting_for wg i =
    map ((!) (handed_jobs wg)) (filter (\<lambda>k. Suc k mod unat n = i) [0 ..< length (handed_jobs wg)])"
  using group_reach_inv [OF assms(1-3)] assms(4)
  by (simp add: group_inv_def taken_by_def done_by_def dealt_def)

lemma group_reach_steps: "group_step\<^sup>*\<^sup>* wg wg' \<Longrightarrow> group_reach n ns wg \<Longrightarrow> group_reach n ns wg'"
  by (induction rule: rtranclp_induct) (auto intro: group_reach.step)

lemma three_jobs:
  "\<exists>wg :: nat work_group. group_reach 2 ns wg \<and> running 2 wg \<and> handed_jobs wg = [10, 20, 30]"
proof -
  obtain r and wg0 :: "nat work_group" where s: "StartGroup (NewWorkerGroup 2 ns) = (r, wg0)" by fastforce
  note start = running_start [OF _ _ s] and ok = group_inv_start(1) [OF s]
  have r0: "group_reach 2 ns wg0" "running 2 wg0" "handed_jobs wg0 = []"
    using start ok s by (auto intro: group_reach.start)
  obtain wg1 where w1: "running 2 wg1" "handed_jobs wg1 = [10]" "group_step\<^sup>*\<^sup>* wg0 wg1"
    using AssignJob_running [OF r0(2), of 10] r0(3) by auto
  obtain wg2 where w2: "running 2 wg2" "handed_jobs wg2 = [10, 20]" "group_step\<^sup>*\<^sup>* wg1 wg2"
    using AssignJob_running [OF w1(1), of 20] w1(2) by auto
  obtain wg3 where w3: "running 2 wg3" "handed_jobs wg3 = [10, 20, 30]" "group_step\<^sup>*\<^sup>* wg2 wg3"
    using AssignJob_running [OF w2(1), of 30] w2(2) by auto
  show ?thesis using w3 group_reach_steps [OF w3(3) group_reach_steps [OF w2(3) group_reach_steps [OF w1(3) r0(1)]]]
    by blast
qed

theorem round_robin_exact_witness:
  "\<exists>wg :: nat work_group. group_reach 2 ''w'' wg \<and> handed_jobs wg = [10, 20, 30] \<and>
     map snd (filter (\<lambda>x. fst x = 1) (processed wg)) @ in_hand wg 1 @ waiting_for wg 1 = [10, 30]"
proof -
  obtain wg :: "nat work_group" where wg: "group_reach 2 ''w'' wg" "handed_jobs wg = [10, 20, 30]"
    using three_jobs by blast
  have "[0..<3] = [0, 1, 2::nat]" by (simp add: upt_rec)
  with round_robin_exact [OF wg(1), of 1]
  have "map snd (filter (\<lambda>x. fst x = 1) (processed wg)) @ in_hand wg 1 @ waiting_for wg 1 = [10, 30]"
    by (simp add: wg(2))
  with wg show ?thesis by blast
qed

subsection \<open>The consumer\<close>

lemma idle_pooled: "pool_inv out p \<Longrightarrow> c \<in> set (idle p) \<Longrightarrow> Some c \<in> set (ConnectionPool p)"
  by (auto simp: pool_inv_def idle_def) (metis option.collapse)

text \<open>
  C6. A call of \<open>StartConsumer\<close> gives back the connection it borrowed, however it ends: at the
  end that connection is in the pool, or it has been closed; and if the rest of the process
  loses no connection meanwhile, none is lost. It leaves no channel of its own open and does
  not panic. Either its set-up failed with an
  error and the workers saw nothing, or exactly the deliveries up to the first one with an
  empty body were handed over, in order; that one is rejected without requeueing and ends the
  consumer with an error, and the later ones are not looked at. It returns nil only for a
  stop request.
\<close>

theorem consumer_outcome:
  assumes "pool_inv out (prov s)" "running n (grp s)" "\<forall>k. env_ok (env k)"
    and "amqpConf (prov s) = Some a" "1 \<le> sint (ConnectionPoolSize a)"
    and "StartConsumer (amqp_provider net) b nack AssignJob gn env ds fin s = (r, s')"
  shows "pool_inv out (prov s') \<and> channels (prov s') \<subseteq> channels (prov s) \<and>
    (\<forall>c p1. getConnection (amqp_provider net) (prov s) = (Inr (Some c), p1) \<longrightarrow>
       Some c \<in> set (ConnectionPool (prov s')) \<or> c \<in> closed (prov s')) \<and>
    ((\<forall>k. env_lossless (env k)) \<longrightarrow> nothing_lost out (prov s) out (prov s')) \<and>
    processingWG s' = processingWG s \<and> running n (grp s') \<and>
    (((\<exists>e. r = Inl (Err e)) \<and> grp s' = grp s \<and> nacked s' = nacked s) \<or>
     (r = consume_result nack ds fin \<and>
      handed_jobs (grp s') = handed_jobs (grp s) @ takeWhile (\<lambda>d. Body d \<noteq> []) ds \<and>
      nacked s' = nacked s @ take 1 (dropWhile (\<lambda>d. Body d \<noteq> []) ds))) \<and>
    (r = Inr () \<longrightarrow> fin = StopRequest \<and> (\<forall>d \<in> set ds. Body d \<noteq> []))"
proof -
  from wpD [OF deliveries.StartConsumer_spec [OF assms(1-5)] assms(6)]
  have post: "pool_inv out (prov s')" "channels (prov s') \<subseteq> channels (prov s)"
    "(\<forall>k. env_lossless (env k)) \<longrightarrow> nothing_lost out (prov s) out (prov s')"
    "\<forall>c p1. getConnection (amqp_provider net) (prov s) = (Inr (Some c), p1) \<longrightarrow>
       c \<in> set (idle (prov s')) \<union> closed (prov s')"
    "deliveries.outcome_ok n nack ds fin s r s'" by simp_all
  have body: "has_body = (\<lambda>d. Body d \<noteq> [])" by (simp add: fun_eq_iff has_body_def)
  from post(5) assms(2) consume_result_nil [of nack ds fin]
  have "processingWG s' = processingWG s \<and> running n (grp s') \<and>
    (((\<exists>e. r = Inl (Err e)) \<and> grp s' = grp s \<and> nacked s' = nacked s) \<or>
     (r = consume_result nack ds fin \<and>
      handed_jobs (grp s') = handed_jobs (grp s) @ takeWhile (\<lambda>d. Body d \<noteq> []) ds \<and>
      nacked s' = nacked s @ take 1 (dropWhile (\<lambda>d. Body d \<noteq> []) ds))) \<and>
    (r = Inr () \<longrightarrow> fin = StopRequest \<and> (\<forall>d \<in> set ds. Body d \<noteq> []))"
    by (auto simp: deliveries.outcome_ok_def side_untouched_def consumed_def body list_all_iff)
  with post(1-4) idle_pooled [OF post(1)] show ?thesis by blast
qed

definition sample_delivery :: "string \<Rightarrow> delivery" where
  "sample_delivery body = \<lparr>Headers = Map.empty, Body = body, ack_error = None\<rparr>"

definition started_group :: "64 word \<Rightarrow> delivery work_group" where
  "started_group n = snd (StartGroup (NewWorkerGroup n ''worker''))"

definition sample_consumer :: "64 word \<Rightarrow> (provider, delivery work_group) consumer" where
  "sample_consumer n = \<lparr>prov = pooled_provider, grp = started_group n, processingWG = 0, nacked = [],
     done_stops = 0\<rparr>"

lemma started_group_running:
  assumes "0 < unat n" "int (unat n) < 2 ^ 63"
  shows "running (unat n) (started_group n)" "handed_jobs (started_group n) = []"
    "StartGroup (NewWorkerGroup n ''worker'') = (Inr (), started_group n)"
proof -
  obtain r g where s: "StartGroup (NewWorkerGroup n ''worker'' :: delivery work_group) = (r, g)" by fastforce
  from running_start [OF assms s] group_inv_start(1) [OF s] s
  show "running (unat n) (started_group n)" "handed_jobs (started_group n) = []"
    "StartGroup (NewWorkerGroup n ''worker'') = (Inr (), started_group n)"
    by (simp_all add: started_group_def)
qed

text \<open>On a calm network the set-up succeeds, and the outcome is that of the loop.\<close>

lemma calm_consumer:
  assumes "running n (grp s)" "prov s = pooled_provider"
  shows "fst (StartConsumer (amqp_provider calm_net) b nack AssignJob gn (\<lambda>_. id) ds fin s) =
    consume_result nack ds fin"
proof -
  have loop: "fst (consume_loop nack AssignJob (\<lambda>_. id) ds fin s') = consume_result nack ds fin"
    if "running n (grp s')" for s' :: "(provider, delivery work_group) consumer"
    using deliveries.consume_loop_spec [OF that, of "\<lambda>_. True" "\<lambda>_. id" nack ds fin] by auto
  have close: "fst (on_prov (CloseAmqpChannel calm_net ch) s') = Inr ()" for ch s'
    by (simp add: on_prov_def CloseAmqpChannel_def calm_fields go_seq_def go_bind_def go_update_def
        go_return_def lib_call_def)
  have no: "fst (on_prov (ReleaseConnectionToPool calm_net i) s') \<noteq> Inl (Panic m)" for i s' m
    by (auto simp: on_prov_def dest: Release_no_panic split: prod.split)
  have dfr: "fst (go_defer c m s') = fst (m s')"
    if "\<And>s' m. fst (c s') \<noteq> Inl (Panic m)" for c :: "('s, unit) go" and m s'
    using that by (auto simp: go_defer_def split: prod.split sum.split fault.split) (metis fst_conv)+
  have get: "on_prov (getConnection (amqp_provider calm_net)) s =
      (Inr (Some 0), s\<lparr>prov := pooled_provider\<lparr>ConnectionPool := [Some 1]\<rparr>\<rparr>)"
    using assms(2) by (simp add: on_prov_def getConnection_def amqp_provider_def GetConnectionFromPool_def
        pop_connection_def pooled_provider_eq NewAmqpProvider_def go_bind_def go_seq_def go_return_def)
  have seq: "fst (go_seq (on_prov (call_on_channel calm_net k)) m s') =
      fst (m (s'\<lparr>prov := (prov s')\<lparr>tick := Suc (tick (prov s')), calls := calls (prov s') @ [k]\<rparr>\<rparr>))"
    for k s' and m :: "((provider, delivery work_group) consumer, unit) go"
    by (simp add: go_seq_def go_bind_def on_prov_def calm_call)
  have chan: "fst (go_bind (on_prov (CreateAmqpChannel calm_net (Some c) False)) f s') =
      fst (f (tick (prov s'), False) (s'\<lparr>prov := (prov s')\<lparr>tick := Suc (tick (prov s')),
        channels := insert (tick (prov s'), c) (channels (prov s'))\<rparr>\<rparr>))"
    for c s' and f :: "chan \<times> bool \<Rightarrow> ((provider, delivery work_group) consumer, unit) go"
    by (simp add: CreateAmqpChannel_def calm_fields go_seq_def go_bind_def on_prov_def lib_call_def
        go_update_def go_return_def)
  show ?thesis
    unfolding StartConsumer_def go_bind_def [of "on_prov (getConnection (amqp_provider calm_net))"] get
    using assms(1) by (simp add: dfr no amqp_provider_def chan close SetChannelQoS_def CreateConsumer_def seq loop)
qed

lemma env_ok_id: "env_ok id" "env_lossless id"
  by (simp_all add: env_ok_def env_lossless_def)

theorem consumer_outcome_witness:
  "\<exists>s'. StartConsumer (amqp_provider calm_net) sample_broker (\<lambda>_. None) AssignJob ''worker'' (\<lambda>_. id)
       [sample_delivery ''{}''] StopRequest (sample_consumer 2) = (Inr (), s') \<and>
     handed_jobs (grp s') = [sample_delivery ''{}''] \<and> channels (prov s') = {} \<and>
     nothing_lost [] pooled_provider [] (prov s')"
proof -
  have g: "running 2 (grp (sample_consumer 2))" "handed_jobs (grp (sample_consumer 2)) = []"
    using started_group_running [of 2] by (simp_all add: sample_consumer_def)
  have p: "prov (sample_consumer 2) = pooled_provider" by (simp add: sample_consumer_def)
  obtain r s' where run: "StartConsumer (amqp_provider calm_net) sample_broker (\<lambda>_. None) AssignJob ''worker'' (\<lambda>_. id)
      [sample_delivery ''{}''] StopRequest (sample_consumer 2) = (r, s')" by fastforce
  have "consume_result (\<lambda>_. None) [sample_delivery ''{}''] StopRequest = Inr ()"
    by (simp add: consume_result_nil has_body_def sample_delivery_def)
  with calm_consumer [OF g(1) p, of sample_broker "\<lambda>_. None" "''worker''" "[sample_delivery ''{}'']" StopRequest] run
  have r: "r = Inr ()" by simp
  have conf: "amqpConf (prov (sample_consumer 2)) = Some sample_amqp" "1 \<le> sint (ConnectionPoolSize sample_amqp)"
    using pooled_fields(1) p by (simp_all add: sample_amqp_def)
  have inv: "pool_inv [] (prov (sample_consumer 2))" using pooled_inv p by simp
  have env: "\<forall>k :: nat. env_ok ((\<lambda>_. id) k)" "\<forall>k :: nat. env_lossless ((\<lambda>_. id) k)"
    using env_ok_id by auto
  from consumer_outcome [OF inv g(1) env(1) conf run] env(2) r run g(2) p pooled_fields(5)
  show ?thesis by (auto simp: sample_delivery_def)
qed

text \<open>
  C9. While the pool is not being stopped the consumer survives every error: whatever ends the
  rounds (lost connections, closed channels, a cancelled consumer, empty messages, failed
  set-ups), the goroutine neither panics nor ends, no channel stays open and, unless the rest
  of the process loses some, no connection is lost over the rounds: each one that was pooled,
  lent out or newly watched is pooled, lent out or closed in the end. The jobs of all rounds
  together, each round cut at its first empty message, are dealt to the workers in turn, with
  no break at a reconnection.
\<close>

theorem consumer_survives_errors:
  assumes "pool_inv out (prov s)" "StartGroup (NewWorkerGroup n ns) = (Inr (), grp s)"
    and "0 < unat n" "int (unat n) < 2 ^ 63"
    and "amqpConf (prov s) = Some a" "1 \<le> sint (ConnectionPoolSize a)"
    and "\<forall>rd \<in> set rounds. (\<forall>k. env_ok (round_env rd k)) \<and> round_started rd"
  shows "\<exists>s' hs. consumer_goroutine (amqp_provider net) b nack AssignJob ns rounds s = (Inr False, s') \<and>
    pool_inv out (prov s') \<and> channels (prov s') \<subseteq> channels (prov s) \<and>
    ((\<forall>rd \<in> set rounds. \<forall>k. env_lossless (round_env rd k)) \<longrightarrow> nothing_lost out (prov s) out (prov s')) \<and>
    list_all2 (\<lambda>rd h. h = [] \<or> h = takeWhile (\<lambda>d. Body d \<noteq> []) (round_deliveries rd)) rounds hs \<and>
    (\<forall>i < unat n. taken_by (grp s') i = dealt (unat n) i (concat hs))"
proof -
  note start = running_start [OF assms(3,4,2)]
  from deliveries.consumer_goroutine_survives [OF assms(1) start(1) assms(5-7), of net b nack ns]
  obtain s' hs where run: "consumer_goroutine (amqp_provider net) b nack AssignJob ns rounds s = (Inr False, s')"
    "running (unat n) (grp s')" "pool_inv out (prov s')" "channels (prov s') \<subseteq> channels (prov s)"
    "(\<forall>rd \<in> set rounds. \<forall>k. env_lossless (round_env rd k)) \<longrightarrow> nothing_lost out (prov s) out (prov s')"
    "handed_in_rounds rounds hs" "handed_jobs (grp s') = handed_jobs (grp s) @ concat hs" by blast
  have body: "has_body = (\<lambda>d. Body d \<noteq> [])" by (simp add: fun_eq_iff has_body_def)
  from run(2,7) start(2) have "\<forall>i < unat n. taken_by (grp s') i = dealt (unat n) i (concat hs)"
    by (simp add: running_def group_inv_def)
  with run show ?thesis unfolding handed_in_rounds_def body by blast
qed

text \<open>
  Two rounds: in the first one another goroutine publishes meanwhile and there is an empty
  message, the second loses its connection.
\<close>

definition publish_meanwhile :: "provider \<Rightarrow> provider" where
  "publish_meanwhile p = snd (AmqpPublishWithConfirm calm_net ''k'' sample_msg ''x'' p)"

definition lose_connection :: "provider \<Rightarrow> provider" where
  "lose_connection p = (if 0 < tick p then p\<lparr>closed := insert 0 (closed p)\<rparr> else p)"

definition sample_rounds :: "provider round list" where
  "sample_rounds = [
     \<lparr>round_env = \<lambda>_. publish_meanwhile, round_deliveries = [sample_delivery ''1'', sample_delivery [], sample_delivery ''2''],
      round_end = DeliveriesClosed, round_started = True\<rparr>,
     \<lparr>round_env = \<lambda>_. lose_connection, round_deliveries = [sample_delivery ''2'', sample_delivery ''3''],
      round_end = ConnClosed None, round_started = True\<rparr>]"

lemma env_ok_publish: "env_ok publish_meanwhile" "env_lossless publish_meanwhile"
  using env_publishing [of calm_net "''k''" sample_msg "''x''"]
  by (simp_all add: publish_meanwhile_def [abs_def])

lemma env_ok_lose: "env_ok lose_connection" "env_lossless lose_connection"
  by (auto simp: env_ok_def env_lossless_def lose_connection_def pool_inv_def idle_def
      intro: nothing_lost_same)

theorem consumer_survives_errors_witness:
  "\<exists>s' h1 h2. consumer_goroutine (amqp_provider calm_net) sample_broker (\<lambda>_. None) AssignJob ''worker''
       sample_rounds (sample_consumer 2) = (Inr False, s') \<and>
     nothing_lost [] pooled_provider [] (prov s') \<and>
     h1 \<in> {[], [sample_delivery ''1'']} \<and> h2 \<in> {[], [sample_delivery ''2'', sample_delivery ''3'']} \<and>
     taken_by (grp s') 1 = dealt 2 1 (h1 @ h2)"
proof -
  have p: "prov (sample_consumer 2) = pooled_provider" "grp (sample_consumer 2) = started_group 2"
    by (simp_all add: sample_consumer_def)
  have inv: "pool_inv [] (prov (sample_consumer 2))" using pooled_inv p by simp
  have start: "StartGroup (NewWorkerGroup 2 ''worker'') = (Inr (), grp (sample_consumer 2))"
    using started_group_running(3) [of 2] p by simp
  have conf: "amqpConf (prov (sample_consumer 2)) = Some sample_amqp" "1 \<le> sint (ConnectionPoolSize sample_amqp)"
    using pooled_fields(1) p by (simp_all add: sample_amqp_def)
  have rds: "\<forall>rd \<in> set sample_rounds. (\<forall>k. env_ok (round_env rd k)) \<and> round_started rd"
    "\<forall>rd \<in> set sample_rounds. \<forall>k. env_lossless (round_env rd k)"
    using env_ok_publish env_ok_lose by (simp_all add: sample_rounds_def)
  from consumer_survives_errors [OF inv start _ _ conf rds(1), of calm_net sample_broker "\<lambda>_. None"]
  obtain s' hs where h: "consumer_goroutine (amqp_provider calm_net) sample_broker (\<lambda>_. None) AssignJob ''worker''
      sample_rounds (sample_consumer 2) = (Inr False, s')" "nothing_lost [] pooled_provider [] (prov s')"
    "list_all2 (\<lambda>rd h. h = [] \<or> h = takeWhile (\<lambda>d. Body d \<noteq> []) (round_deliveries rd)) sample_rounds hs"
    "\<forall>i < 2. taken_by (grp s') i = dealt 2 i (concat hs)" using rds(2) p(1) by auto
  from h(3) obtain h1 h2 where hs: "hs = [h1, h2]" "h1 \<in> {[], [sample_delivery ''1'']}"
    "h2 \<in> {[], [sample_delivery ''2'', sample_delivery ''3'']}"
    by (auto simp: sample_rounds_def list_all2_Cons1 sample_delivery_def)
  have "taken_by (grp s') 1 = dealt 2 1 (h1 @ h2)" using h(4) hs(1) by simp
  with h(1,2) hs(2,3) show ?thesis by blast
qed

subsection \<open>Running and stopping\<close>

text \<open>
  C10. Stopping a pool under load kills it: \<open>Stop\<close> closes the job channels before it stops the
  consumer, and once it has closed the channel to which the consumer is handing a job, the
  process can only end in the panic \<^verbatim>\<open>send on closed channel\<close>. The panic is possible at
  once, and no continuation, whatever the workers, the network and the server do, reaches a
  regular exit or finishes the hand-over.
\<close>

theorem stop_during_handover_crashes:
  assumes "life_reach pool s" "wp_workerGroup pool = NewWorkerGroup n ns"
    and "0 < unat n" "int (unat n) < 2 ^ 63" "alive s"
    and "l_consumer s = Handing" "pending (l_group s) = Some (i, d)"
    and "channel_closed (Workers (l_group s) ! i)"
  shows "life_step s (s\<lparr>l_crashed := Some ''send on closed channel''\<rparr>) \<and>
    (\<forall>t. life_step\<^sup>*\<^sup>* s t \<longrightarrow> \<not> l_exited t \<and> l_consumer t = Handing)"
proof -
  have doom: "doomed s" using assms(6-8) by (auto simp: doomed_def)
  have inv: "life_inv s" by (rule life_reach_inv [OF assms(1-4)])
  have "\<not> l_exited s" using assms(5) by (simp add: alive_def)
  with doomed_panics [OF doom assms(5)] doomed_steps [OF _ inv doom] show ?thesis
    by (auto simp: doomed_def)
qed

text \<open>A pool with one worker, and the path on which it is stopped during a hand-over.\<close>

definition one_pool :: worker_pool where
  "one_pool = \<lparr>wp_backend = None, wp_broker = sample_broker, wp_config = Some sample_config,
     wp_taskRegistrar = NewDefaultTaskRegistrar\<lparr>registeredTasksCount := 1\<rparr>, wp_started = False,
     wp_workerPoolID = ''id'', wp_concurrency = 1, wp_nameSpace = ''w'', wp_contextType = None,
     wp_workerGroup = NewWorkerGroup 1 ''w'', wp_configProvider = NewConfigProvider\<rparr>"

definition one_group :: "delivery goroutine \<Rightarrow> bool \<Rightarrow> (nat \<times> delivery) option \<Rightarrow> delivery list \<Rightarrow>
    delivery work_group" where
  "one_group g c p h = \<lparr>Namespace = ''w'', Concurrency = 1,
     Workers = [\<lparr>WorkerID = 0, channel_closed = c, goroutines = [g]\<rparr>],
     lastAssignedWorkerIndex = 0, pending = p, handed_jobs = h, processed = []\<rparr>"

definition one_life :: "delivery work_group \<Rightarrow> bool \<Rightarrow> consumer_phase \<Rightarrow> main_phase \<Rightarrow> life" where
  "one_life g st c m = \<lparr>l_pool = one_pool\<lparr>wp_started := st, wp_workerGroup := g\<rparr>, l_consumer = c,
     l_main = m, l_exited = False, l_crashed = None\<rparr>"

lemma one_life_simps [simp]:
  "alive (one_life g st c m)" "l_consumer (one_life g st c m) = c" "l_main (one_life g st c m) = m"
  "l_group (one_life g st c m) = g" "wp_started (l_pool (one_life g st c m)) = st"
  "GetRegisteredTaskCount (wp_taskRegistrar (l_pool (one_life g st c m))) = 1"
  "(one_life g st c m)\<lparr>l_consumer := c'\<rparr> = one_life g st c' m"
  "(one_life g st c m)\<lparr>l_main := m'\<rparr> = one_life g st c m'"
  "set_group g' (one_life g st c m) = one_life g' st c m"
  "l_crashed (one_life g st c m) = None" "l_exited (one_life g st c m) = False"
  by (simp_all add: one_life_def alive_def set_group_def one_pool_def GetRegisteredTaskCount_def)

lemma one_begin: "fst (begin_Start one_pool) = Inr True"
  "started_life one_pool = one_life (one_group Receiving False None []) True Connecting Awaiting_signal"
  by (simp_all add: begin_Start_def one_pool_def StartGroup_def NewWorkerGroup_def started_life_def
      one_life_def one_group_def)

lemma one_select:
  "select_worker d (one_group g c None h) = (Inr 0, one_group g c (Some (0, d)) (h @ [d]))"
  by (simp add: select_worker_def one_group_def Let_def signed_modulo_int_def)

lemma one_send:
  "send_job 0 (one_group Receiving False (Some (0, d)) h) = (Inr (), one_group (Processing d) False None h)"
  by (simp add: send_job_def one_group_def)

abbreviation d1 where "d1 \<equiv> sample_delivery ''1''"
abbreviation d2 where "d2 \<equiv> sample_delivery ''2''"

lemma one_busy: "life_reach one_pool (one_life (one_group (Processing d1) False None [d1]) True Selecting Awaiting_signal)"
proof -
  have body: "has_body d1" by (simp add: has_body_def sample_delivery_def)
  have "life_reach one_pool (one_life (one_group Receiving False None []) True Connecting Awaiting_signal)"
    using life_reach.start [OF one_begin(1)] by (simp add: one_begin)
  from life_reach.step [OF this life_step.connect]
  have "life_reach one_pool (one_life (one_group Receiving False None []) True Selecting Awaiting_signal)"
    by simp
  from life_reach.step [OF this life_step.take [of _ d1]] body
  have "life_reach one_pool (one_life (one_group Receiving False (Some (0, d1)) [d1]) True Handing Awaiting_signal)"
    by (simp add: one_select)
  from life_reach.step [OF this life_step.hand [of _ 0 d1 0]]
  show ?thesis
    by (simp add: one_send) (simp add: one_group_def goroutine_at_def)
qed

lemma one_doomed:
  "life_reach one_pool (one_life (one_group (Processing d1) True (Some (0, d2)) [d1, d2]) False Handing (Closing 1))"
proof -
  have body: "has_body d2" by (simp add: has_body_def sample_delivery_def)
  let ?g = "one_group (Processing d1) False (Some (0, d2)) [d1, d2]"
  from life_reach.step [OF one_busy life_step.take [of _ d2]] body
  have r: "life_reach one_pool (one_life ?g True Handing Awaiting_signal)"
    by (simp add: one_select)
  have "begin_Stop (l_pool (one_life ?g True Handing Awaiting_signal)) =
      (True, l_pool (one_life ?g False Handing Awaiting_signal))"
    by (simp add: begin_Stop_def one_life_def one_pool_def GetRegisteredTaskCount_def)
  moreover have "(one_life ?g True Handing Awaiting_signal)\<lparr>
      l_pool := l_pool (one_life ?g False Handing Awaiting_signal), l_main := Closing 0\<rparr> =
      one_life ?g False Handing (Closing 0)" by (simp add: one_life_def)
  ultimately have "life_reach one_pool (one_life ?g False Handing (Closing 0))"
    using life_reach.step [OF r life_step.signal] by (metis one_life_simps(1,3))
  from life_reach.step [OF this life_step.close [of _ 0]] show ?thesis
    by (simp add: close_channel_at_def) (simp add: one_group_def)
qed

theorem stop_during_handover_crashes_witness:
  "\<exists>s. life_reach one_pool s \<and> alive s \<and>
     life_step s (s\<lparr>l_crashed := Some ''send on closed channel''\<rparr>) \<and>
     (\<forall>t. life_step\<^sup>*\<^sup>* s t \<longrightarrow> \<not> l_exited t)"
proof -
  have pool: "wp_workerGroup one_pool = NewWorkerGroup 1 ''w''" by (simp add: one_pool_def)
  from stop_during_handover_crashes [OF one_doomed pool, of 0 d2] show ?thesis
    using one_doomed by (intro exI [of _ "one_life (one_group (Processing d1) True (Some (0, d2)) [d1, d2])
      False Handing (Closing 1)"]) (simp add: one_group_def)
qed

text \<open>
  C7. A pool that is not being stopped is safe: while \<^verbatim>\<open>wp.started\<close> holds no channel is
  closed and no goroutine has panicked, so no hand-over can, and the process ends only if a
  signal came while no task was registered. The only panic there is, ever, is that of a
  hand-over met by \<open>Stop\<close>; and at every moment each worker has taken exactly its share of
  the messages.
\<close>

theorem running_pool_safe:
  assumes "life_reach pool s" "wp_workerGroup pool = NewWorkerGroup n ns"
    and "0 < unat n" "int (unat n) < 2 ^ 63"
  shows "(wp_started (l_pool s) \<longrightarrow> l_crashed s = None \<and>
      (\<forall>w \<in> set (Workers (l_group s)). \<not> channel_closed w) \<and>
      (l_exited s \<longrightarrow> l_main s = Stopped \<and> GetRegisteredTaskCount (wp_taskRegistrar (l_pool s)) = 0)) \<and>
    (\<forall>m. l_crashed s = Some m \<longrightarrow> m = ''send on closed channel'' \<and> \<not> wp_started (l_pool s) \<and>
      l_consumer s = Handing \<and>
      (\<exists>i d. pending (l_group s) = Some (i, d) \<and> channel_closed (Workers (l_group s) ! i))) \<and>
    (\<forall>i < length (Workers (l_group s)).
      taken_by (l_group s) i = dealt (length (Workers (l_group s))) i (handed_jobs (l_group s)))"
proof -
  let ?g = "l_group s"
  have inv: "life_inv s" by (rule life_reach_inv [OF assms])
  then have g: "group_inv (length (Workers ?g)) ?g" by (simp add: life_inv_def group_ok_def)
  have closed: "True \<notin> set (closed_flags ?g) \<longleftrightarrow> (\<forall>w \<in> set (Workers ?g). \<not> channel_closed w)"
    by (auto simp: closed_flags_def)
  have started: "\<not> wp_started (l_pool s)" if "doomed s"
  proof -
    from that obtain i d where i: "pending ?g = Some (i, d)" "channel_closed (Workers ?g ! i)"
      by (auto simp: doomed_def)
    with g have "i < length (Workers ?g)" by (auto simp: group_inv_def)
    with i inv closed show ?thesis by (auto simp: life_inv_def)
  qed
  with inv closed have "\<forall>m. l_crashed s = Some m \<longrightarrow> m = ''send on closed channel'' \<and>
      \<not> wp_started (l_pool s) \<and> doomed s"
    by (auto simp: life_inv_def)
  moreover from this have "wp_started (l_pool s) \<longrightarrow> l_crashed s = None" by auto
  moreover have "wp_started (l_pool s) \<longrightarrow> (\<forall>w \<in> set (Workers ?g). \<not> channel_closed w) \<and>
      (l_exited s \<longrightarrow> l_main s = Stopped \<and> GetRegisteredTaskCount (wp_taskRegistrar (l_pool s)) = 0)"
    using inv closed by (auto simp: life_inv_def)
  moreover have "\<forall>i < length (Workers ?g). taken_by ?g i = dealt (length (Workers ?g)) i (handed_jobs ?g)"
    using g by (simp add: group_inv_def)
  ultimately show ?thesis by (auto simp: doomed_def)
qed

theorem running_pool_safe_witness:
  "\<exists>s. life_reach one_pool s \<and> handed_jobs (l_group s) = [d1] \<and> l_crashed s = None \<and>
     taken_by (l_group s) 0 = [d1]"
proof -
  have pool: "wp_workerGroup one_pool = NewWorkerGroup 1 ''w''" by (simp add: one_pool_def)
  have len: "length (Workers (one_group (Processing d1) False None [d1])) = 1" by (simp add: one_group_def)
  have "dealt 1 0 [d1] = [d1]" by (simp add: dealt_def)
  with running_pool_safe [OF one_busy pool] len
  have "taken_by (one_group (Processing d1) False None [d1]) 0 = [d1]" by (simp add: one_group_def)
  then show ?thesis
    using one_busy by (intro exI [of _ "one_life (one_group (Processing d1) False None [d1]) True Selecting
      Awaiting_signal"]) (simp add: one_group_def)
qed

text \<open>
  C39. A pool that is stopped while its consumer is idle exits cleanly, but nothing waits for
  the tasks: whatever the workers are doing, there is a run from the signal to the exit of the
  process in which no worker makes a single step, so that the tasks in progress are killed
  in the middle. (Their deliveries are not acknowledged, so the server delivers them again.)
\<close>

theorem exit_abandons_running_tasks:
  assumes "life_reach pool s" "wp_workerGroup pool = NewWorkerGroup n ns"
    and "0 < unat n" "int (unat n) < 2 ^ 63" "alive s"
    and "wp_started (l_pool s)" "l_main s = Awaiting_signal" "l_consumer s = Selecting"
    and "GetRegisteredTaskCount (wp_taskRegistrar (l_pool s)) \<noteq> 0"
  shows "\<exists>t. life_step\<^sup>*\<^sup>* s t \<and> l_exited t \<and> l_crashed t = None \<and>
    map goroutines (Workers (l_group t)) = map goroutines (Workers (l_group s))"
  using life_reach_inv [OF assms(1-4)] assms(5-9) by (intro quiet_stop)

theorem exit_abandons_running_tasks_witness:
  "\<exists>t. life_reach one_pool t \<and> l_exited t \<and> l_crashed t = None \<and>
     map goroutines (Workers (l_group t)) = [[Processing d1]]"
proof -
  have pool: "wp_workerGroup one_pool = NewWorkerGroup 1 ''w''" by (simp add: one_pool_def)
  have "map goroutines (Workers (one_group (Processing d1) False None [d1])) = [[Processing d1]]"
    by (simp add: one_group_def)
  with exit_abandons_running_tasks [OF one_busy pool] obtain t where
    t: "life_step\<^sup>*\<^sup>* (one_life (one_group (Processing d1) False None [d1]) True Selecting Awaiting_signal) t"
    "l_exited t" "l_crashed t = None" "map goroutines (Workers (l_group t)) = [[Processing d1]]"
    by auto
  have "life_reach one_pool t"
    using t(1) by (induction rule: rtranclp_induct) (rule one_busy, erule (1) life_reach.step)
  with t(2-4) show ?thesis by (intro exI conjI)
qed

end
