(* ===== verification/Worker_Tasks.thy ===== *)
theory Worker_Tasks
  imports Worker_Properties Task_Properties
begin

section \<open>A worker and its registrar\<close>

text \<open>
  The goroutine of a worker (\<open>work\<close>) with the registrar's \<open>Processor\<close>. The \<open>k\<close>-th job of the
  worker is processed with the clock readings \<open>clock k\<close>, after the rest of the process has
  done \<open>env k\<close> to the provider; \<open>history\<close> records, for each job, the acknowledgements sent and
  the confirmed messages before and after it.
\<close>

record worker_side =
  ws_prov :: provider
  ws_history :: "(delivery \<times> ack list \<times> message list \<times> message list) list"

definition process_job :: "amqp_net \<Rightarrow> json_codec \<Rightarrow> amqp_broker \<Rightarrow> registrar \<Rightarrow> config option \<Rightarrow>
    (nat \<Rightarrow> moments \<times> moments \<times> gotime) \<Rightarrow> (nat \<Rightarrow> provider \<Rightarrow> provider) \<Rightarrow> delivery \<Rightarrow>
    (worker_side, unit) go" where
  "process_job net codec b reg cfg clock env job s =
     (let k = length (ws_history s); p = env k (ws_prov s)
      in case clock k of (mo, mo', now) \<Rightarrow>
        (case Processor (Publish (amqp_provider net) codec b) codec reg cfg mo mo' now (DeliveryJob job) p of
           (r, acks, p') \<Rightarrow>
             (r, \<lparr>ws_prov = p', ws_history = ws_history s @ [(job, acks, confirmed p, confirmed p')]\<rparr>)))"

text \<open>What becomes of a delivery, readable or not.\<close>

definition settled_once :: "json_codec \<Rightarrow> amqp_broker \<Rightarrow> registrar \<Rightarrow> config \<Rightarrow> amqp_config \<Rightarrow>
    moments \<times> moments \<times> gotime \<Rightarrow> delivery \<times> ack list \<times> message list \<times> message list \<Rightarrow> bool" where
  "settled_once codec b reg c a readings h =
     (case readings of (mo, _, now) \<Rightarrow> case h of (d, acks, before, after) \<Rightarrow>
        length acks = 1 \<and>
        (case signature_of_delivery codec d of
           Inl _ \<Rightarrow> acks = [Nack False False] \<and> after = before
         | Inr sig \<Rightarrow> implements_disposition (published_message codec b) mo
             (disposition reg c a now (m_retry mo) sig) acks before after))"

subsection \<open>Processing keeps what publishing keeps\<close>

definition pub_keeps :: "('w \<Rightarrow> bool) \<Rightarrow> 'w publish_op \<Rightarrow> bool" where
  "pub_keeps I pub \<longleftrightarrow> (\<forall>t sig w. I w \<longrightarrow> I (snd (snd (pub t sig w))))"

lemma SendTask_keeps: "pub_keeps I pub \<Longrightarrow> I w \<Longrightarrow> I (snd (snd (SendTask pub mo sig w)))"
  by (auto simp: pub_keeps_def SendTask_def SendTaskWithContext_def split: prod.split sum.split fault.split)
    (metis snd_conv)+

lemma retryTask_keeps: "pub_keeps I pub \<Longrightarrow> I w \<Longrightarrow> I (snd (snd (retryTask pub cfg mo sig w)))"
  by (simp add: retryTask_def SendTask_keeps Let_def split: option.split)

lemma pushToTimeout_keeps: "pub_keeps I pub \<Longrightarrow> I w \<Longrightarrow> I (snd (snd (pushToTimeoutAmqpQueue pub cfg mo sig w)))"
  by (simp add: pushToTimeoutAmqpQueue_def SendTask_keeps split: option.split)

lemma settle_retry_state: "snd (snd (snd (settle_retry res))) = snd (snd res)"
  by (auto simp: settle_retry_def split: prod.split sum.split fault.split)

lemma process_body_keeps:
  assumes "pub_keeps I pub" "I w"
  shows "I (snd (snd (snd (process_body pub reg c mo now d sig w))))"
proof -
  have "I (snd (snd (pushToTimeoutAmqpQueue pub (Some c) mo sig w)))" by (rule pushToTimeout_keeps [OF assms])
  moreover have "I (snd (snd (snd (settle_retry (retryTask pub (Some c) mo s w)))))" for s
    using retryTask_keeps [OF assms] by (simp add: settle_retry_state)
  ultimately show ?thesis using assms(2)
    by (auto simp: process_body_def split: prod.split sum.split fault.split task_value.split
        task_outcome.split option.split)
qed

lemma amqpProcessSignature_keeps:
  assumes "pub_keeps I pub" "I w"
  shows "I (snd (snd (snd (amqpProcessSignature pub reg cfg mo mo' now d sig w))))"
proof (cases cfg)
  case (Some c)
  obtain r acks s w1 where body: "process_body pub reg c mo now d sig w = (r, acks, s, w1)"
    by (metis prod_cases4)
  have "I w1" using process_body_keeps [OF assms, of reg c mo now d sig] by (simp add: body)
  from retryTask_keeps [OF assms(1) this, of cfg mo' s] \<open>I w1\<close> Some body show ?thesis
    by (auto simp: amqpProcessSignature_def split: prod.split sum.split fault.split)
qed (use assms in \<open>simp add: amqpProcessSignature_def\<close>)

lemma Processor_keeps:
  assumes "pub_keeps I pub" "I w"
  shows "I (snd (snd (Processor pub codec reg cfg mo mo' now job w)))"
  using amqpProcessSignature_keeps [OF assms] assms(2)
  by (auto simp: Processor_def amqpMsgProcessor_def split: job.split sum.split prod.split)
    (metis snd_conv)

lemma amqp_pub_keeps:
  "pub_keeps (\<lambda>p. pool_inv out p \<and> amqpConf p = conf) (Publish (amqp_provider net) codec b)"
  unfolding pub_keeps_def
proof (intro allI impI)
  fix t sig and p :: provider
  assume p: "pool_inv out p \<and> amqpConf p = conf"
  show "pool_inv out (snd (snd (Publish (amqp_provider net) codec b t sig p))) \<and>
      amqpConf (snd (snd (Publish (amqp_provider net) codec b t sig p))) = conf"
  proof (cases "published_message codec b t sig")
    case (Inl e)
    with p show ?thesis by (simp add: Publish_eq)
  next
    case (Inr m)
    obtain ex key msg where m: "m = (ex, key, msg)" by (metis prod_cases3)
    obtain r p' where run: "AmqpPublishWithConfirm net key msg ex p = (r, p')" by fastforce
    from wpD [OF AmqpPublishWithConfirm_inv [of out p] run] p Inr m run show ?thesis
      by (simp add: Publish_eq amqp_provider_def)
  qed
qed

subsection \<open>Every job is settled once, and the worker survives\<close>

lemma process_job_settles:
  assumes "pool_inv out (ws_prov s)" "amqpConf (ws_prov s) = Some a0" "1 \<le> sint (ConnectionPoolSize a0)"
    and "AMQP c = Some a" "\<forall>k. env_ok (env k)" "Body job \<noteq> []"
    and "process_job net codec b reg (Some c) clock env job s = (r, s')"
  shows "pool_inv out (ws_prov s') \<and> amqpConf (ws_prov s') = Some a0 \<and> (\<forall>m. r \<noteq> Inl (Panic m)) \<and>
    (\<exists>h. ws_history s' = ws_history s @ [h] \<and> fst h = job \<and>
       settled_once codec b reg c a (clock (length (ws_history s))) h)"
proof -
  define p where "p = env (length (ws_history s)) (ws_prov s)"
  obtain mo mo' now where t: "clock (length (ws_history s)) = (mo, mo', now)" by (metis prod_cases3)
  have p: "pool_inv out p" "amqpConf p = Some a0" using assms(1,2,5) by (auto simp: p_def env_ok_def)
  obtain r1 acks p' where run: "Processor (Publish (amqp_provider net) codec b) codec reg (Some c) mo mo' now
      (DeliveryJob job) p = (r1, acks, p')" by (metis prod_cases3)
  from Processor_keeps [OF amqp_pub_keeps, of out p "Some a0" net codec b codec reg "Some c" mo mo' now
      "DeliveryJob job"] p run
  have keep: "pool_inv out p'" "amqpConf p' = Some a0" by auto
  have res: "r = r1" "s' = \<lparr>ws_prov = p', ws_history = ws_history s @ [(job, acks, confirmed p, confirmed p')]\<rparr>"
    using assms(7) t run by (auto simp: process_job_def Let_def p_def)
  have "settled_once codec b reg c a (mo, mo', now) (job, acks, confirmed p, confirmed p') \<and>
      (\<forall>m. r1 \<noteq> Inl (Panic m))"
  proof (cases "signature_of_delivery codec job")
    case (Inl e)
    with run assms(6) show ?thesis
      by (auto simp: settled_once_def Processor_def amqpMsgProcessor_def)
  next
    case (Inr sig)
    obtain sig' where "amqpProcessSignature (Publish (amqp_provider net) codec b) reg (Some c) mo mo' now job sig p
        = (r1, acks, sig', p')"
      using Processor_delivery [OF assms(6) Inr run] .
    from amqp.process_implements [OF assms(4) amqp_never_panics [OF p assms(3)] this] Inr show ?thesis
      by (auto simp: settled_once_def implements_disposition_def split: disposition.splits option.splits)
  qed
  with keep res t show ?thesis by simp
qed

text \<open>
  C4. A worker settles every job it takes, in order, by exactly one acknowledgement, and
  survives them all: whatever the tasks do (return, fail, panic, run past their limit),
  whatever the messages contain and whatever happens to connections meanwhile, the goroutine
  does not panic; an unreadable message is rejected without requeueing, and every other one
  gets what its disposition says, with its replacement, if it needs one, confirmed by the
  server before it is acknowledged.
\<close>

theorem worker_settles_every_job:
  assumes "pool_inv out (ws_prov s)" "amqpConf (ws_prov s) = Some a0" "1 \<le> sint (ConnectionPoolSize a0)"
    and "AMQP c = Some a" "\<forall>k. env_ok (env k)" "\<forall>d \<in> set jobs. Body d \<noteq> []"
  shows "\<exists>s' hs. work (process_job net codec b reg (Some c) clock env) jobs s = (Inr (), s') \<and>
    pool_inv out (ws_prov s') \<and> ws_history s' = ws_history s @ hs \<and> map fst hs = jobs \<and>
    (\<forall>k < length jobs. settled_once codec b reg c a (clock (length (ws_history s) + k)) (hs ! k))"
  using assms
proof (induction jobs arbitrary: s)
  case Nil
  then show ?case by simp
next
  case (Cons job jobs)
  obtain r s1 where run: "process_job net codec b reg (Some c) clock env job s = (r, s1)" by fastforce
  have body: "Body job \<noteq> []" using Cons.prems(6) by simp
  from process_job_settles [OF Cons.prems(1-5) body run] obtain h where
    h: "pool_inv out (ws_prov s1)" "amqpConf (ws_prov s1) = Some a0" "\<forall>m. r \<noteq> Inl (Panic m)"
    "ws_history s1 = ws_history s @ [h]" "fst h = job"
    "settled_once codec b reg c a (clock (length (ws_history s))) h" by blast
  from Cons.IH [OF h(1,2) Cons.prems(3-5)] Cons.prems(6) obtain s' hs where
    s': "work (process_job net codec b reg (Some c) clock env) jobs s1 = (Inr (), s')" "pool_inv out (ws_prov s')"
    "ws_history s' = ws_history s1 @ hs" "map fst hs = jobs"
    "\<forall>k < length jobs. settled_once codec b reg c a (clock (length (ws_history s1) + k)) (hs ! k)" by auto
  have "work (process_job net codec b reg (Some c) clock env) (job # jobs) s = (Inr (), s')"
    using run h(3) s'(1) by (auto split: sum.split fault.split)
  moreover have "settled_once codec b reg c a (clock (length (ws_history s) + k)) ((h # hs) ! k)"
    if "k < length (job # jobs)" for k
    using that h(4,6) s'(5) by (cases k) auto
  ultimately show ?case using s'(2-4) h(4,5)
    by (intro exI [of _ s'] exI [of _ "h # hs"]) simp
qed

theorem worker_settles_every_job_witness:
  "\<exists>s' h1 h2. work (process_job calm_net no_codec sample_broker sample_registrar (Some sample_config)
       (\<lambda>_. (sample_moments, sample_moments, 1700000000000000000)) (\<lambda>_. id))
       [failing_delivery, sample_delivery ''xx''] \<lparr>ws_prov = pooled_provider, ws_history = []\<rparr> = (Inr (), s') \<and>
     ws_history s' = [h1, h2] \<and> fst h1 = failing_delivery \<and> length (fst (snd h1)) = 1 \<and>
     fst (snd h2) = [Nack False False]"
proof -
  let ?s = "\<lparr>ws_prov = pooled_provider, ws_history = []\<rparr>"
  have pre: "pool_inv [] (ws_prov ?s)" "amqpConf (ws_prov ?s) = Some sample_amqp"
    "1 \<le> sint (ConnectionPoolSize sample_amqp)" "AMQP sample_config = Some sample_amqp"
    "\<forall>k :: nat. env_ok ((\<lambda>_. id) k)"
    "\<forall>d \<in> set [failing_delivery, sample_delivery ''xx'']. Body d \<noteq> []"
    using pooled_inv pooled_fields(1) env_ok_id
    by (simp_all add: sample_config_def failing_delivery_def sample_delivery_def) (simp_all add: sample_amqp_def)
  from worker_settles_every_job [OF pre, of calm_net no_codec sample_broker sample_registrar
      "\<lambda>_. (sample_moments, sample_moments, 1700000000000000000)"]
  obtain s' hs where w: "work (process_job calm_net no_codec sample_broker sample_registrar (Some sample_config)
       (\<lambda>_. (sample_moments, sample_moments, 1700000000000000000)) (\<lambda>_. id))
       [failing_delivery, sample_delivery ''xx''] ?s = (Inr (), s')"
    "ws_history s' = hs" "map fst hs = [failing_delivery, sample_delivery ''xx'']"
    "\<forall>k < 2. settled_once no_codec sample_broker sample_registrar sample_config sample_amqp
       (sample_moments, sample_moments, 1700000000000000000) (hs ! k)"
    by (auto simp: numeral_2_eq_2)
  obtain h1 h2 where hs: "hs = [h1, h2]" "fst h1 = failing_delivery" "fst h2 = sample_delivery ''xx''"
    using w(3) by (auto simp: map_eq_Cons_conv)
  have "settled_once no_codec sample_broker sample_registrar sample_config sample_amqp
       (sample_moments, sample_moments, 1700000000000000000) h1"
    "settled_once no_codec sample_broker sample_registrar sample_config sample_amqp
       (sample_moments, sample_moments, 1700000000000000000) h2"
    using w(4) hs(1) by (auto simp: numeral_2_eq_2 All_less_Suc)
  moreover have "\<exists>e. signature_of_delivery no_codec (sample_delivery ''xx'') = Inl e"
    by (simp add: signature_of_delivery_def sample_delivery_def BytesToSignature_def no_codec_def)
  ultimately have "length (fst (snd h1)) = 1" "fst (snd h2) = [Nack False False]"
    using hs(3) by (auto simp: settled_once_def split: prod.splits)
  with w(1,2) hs(1,2) show ?thesis by blast
qed

end
