(* ===== verification/Mongo_Provider.thy ===== *)
theory Mongo_Provider
  imports Config
begin

section \<open>The MongoDB provider (internal/provider/mongodb.go)\<close>

text \<open>
  The store client: every operation first pings the server and reconnects, at most five times
  with pauses of two seconds, when the ping fails. The driver is a library: the outcome of
  the call at tick \<open>t\<close> is given by the parameter \<open>net\<close>, a client is named by the tick of the
  call that made it, and \<open>m_log\<close> records the calls and pauses. Documents, filters and updates
  are opaque texts.
\<close>

datatype mongo_call =
    InsertOne string string
  | FindMany string string
  | UpdateOne string string string
  | DeleteOne string string

datatype mongo_event =
    Dialled bool
  | Pinged nat bool
  | Slept nat
  | Ran nat string mongo_call

record mongo_net =
  net_connect :: "string \<Rightarrow> 64 word \<Rightarrow> nat \<Rightarrow> goerror option"
  net_ping :: "nat \<Rightarrow> goerror option"
  net_run :: "string \<Rightarrow> mongo_call \<Rightarrow> nat \<Rightarrow> goerror + string list"
  net_disconnect :: "nat \<Rightarrow> goerror option"

record mongo_client =
  m_client :: "nat option"
  mongoConfig :: mongo_config
  m_tick :: nat
  m_log :: "mongo_event list"

definition zero_mongo_config :: mongo_config where
  "zero_mongo_config = \<lparr>MongoClient = None, URI = [], MaxPoolSize = 0, DbName = []\<rparr>"

definition mongo_lib :: "(nat \<Rightarrow> goerror option) \<Rightarrow> (bool \<Rightarrow> mongo_event) \<Rightarrow> (mongo_client, nat) go" where
  "mongo_lib outcome ev s =
     (let s' = s\<lparr>m_tick := Suc (m_tick s), m_log := m_log s @ [ev (outcome (m_tick s) = None)]\<rparr>
      in case outcome (m_tick s) of None \<Rightarrow> (Inr (m_tick s), s') | Some e \<Rightarrow> (Inl (Err e), s'))"

definition mongo_ping :: "mongo_net \<Rightarrow> (mongo_client, unit) go" where
  "mongo_ping net s = (case m_client s of
     None \<Rightarrow> go_fail (Panic ''invalid memory address or nil pointer dereference'') s
   | Some c \<Rightarrow> go_seq (mongo_lib (net_ping net) (Pinged c)) (go_return ()) s)"

definition mongo_connect :: "mongo_net \<Rightarrow> (mongo_client, unit) go" where
  "mongo_connect net s =
     go_bind (go_wrap ''could not connect to MongoDB''
         (mongo_lib (net_connect net (URI (mongoConfig s)) (MaxPoolSize (mongoConfig s))) Dialled))
       (\<lambda>client. go_seq (go_update (\<lambda>s. s\<lparr>m_client := Some client\<rparr>))
          (go_wrap ''could not ping MongoDB'' (mongo_ping net))) s"

definition Connect :: "mongo_net \<Rightarrow> mongo_config \<Rightarrow> (mongo_client, unit) go" where
  "Connect net cfg = go_seq (go_update (\<lambda>s. s\<lparr>mongoConfig := cfg\<rparr>)) (mongo_connect net)"

definition NewMongoDBClient :: "mongo_net \<Rightarrow> mongo_config \<Rightarrow> fault + mongo_client" where
  "NewMongoDBClient net cfg =
     (case Connect net cfg \<lparr>m_client = None, mongoConfig = zero_mongo_config, m_tick = 0, m_log = []\<rparr> of
        (Inl err, _) \<Rightarrow> Inl err
      | (Inr _, client) \<Rightarrow> Inr client)"

definition Disconnect :: "mongo_net \<Rightarrow> (mongo_client, unit) go" where
  "Disconnect net s = (case m_client s of
     None \<Rightarrow> go_fail (Panic ''invalid memory address or nil pointer dereference'') s
   | Some c \<Rightarrow> (case net_disconnect net (m_tick s) of
        None \<Rightarrow> go_return () (s\<lparr>m_tick := Suc (m_tick s)\<rparr>)
      | Some e \<Rightarrow> go_fail (Err e) (s\<lparr>m_tick := Suc (m_tick s)\<rparr>)))"

text \<open>The loop of \<open>reconnect\<close>, with the number of attempts left.\<close>

fun reconnect_loop :: "mongo_net \<Rightarrow> nat \<Rightarrow> (mongo_client, unit) go" where
  "reconnect_loop net 0 s = (Inl (Err (TextErr ''failed to reconnect after multiple attempts'')), s)"
| "reconnect_loop net (Suc n) s = (case mongo_connect net s of
     (Inr _, s') \<Rightarrow> (Inr (), s')
   | (Inl (Err _), s') \<Rightarrow> reconnect_loop net n (s'\<lparr>m_log := m_log s' @ [Slept 2]\<rparr>)
   | (Inl (Panic m), s') \<Rightarrow> (Inl (Panic m), s'))"

definition reconnect :: "mongo_net \<Rightarrow> (mongo_client, unit) go" where
  "reconnect net = reconnect_loop net 5"

definition checkConnection :: "mongo_net \<Rightarrow> (mongo_client, unit) go" where
  "checkConnection net s = (case mongo_ping net s of
     (Inl (Err _), s') \<Rightarrow> reconnect net s'
   | other \<Rightarrow> other)"

text \<open>A call on a collection of the configured database, on the current client.\<close>

definition run_call :: "mongo_net \<Rightarrow> mongo_call \<Rightarrow> (mongo_client, string list) go" where
  "run_call net call s = (case m_client s of
     None \<Rightarrow> go_fail (Panic ''invalid memory address or nil pointer dereference'') s
   | Some c \<Rightarrow>
      (let db = DbName (mongoConfig s);
           s' = s\<lparr>m_tick := Suc (m_tick s), m_log := m_log s @ [Ran c db call]\<rparr>
       in case net_run net db call (m_tick s) of
            Inl e \<Rightarrow> go_fail (Err e) s'
          | Inr docs \<Rightarrow> go_return docs s'))"

definition Insert :: "mongo_net \<Rightarrow> string \<Rightarrow> string \<Rightarrow> (mongo_client, unit) go" where
  "Insert net collection document =
     go_seq (checkConnection net) (go_seq (run_call net (InsertOne collection document)) (go_return ()))"

text \<open>\<open>Find\<close> reads the whole cursor: the error of \<open>net_run\<close> is that of either call.\<close>

definition Find :: "mongo_net \<Rightarrow> string \<Rightarrow> string \<Rightarrow> (mongo_client, string list) go" where
  "Find net collection sel =
     go_seq (checkConnection net) (run_call net (FindMany collection sel))"

definition Update :: "mongo_net \<Rightarrow> string \<Rightarrow> string \<Rightarrow> string \<Rightarrow> (mongo_client, unit) go" where
  "Update net collection sel upd =
     go_seq (checkConnection net) (go_seq (run_call net (UpdateOne collection sel upd)) (go_return ()))"

definition Delete :: "mongo_net \<Rightarrow> string \<Rightarrow> string \<Rightarrow> (mongo_client, unit) go" where
  "Delete net collection sel =
     go_seq (checkConnection net) (go_seq (run_call net (DeleteOne collection sel)) (go_return ()))"

subsection \<open>Reconnecting is bounded, and calls run on a client that answered\<close>

definition dials :: "mongo_event list \<Rightarrow> nat" where
  "dials evs = length (filter (\<lambda>e. e \<in> {Dialled True, Dialled False}) evs)"

definition paused :: "mongo_event list \<Rightarrow> nat" where
  "paused evs = sum_list (map (\<lambda>e. case e of Slept n \<Rightarrow> n | _ \<Rightarrow> 0) evs)"

fun is_run :: "mongo_event \<Rightarrow> bool" where
  "is_run (Ran _ _ _) = True"
| "is_run _ = False"

definition runs :: "mongo_event list \<Rightarrow> mongo_event list" where
  "runs evs = filter is_run evs"

lemma runs_simps [simp]:
  "runs [] = []" "runs (xs @ ys) = runs xs @ runs ys" "runs (Dialled b # xs) = runs xs"
  "runs (Pinged c b # xs) = runs xs" "runs (Slept n # xs) = runs xs"
  "runs (Ran c d k # xs) = Ran c d k # runs xs"
  by (simp_all add: runs_def)

lemma dials_simps [simp]:
  "dials [] = 0" "dials (xs @ ys) = dials xs + dials ys" "dials (Dialled b # xs) = Suc (dials xs)"
  "dials (Pinged c b # xs) = dials xs" "dials (Slept n # xs) = dials xs" "dials (Ran c d k # xs) = dials xs"
  by (cases b; simp add: dials_def)+

lemma paused_simps [simp]:
  "paused [] = 0" "paused (xs @ ys) = paused xs + paused ys" "paused (Dialled b # xs) = paused xs"
  "paused (Pinged c b # xs) = paused xs" "paused (Slept n # xs) = n + paused xs"
  "paused (Ran c d k # xs) = paused xs"
  by (simp_all add: paused_def)

text \<open>One attempt: one dial, no pause; after a success the client has answered the last ping.\<close>

lemma mongo_connect_spec:
  assumes "mongo_connect net s = (r, s')"
  shows "\<exists>evs. m_log s' = m_log s @ evs \<and> dials evs = 1 \<and> paused evs = 0 \<and> runs evs = [] \<and>
    (case r of Inr _ \<Rightarrow> \<exists>c pre. m_client s' = Some c \<and> evs = pre @ [Pinged c True]
     | Inl e \<Rightarrow> \<exists>err. e = Err err)"
  using assms
  by (auto simp: mongo_connect_def mongo_ping_def mongo_lib_def go_bind_def go_seq_def go_wrap_def
      go_update_def go_return_def Let_def split: option.splits)

lemma reconnect_loop_spec:
  assumes "reconnect_loop net n s = (r, s')"
  shows "\<exists>evs. m_log s' = m_log s @ evs \<and> runs evs = [] \<and>
    (case r of Inr _ \<Rightarrow> dials evs \<le> n \<and> paused evs + 2 = 2 * dials evs \<and>
         (\<exists>c pre. m_client s' = Some c \<and> evs = pre @ [Pinged c True])
     | Inl e \<Rightarrow> dials evs = n \<and> paused evs = 2 * n \<and>
         e = Err (TextErr ''failed to reconnect after multiple attempts''))"
  using assms
proof (induction n arbitrary: s)
  case 0
  then show ?case by auto
next
  case (Suc n)
  obtain r1 s1 where con: "mongo_connect net s = (r1, s1)" by fastforce
  from mongo_connect_spec [OF con] obtain evs where evs: "m_log s1 = m_log s @ evs" "dials evs = 1"
    "paused evs = 0" "runs evs = []"
    "case r1 of Inr _ \<Rightarrow> \<exists>c pre. m_client s1 = Some c \<and> evs = pre @ [Pinged c True]
     | Inl e \<Rightarrow> \<exists>err. e = Err err" by blast
  show ?case
  proof (cases r1)
    case (Inr u)
    with Suc.prems con have "r = Inr ()" "s' = s1" by auto
    with evs Inr show ?thesis by (intro exI [of _ evs]) auto
  next
    case (Inl e)
    with evs(5) obtain err where "e = Err err" by auto
    with Suc.prems con Inl have "reconnect_loop net n (s1\<lparr>m_log := m_log s1 @ [Slept 2]\<rparr>) = (r, s')"
      by simp
    from Suc.IH [OF this] obtain evs' where evs': "m_log s' = m_log s1 @ [Slept 2] @ evs'"
      "runs evs' = []"
      "case r of Inr _ \<Rightarrow> dials evs' \<le> n \<and> paused evs' + 2 = 2 * dials evs' \<and>
         (\<exists>c pre. m_client s' = Some c \<and> evs' = pre @ [Pinged c True])
     | Inl e \<Rightarrow> dials evs' = n \<and> paused evs' = 2 * n \<and>
         e = Err (TextErr ''failed to reconnect after multiple attempts'')" by auto
    with evs show ?thesis
      by (intro exI [of _ "evs @ [Slept 2] @ evs'"]) (auto split: sum.splits)
  qed
qed

lemma checkConnection_spec:
  assumes "checkConnection net s = (r, s')" "m_client s \<noteq> None"
  shows "\<exists>evs. m_log s' = m_log s @ evs \<and> runs evs = [] \<and>
    dials evs \<le> 5 \<and> paused evs \<le> 10 \<and>
    (case r of Inr _ \<Rightarrow> \<exists>c pre. m_client s' = Some c \<and> evs = pre @ [Pinged c True]
     | Inl e \<Rightarrow> dials evs = 5 \<and> e = Err (TextErr ''failed to reconnect after multiple attempts''))"
proof -
  obtain c where c: "m_client s = Some c" using assms(2) by auto
  show ?thesis
  proof (cases "net_ping net (m_tick s)")
    case None
    with assms(1) c show ?thesis
      by (auto simp: checkConnection_def mongo_ping_def mongo_lib_def go_seq_def go_bind_def go_return_def)
  next
    case (Some err)
    with assms(1) c have "reconnect_loop net 5
        (s\<lparr>m_tick := Suc (m_tick s), m_log := m_log s @ [Pinged c False]\<rparr>) = (r, s')"
      by (simp add: checkConnection_def reconnect_def mongo_ping_def mongo_lib_def go_seq_def go_bind_def)
    from reconnect_loop_spec [OF this] obtain evs where "m_log s' = m_log s @ [Pinged c False] @ evs"
      "runs evs = []"
      "case r of Inr _ \<Rightarrow> dials evs \<le> 5 \<and> paused evs + 2 = 2 * dials evs \<and>
         (\<exists>c pre. m_client s' = Some c \<and> evs = pre @ [Pinged c True])
       | Inl e \<Rightarrow> dials evs = 5 \<and> paused evs = 2 * 5 \<and>
         e = Err (TextErr ''failed to reconnect after multiple attempts'')" by auto
    then show ?thesis
      by (intro exI [of _ "[Pinged c False] @ evs"]) (auto split: sum.splits)
  qed
qed

text \<open>
  An operation: at most one call is run, on the client that has just answered a ping, and
  within five dials and ten seconds of pauses the operation returns.
\<close>

definition checked_ok :: "mongo_client \<Rightarrow> mongo_call \<Rightarrow> mongo_client \<Rightarrow> bool" where
  "checked_ok s call s' \<longleftrightarrow> (\<exists>evs. m_log s' = m_log s @ evs \<and> dials evs \<le> 5 \<and> paused evs \<le> 10 \<and>
     (runs evs = [] \<and> dials evs = 5 \<or>
      (\<exists>c pre. evs = pre @ [Pinged c True, Ran c (DbName (mongoConfig s')) call] \<and> runs pre = [] \<and>
         m_client s' = Some c)))"

lemma checked_spec:
  assumes "go_seq (checkConnection net) (run_call net call) s = (r, s')" "m_client s \<noteq> None"
  shows "checked_ok s call s'" "\<forall>m. r \<noteq> Inl (Panic m)"
proof -
  obtain r1 s1 where chk: "checkConnection net s = (r1, s1)" by fastforce
  from checkConnection_spec [OF chk assms(2)] obtain evs where evs: "m_log s1 = m_log s @ evs"
    "runs evs = []" "dials evs \<le> 5" "paused evs \<le> 10"
    "case r1 of Inr _ \<Rightarrow> \<exists>c pre. m_client s1 = Some c \<and> evs = pre @ [Pinged c True]
     | Inl e \<Rightarrow> dials evs = 5 \<and> e = Err (TextErr ''failed to reconnect after multiple attempts'')" by blast
  have "checked_ok s call s' \<and> (\<forall>m. r \<noteq> Inl (Panic m))"
  proof (cases r1)
    case (Inl e)
    with assms(1) chk have "s' = s1" "r = Inl e" by (auto simp: go_seq_def go_bind_def)
    with evs Inl show ?thesis by (auto simp: checked_ok_def)
  next
    case (Inr u)
    with evs(5) obtain c pre where c: "m_client s1 = Some c" "evs = pre @ [Pinged c True]" by auto
    with assms(1) chk Inr have s': "m_log s' = m_log s1 @ [Ran c (DbName (mongoConfig s1)) call]"
      "m_client s' = Some c" "mongoConfig s' = mongoConfig s1" "\<forall>m. r \<noteq> Inl (Panic m)"
      by (auto simp: go_seq_def go_bind_def run_call_def go_fail_def go_return_def Let_def split: sum.splits)
    then have "m_log s' = m_log s @ pre @ [Pinged c True, Ran c (DbName (mongoConfig s')) call]"
      using evs(1) c(2) by simp
    with evs(2-4) c(2) s' show ?thesis
      unfolding checked_ok_def
      by (intro conjI exI [of _ "pre @ [Pinged c True, Ran c (DbName (mongoConfig s')) call]"]) auto
  qed
  then show "checked_ok s call s'" "\<forall>m. r \<noteq> Inl (Panic m)" by simp_all
qed

lemma forget_result:
  "go_seq a (go_seq b (go_return ())) s = (r, s') \<Longrightarrow>
   \<exists>r'. go_seq a b s = (r', s') \<and> (\<forall>m. r = Inl (Panic m) \<longrightarrow> r' = Inl (Panic m))"
  by (auto simp: go_seq_def go_bind_def go_return_def split: prod.splits sum.splits)

end
