(* ===== verification/Example_Programs.thy ===== *)
theory Example_Programs
  imports Worker_Pool
begin

section \<open>The example programs (example/*/main.go, bench/amqpnostorage/setup.go)\<close>

text \<open>
  The three example programs and the benchmark set-up: their configurations, the jobs they
  send, the tasks they register, and what their main functions do up to the point where the
  pool is started or the jobs are sent. Fields a composite literal leaves out are zero; the
  environment defaults do not apply to it.
\<close>

definition zero_amqp :: amqp_config where
  "zero_amqp = \<lparr>Url = [], Exchange = [], ExchangeType = [], QueueDeclareArgs = Map.empty,
     QueueBindingArgs = Map.empty, BindingKey = [], PrefetchCount = 0, AutoDelete = False,
     DelayedQueue = [], FailedQueue = [], TimeoutQueue = [], ConnectionPoolSize = 0,
     HeartBeatInterval = 0, ConnectionTimeout = 0\<rparr>"

definition cnf_of :: "amqp_config \<Rightarrow> config" where
  "cnf_of a = empty_config\<lparr>Broker := ''amqp'', TaskQueueName := ''paota_task_queue'', AMQP := Some a\<rparr>"

definition consumer_cnf :: config where
  "consumer_cnf = cnf_of (zero_amqp\<lparr>Url := ''amqp://localhost:5672/'', Exchange := ''paota_task_exchange'',
     ExchangeType := ''direct'', BindingKey := ''paota_task_binding_key'', PrefetchCount := 100,
     ConnectionPoolSize := 10, TimeoutQueue := ''timeout_queue'', DelayedQueue := ''delay_test''\<rparr>)"

definition publisher_cnf :: config where
  "publisher_cnf = cnf_of (zero_amqp\<lparr>Url := ''amqp://localhost:5672/'', Exchange := ''paota_task_exchange'',
     ExchangeType := ''direct'', BindingKey := ''paota_task_binding_key'', PrefetchCount := 100,
     ConnectionPoolSize := 10, DelayedQueue := ''delay_test''\<rparr>)"

definition consumer_publisher_cnf :: config where
  "consumer_publisher_cnf = cnf_of (zero_amqp\<lparr>Url := ''amqp://localhost:5672/'',
     Exchange := ''paota_task_exchange'', ExchangeType := ''direct'', BindingKey := ''consumer_publisher'',
     PrefetchCount := 100, ConnectionPoolSize := 10, DelayedQueue := ''delay_consumer_publisher''\<rparr>)"

definition bench_cnf :: config where
  "bench_cnf = cnf_of (zero_amqp\<lparr>Url := ''amqp://localhost:55005/'', Exchange := ''paota_task_exchange'',
     ExchangeType := ''direct'', BindingKey := ''paota_task_binding_key'', PrefetchCount := 100,
     ConnectionPoolSize := 10\<rparr>)"

text \<open>The dynamic type of \<^verbatim>\<open>context.Background()\<close> since Go 1.21, a structure.\<close>

definition background_type :: gotype where
  "background_type = PlainType ''context.backgroundCtx'' KStruct False"

subsection \<open>The jobs\<close>

definition user_json :: string where
  "user_json = ''{\"id\":\"1\",\"name\":\"John Doe\",\"email\":\"john.doe@example.com\"}''"

definition user_arg :: arg where
  "user_arg = \<lparr>Arg_Name = [], Arg_Type = ''string'', Arg_Value = VString user_json\<rparr>"

definition consumer_job :: signature where
  "consumer_job = zero_signature\<lparr>Name := ''Print'', Args := Some [user_arg], RetryCount := 10,
     RoutingKey := ''consumer_publisher'', IgnoreWhenTaskNotRegistered := True\<rparr>"

definition consumer_publisher_job :: signature where
  "consumer_publisher_job = zero_signature\<lparr>Name := ''Print'', Args := Some [user_arg], RetryCount := 10,
     RoutingKey := ''consumer_publisher_'', IgnoreWhenTaskNotRegistered := True\<rparr>"

definition publisher_job :: signature where
  "publisher_job = zero_signature\<lparr>Name := ''Print'', RawArgs := Some user_json, TaskTimeOut := 100,
     RetryCount := 10, IgnoreWhenTaskNotRegistered := True\<rparr>"

text \<open>
  The sending loops: the same job, a pointer, is sent again and again, errors ignored; one
  set of clock readings for each call.
\<close>

fun send_many :: "'w publish_op \<Rightarrow> moments list \<Rightarrow> signature \<Rightarrow> 'w \<Rightarrow> (fault + unit) \<times> signature \<times> 'w" where
  "send_many pub [] sig w = (Inr (), sig, w)"
| "send_many pub (mo # mos) sig w = (case pool_SendTaskWithContext pub mo sig w of
     (Inl (Panic m), sig', w') \<Rightarrow> (Inl (Panic m), sig', w')
   | (_, sig', w') \<Rightarrow> send_many pub mos sig' w')"

text \<open>\<open>Publish\<close> of the example consumer, which nothing calls: the result is discarded.\<close>

definition consumer_Publish :: "'w publish_op \<Rightarrow> moments \<Rightarrow> 'w \<Rightarrow> (fault + unit) \<times> 'w" where
  "consumer_Publish pub mo w = (case pool_SendTaskWithContext pub mo consumer_job w of
     (Inl (Panic m), _, w') \<Rightarrow> (Inl (Panic m), w') | (_, _, w') \<Rightarrow> (Inr (), w'))"

text \<open>
  The publisher's two batches, with the goroutines of a batch one after the other: the
  number of messages, and the job between the batches.
\<close>

definition total_messages :: goint where
  "total_messages = 50 * 50000 + 10 * 50000"

definition publisher_batches :: "'w publish_op \<Rightarrow> moments list \<Rightarrow> moments list \<Rightarrow> 'w \<Rightarrow>
    (fault + unit) \<times> signature \<times> 'w" where
  "publisher_batches pub first second w =
     (case send_many pub first publisher_job w of
        (Inl e, sig, w') \<Rightarrow> (Inl e, sig, w')
      | (Inr _, sig, w') \<Rightarrow> send_many pub second (sig\<lparr>TaskTimeOut := 120\<rparr>) w')"

subsection \<open>The tasks\<close>

text \<open>
  The consumer's \<open>Print\<close> sleeps for 20 seconds and returns nil: at a limit below that it is
  still running. The other example's \<open>Print\<close> publishes and returns nil.
\<close>

definition consumer_Print :: "signature \<Rightarrow> goduration \<Rightarrow> signature \<times> task_outcome" where
  "consumer_Print sig limit =
     (sig, if sint limit < sint (seconds 20) then StillRunning else Returned None)"

definition consumer_tasks :: "(string \<times> task_value) list" where
  "consumer_tasks = [(''Print'', TaskFunc consumer_Print)]"

definition publishing_Print :: "'w publish_op \<Rightarrow> moments list \<Rightarrow> signature \<Rightarrow> 'w \<Rightarrow> task_outcome \<times> 'w" where
  "publishing_Print pub mos arg w = (case send_many pub mos consumer_publisher_job w of
     (Inl (Panic m), _, w') \<Rightarrow> (Panicked m, w') | (_, _, w') \<Rightarrow> (Returned None, w'))"

subsection \<open>The main functions\<close>

datatype main_end =
    MainReturns
  | ProcessExits int
  | PoolReady worker_pool
  | MainPanics string

fun on_fault :: "main_end \<Rightarrow> fault \<Rightarrow> main_end" where
  "on_fault e (Err _) = e"
| "on_fault e (Panic m) = MainPanics m"

text \<open>\<open>RegisterTasks\<close> of the new pool; \<open>PoolReady\<close>: the call of \<open>Start\<close> follows.\<close>

definition register_and_start :: "(string \<times> task_value) list \<Rightarrow> worker_pool \<Rightarrow> main_end" where
  "register_and_start tasks pool = (case pool_RegisterTasks tasks tasks pool of
     (Inl e, _) \<Rightarrow> on_fault MainReturns e
   | (Inr _, pool') \<Rightarrow> PoolReady pool')"

definition set_global_config :: "(config \<Rightarrow> goerror option) \<Rightarrow> config \<Rightarrow> (process, unit) go" where
  "set_global_config validate cnf s =
     (case GetConfigProvider (global_provider s) of (cp, _) \<Rightarrow>
       (case SetApplicationConfig validate cnf cp of
          (r, cp') \<Rightarrow> (r, s\<lparr>global_provider := Some cp'\<rparr>)))"

definition consumer_main :: "amqp_net \<Rightarrow> (config \<Rightarrow> goerror option) \<Rightarrow> string \<Rightarrow> process \<Rightarrow>
    main_end \<times> process" where
  "consumer_main net validate uuid s =
     (case set_global_config validate consumer_cnf s of
        (Inl e, s') \<Rightarrow> (on_fault MainReturns e, s')
      | (Inr _, s') \<Rightarrow>
         (case NewWorkerPool net uuid (Some background_type) 10 ''testWorker'' s' of
            (Inl e, s'') \<Rightarrow> (on_fault (ProcessExits 0) e, s'')
          | (Inr pool, s'') \<Rightarrow> (register_and_start consumer_tasks pool, s'')))"

definition consumer_publisher_main :: "amqp_net \<Rightarrow> (config \<Rightarrow> goerror option) \<Rightarrow> string \<Rightarrow>
    task_value \<Rightarrow> process \<Rightarrow> main_end \<times> process" where
  "consumer_publisher_main net validate uuid print s =
     (case NewWorkerPoolWithConfig net validate uuid (Some background_type) 10 ''testWorker''
         consumer_publisher_cnf s of
        (Inl e, s') \<Rightarrow> (on_fault (ProcessExits 0) e, s')
      | (Inr pool, s') \<Rightarrow> (register_and_start [(''Print'', print)] pool, s'))"

text \<open>\<open>PoolReady\<close>: the batches follow, and then \<open>main\<close> returns.\<close>

definition publisher_main :: "amqp_net \<Rightarrow> (config \<Rightarrow> goerror option) \<Rightarrow> string \<Rightarrow> process \<Rightarrow>
    main_end \<times> process" where
  "publisher_main net validate uuid s =
     (case NewWorkerPoolWithConfig net validate uuid (Some background_type) 10 ''testWorker''
         publisher_cnf s of
        (Inl e, s') \<Rightarrow> (on_fault (ProcessExits 1) e, s')
      | (Inr pool, s') \<Rightarrow> (PoolReady pool, s'))"

text \<open>\<open>SetupWorkerPool\<close>: \<open>MainReturns\<close> stands for the nil pool, \<open>PoolReady\<close> for the new one.\<close>

definition SetupWorkerPool :: "amqp_net \<Rightarrow> (config \<Rightarrow> goerror option) \<Rightarrow> string \<Rightarrow> process \<Rightarrow>
    main_end \<times> process" where
  "SetupWorkerPool net validate uuid s =
     (case set_global_config validate bench_cnf s of
        (Inl e, s') \<Rightarrow> (on_fault MainReturns e, s')
      | (Inr _, s') \<Rightarrow>
         (case NewWorkerPool net uuid (Some background_type) 10 ''testWorker'' s' of
            (Inl e, s'') \<Rightarrow> (on_fault (ProcessExits 0) e, s'')
          | (Inr pool, s'') \<Rightarrow> (PoolReady pool, s'')))"

end
