(* ===== verification/Program_Properties.thy ===== *)
theory Program_Properties
  imports Worker_Properties Task_Properties Mongo_Provider Example_Programs
begin

section \<open>Properties of whole programs and of the store client\<close>

subsection \<open>Creating a pool\<close>

text \<open>
  C13. Once its broker has come up, a new pool depends on the store setting alone: without one
  the pool is returned, not started, with an empty registry and \<open>concurrency\<close> idle workers;
  with any store configured the call fails although the backend is meant to be optional, and
  the connections it dialled, as many as the pool size, all stay open with nothing left that
  refers to them. When the broker does not come up its error is returned unchanged.
\<close>

theorem createWorkerPool_outcome:
  assumes "GetConfig cp = Some c" "kind_of t = KStruct"
    and "CreateBroker net (Some c) (amqp_side s) = (r, p')"
  shows "createWorkerPool net uuid (Some t) concurrency ns cp s =
      (case r of
         Inl e \<Rightarrow> Inl e
       | Inr b \<Rightarrow>
          (if Store c \<noteq> [] then Inl (Err (StoreErr ErrUnsupportedStore))
           else Inr \<lparr>wp_backend = None, wp_broker = b, wp_config = Some c,
             wp_taskRegistrar = NewDefaultTaskRegistrar, wp_started = False, wp_workerPoolID = uuid,
             wp_concurrency = concurrency, wp_nameSpace = ns, wp_contextType = Some t,
             wp_workerGroup = NewWorkerGroup concurrency ns, wp_configProvider = cp\<rparr>),
       s\<lparr>amqp_side := p'\<rparr>) \<and>
    (\<forall>b. r = Inr b \<longrightarrow> Broker c = ''amqp'' \<and> (\<exists>a. AMQP c = Some a \<and> b = \<lparr>bconfig = c, bamqp = a\<rparr> \<and>
       int (length (ConnectionPool p')) = sint (ConnectionPoolSize a) \<and> distinct (ConnectionPool p') \<and>
       set (map the (ConnectionPool p')) \<inter> closed p' = {}))"
proof -
  have "createWorkerPool net uuid (Some t) concurrency ns cp s =
      (case r of
         Inl e \<Rightarrow> Inl e
       | Inr b \<Rightarrow>
          (if Store c \<noteq> [] then Inl (Err (StoreErr ErrUnsupportedStore))
           else Inr \<lparr>wp_backend = None, wp_broker = b, wp_config = Some c,
             wp_taskRegistrar = NewDefaultTaskRegistrar, wp_started = False, wp_workerPoolID = uuid,
             wp_concurrency = concurrency, wp_nameSpace = ns, wp_contextType = Some t,
             wp_workerGroup = NewWorkerGroup concurrency ns, wp_configProvider = cp\<rparr>),
       s\<lparr>amqp_side := p'\<rparr>)"
    using assms
    by (simp add: createWorkerPool_def validateContextType_def go_seq_def go_bind_def go_return_def
        go_fail_def on_amqp_def CreateStore_def CreateTaskRegistrar_def split: sum.split)
  moreover have "Broker c = ''amqp'' \<and> (\<exists>a. AMQP c = Some a \<and> b = \<lparr>bconfig = c, bamqp = a\<rparr> \<and>
       int (length (ConnectionPool p')) = sint (ConnectionPoolSize a) \<and> distinct (ConnectionPool p') \<and>
       set (map the (ConnectionPool p')) \<inter> closed p' = {})" if r: "r = Inr b" for b
  proof -
    from assms(3) r have "Broker c = ''amqp''"
      "NewAMQPBroker (amqp_provider net) (Some c) (NewAmqpProvider (AMQP c)) = (Inr b, p')"
      by (auto simp: CreateBroker_def factory_NewAMQPBroker_def go_seq_def go_bind_def go_update_def
          go_fail_def split: if_splits)
    with broker_comes_up [OF this(2)] show ?thesis by auto
  qed
  ultimately show ?thesis by blast
qed

definition stored_config :: config where
  "stored_config = sample_config\<lparr>Store := ''mongodb''\<rparr>"

lemma calm_CreateBroker:
  assumes "Broker c = ''amqp''" "AMQP c = Some sample_amqp"
  shows "\<exists>p'. CreateBroker calm_net (Some c) p = (Inr \<lparr>bconfig = c, bamqp = sample_amqp\<rparr>, p')"
proof -
  have pool: "CreateConnectionPool calm_net (NewAmqpProvider (Some sample_amqp)) = (Inr (), pooled_provider)"
    by (simp add: pooled_provider_def CreateConnectionPool_def NewAmqpProvider_def sample_amqp_def
        calm_net_def go_bind_def go_wrap_def go_update_def CreateConnection_def lib_call_def eval_nat_numeral)
  obtain p' where "setupExchangeQueueBinding (amqp_provider calm_net) \<lparr>bconfig = c, bamqp = sample_amqp\<rparr>
      pooled_provider = (Inr (), p')"
    using calm_setup by (metis prod.collapse)
  with pool assms show ?thesis
    by (simp add: CreateBroker_def factory_NewAMQPBroker_def NewAMQPBroker_def go_seq_def go_bind_def
        go_update_def amqp_provider_def go_return_def)
qed

theorem createWorkerPool_outcome_witness:
  "\<exists>s'. createWorkerPool calm_net ''id'' (Some background_type) 10 ''w'' \<lparr>applicationConfig = stored_config\<rparr>
       \<lparr>global_provider = None, amqp_side = NewAmqpProvider None\<rparr> =
       (Inl (Err (StoreErr ErrUnsupportedStore)), s') \<and>
     length (ConnectionPool (amqp_side s')) = 2 \<and>
     set (map the (ConnectionPool (amqp_side s'))) \<inter> closed (amqp_side s') = {}"
proof -
  have c: "Broker stored_config = ''amqp''" "AMQP stored_config = Some sample_amqp" "Store stored_config \<noteq> []"
    by (simp_all add: stored_config_def sample_config_def)
  obtain p' where b: "CreateBroker calm_net (Some stored_config)
      (amqp_side \<lparr>global_provider = None, amqp_side = NewAmqpProvider None\<rparr>) =
      (Inr \<lparr>bconfig = stored_config, bamqp = sample_amqp\<rparr>, p')"
    using calm_CreateBroker [OF c(1,2)] by auto
  have get: "GetConfig \<lparr>applicationConfig = stored_config\<rparr> = Some stored_config"
    by (simp add: GetConfig_def stored_config_def sample_config_def empty_config_def)
  have k: "kind_of background_type = KStruct" by (simp add: background_type_def)
  from createWorkerPool_outcome [OF get k b, of "''id''" 10 "''w''"] c show ?thesis
    by (auto simp: sample_amqp_def)
qed

subsection \<open>The store client\<close>

text \<open>
  C40. Every operation of the store client returns: whatever the driver answers, it dials at
  most five times and pauses at most ten seconds in all. At most one call is made on the
  collection, of the configured database, on the current client and directly after that
  client has answered a ping; none is made when the five attempts have failed.
\<close>

theorem store_operations_bounded:
  assumes "m_client s \<noteq> None"
    and "(call, s') \<in> {(InsertOne coll doc, snd (Insert net coll doc s)),
      (FindMany coll sel, snd (Find net coll sel s)),
      (UpdateOne coll sel upd, snd (Update net coll sel upd s)),
      (DeleteOne coll sel, snd (Delete net coll sel s))}"
  shows "\<exists>evs. m_log s' = m_log s @ evs \<and> dials evs \<le> 5 \<and> paused evs \<le> 10 \<and>
    (runs evs = [] \<and> dials evs = 5 \<or>
     (\<exists>c pre. evs = pre @ [Pinged c True, Ran c (DbName (mongoConfig s')) call] \<and> runs pre = [] \<and>
        m_client s' = Some c))"
proof -
  have drop: "snd (go_seq a (go_seq b (go_return ())) s) = snd (go_seq a b s)"
    for a :: "(mongo_client, unit) go" and b :: "(mongo_client, string list) go"
    by (simp add: go_seq_def go_bind_def go_return_def split: prod.split sum.split)
  have "s' = snd (go_seq (checkConnection net) (run_call net call) s)"
    using assms(2) by (auto simp: Insert_def Find_def Update_def Delete_def drop)
  then obtain r where "go_seq (checkConnection net) (run_call net call) s = (r, s')"
    by (metis prod.collapse)
  from checked_spec(1) [OF this assms(1)] show ?thesis by (simp add: checked_ok_def)
qed

text \<open>A server that is down for the first ping and two dials.\<close>

definition flaky_store :: mongo_net where
  "flaky_store = \<lparr>net_connect = \<lambda>_ _ t. if t < 3 then Some (LibErr ''down'') else None,
     net_ping = \<lambda>t. if t < 3 then Some (LibErr ''down'') else None,
     net_run = \<lambda>_ _ _. Inr [], net_disconnect = \<lambda>_. None\<rparr>"

definition store_client :: mongo_client where
  "store_client = \<lparr>m_client = Some 0, mongoConfig = zero_mongo_config\<lparr>DbName := ''tasks''\<rparr>, m_tick = 0,
     m_log = []\<rparr>"

theorem store_operations_bounded_witness:
  "dials (m_log (snd (Insert flaky_store ''jobs'' ''{}'' store_client))) \<le> 5 \<and>
   m_log (snd (Insert flaky_store ''jobs'' ''{}'' store_client)) =
     [Pinged 0 False, Dialled False, Slept 2, Dialled False, Slept 2, Dialled True, Pinged 3 True,
      Ran 3 ''tasks'' (InsertOne ''jobs'' ''{}'')]"
proof -
  have c: "m_client store_client \<noteq> None" "m_log store_client = []" by (simp_all add: store_client_def)
  let ?s = "snd (Insert flaky_store ''jobs'' ''{}'' store_client)"
  from store_operations_bounded [OF c(1), of "InsertOne ''jobs'' ''{}''" ?s "''jobs''" "''{}''" flaky_store]
  have "dials (m_log ?s) \<le> 5" using c(2) by auto
  then show ?thesis
    by (simp add: Insert_def checkConnection_def mongo_ping_def mongo_lib_def reconnect_def numeral_eq_Suc
        mongo_connect_def run_call_def flaky_store_def store_client_def go_seq_def go_bind_def go_wrap_def
        go_update_def go_return_def Let_def)
qed

subsection \<open>The examples\<close>

text \<open>
  The example consumer never completes a job: its task sleeps for 20 seconds, and an
  accepted configuration that names no execution limit is given one of 10. Every delivery of
  a \<open>Print\<close> job is therefore sent to the delayed queue again, ten times, although the task is
  still running, and after the tenth retry it is acknowledged and dropped, for the example
  configures no failed queue.
\<close>

definition consumer_registrar :: registrar where
  "consumer_registrar = snd (RegisterTasks consumer_tasks consumer_tasks NewDefaultTaskRegistrar)"

lemma example_consumer_never_completes:
  assumes "SetApplicationConfig validate consumer_cnf cp = (Inr (), cp')" "GetConfig cp' = Some c"
    and "Name sig = ''Print''" "RetryCount sig = 10" "0 \<le> sint (RetriesDone sig)"
    and "\<not> checkTaskTimeout now sig"
  shows "process_body pub consumer_registrar c mo now d sig w =
    settle_retry (if sint (RetriesDone sig) < 10
      then SendTask pub mo (sig\<lparr>RetriesDone := RetriesDone sig + 1, RoutingKey := ''delay_test'',
        ETA := Some (m_retry mo + sint (getRetryInterval (RetriesDone sig + 1)))\<rparr>) w
      else (Inr (), sig, w))"
proof -
  have c: "c = consumer_cnf\<lparr>MaxTaskExecutionDuration := 10\<rparr>"
    using SetApplicationConfig_GetConfig [OF assms(1)] assms(2)
    by (auto simp: consumer_cnf_def cnf_of_def empty_config_def)
  define a where "a = the (AMQP c)"
  have a: "AMQP c = Some a" "DelayedQueue a = ''delay_test''" "FailedQueue a = []"
    by (simp_all add: a_def c consumer_cnf_def cnf_of_def zero_amqp_def)
  have "sint (seconds (MaxTaskExecutionDuration c)) < sint (seconds 20)"
    by (simp add: c seconds_def)
  then have run: "consumer_Print sig (seconds (MaxTaskExecutionDuration c)) = (sig, StillRunning)"
    by (simp add: consumer_Print_def)
  have reg: "GetRegisteredTask consumer_registrar (Name sig) = Inr (TaskFunc consumer_Print)"
    using assms(3) by (simp add: consumer_registrar_def RegisterTasks_def consumer_tasks_def
        GetRegisteredTask_def)
  have delay: "0 < sint (getRetryInterval (RetriesDone sig + 1))" if "sint (RetriesDone sig) < 10"
  proof -
    define k where "k = nat (sint (RetriesDone sig)) + 1"
    have k: "RetriesDone sig + 1 = of_nat k" "k \<le> 49"
      using assms(5) that by (simp_all add: k_def)
    have "0 < fib k" using fib_mono [of 1 k] by (simp add: k_def)
    with getRetryInterval_exact [OF k(2)] show ?thesis unfolding k(1) by simp
  qed
  have "retry_plan a (m_retry mo) sig = (if sint (RetriesDone sig) < 10
      then Some (sig\<lparr>RetriesDone := RetriesDone sig + 1, RoutingKey := ''delay_test'',
        ETA := Some (m_retry mo + sint (getRetryInterval (RetriesDone sig + 1)))\<rparr>) else None)"
    using assms(4) delay a(2,3) by (simp add: retry_plan_def retry_exhausted_def)
  then show ?thesis
    using assms(6) reg run by (simp add: process_body_def retryTask_plan [OF a(1)])
qed

lemma example_consumer_never_completes_sample:
  "\<exists>c. SetApplicationConfig (\<lambda>_. None) consumer_cnf NewConfigProvider =
       (Inr (), \<lparr>applicationConfig = c\<rparr>) \<and>
     process_body (\<lambda>t s w. (Inr (), s, w)) consumer_registrar c sample_moments 0 (sample_delivery ''{}'')
       (publisher_job\<lparr>RetriesDone := 10\<rparr>) (0 :: nat) =
     (Inr (), [Ack False], publisher_job\<lparr>RetriesDone := 10\<rparr>, 0)"
proof -
  obtain r cp' where set: "SetApplicationConfig (\<lambda>_. None) consumer_cnf NewConfigProvider = (r, cp')" by fastforce
  then have r: "r = Inr ()" "\<exists>c. cp' = \<lparr>applicationConfig = c\<rparr>"
    by (auto simp: SetApplicationConfig_def ValidateConfig_def go_seq_def go_bind_def go_return_def
        go_update_def NewConfigProvider_def)
  from SetApplicationConfig_GetConfig [OF set [unfolded r(1)]] obtain c where c: "GetConfig cp' = Some c" by auto
  with r(2) have cp: "cp' = \<lparr>applicationConfig = c\<rparr>" by (auto simp: GetConfig_def split: if_splits)
  have sig: "Name (publisher_job\<lparr>RetriesDone := 10\<rparr>) = ''Print''"
    "RetryCount (publisher_job\<lparr>RetriesDone := 10\<rparr>) = 10" "0 \<le> sint (RetriesDone (publisher_job\<lparr>RetriesDone := 10\<rparr>))"
    "\<not> checkTaskTimeout 0 (publisher_job\<lparr>RetriesDone := 10\<rparr>)"
    by (simp_all add: publisher_job_def zero_signature_def checkTaskTimeout_def)
  from example_consumer_never_completes [OF set [unfolded r(1)] c sig] set r(1) cp show ?thesis
    by (simp add: settle_retry_def)
qed

end
