(* ===== verification/Logger.thy ===== *)
theory Logger
  imports Go_Prelude
begin

section \<open>The default logger (logger/default_logger.go)\<close>

text \<open>
  The logger the program uses until an application sets its own: of its methods only \<open>Info\<close>
  prints, and all the others, among them \<open>Error\<close>, are empty. \<open>Fatal\<close> and \<open>Panic\<close> do not end
  the process. \<open>sprint\<close> is what \<^verbatim>\<open>log.Println\<close> makes of the arguments, without the time stamp.
\<close>

datatype log_level = LDebug | LInfo | LWarn | LWarning | LError | LFatal | LPanic

datatype log_form = Plain | Line | Formatted

fun DefaultLogger :: "(string list \<Rightarrow> string) \<Rightarrow> log_level \<Rightarrow> log_form \<Rightarrow> string list \<Rightarrow> string option" where
  "DefaultLogger sprint LInfo Plain args = Some (''[INFO] '' @ sprint args)"
| "DefaultLogger sprint _ _ args = None"

end
