(* ===== verification/Spec2Isabelle.thy ===== *)
theory Spec2Isabelle
  imports Pool_Properties Broker_Properties Task_Properties Registry_Properties Worker_Tasks
    Program_Properties Logger
begin

text \<open>
  A verification library for paota, a Go task queue over AMQP (RabbitMQ).

  \<^bold>\<open>The program.\<close> An application builds a worker pool from a configuration, registers task
  functions and sends task signatures; the pool's broker publishes each signature as one
  message, and a started pool consumes the task queue and hands every delivery to one of its
  workers, whose registrar rebuilds the signature, runs the task under an execution limit and
  acknowledges the delivery or sends a replacement (a retry, a failed or an overdue task)
  through the broker. The broker talks to the server through a provider that keeps a pool of
  connections. A store client exists beside this and is not used by it.

  \<^bold>\<open>Conventions\<close> (Go_Prelude, App_Errors, Go_Effects, Go_Utils). Go's \<open>int\<close> and durations are
  64-bit words, strings and byte slices are lists of characters, a nil pointer or slice is
  \<open>None\<close>, an \<^verbatim>\<open>interface{}\<close> is a \<open>govalue\<close>. A function that may return an error or panic
  and has shared state is a \<open>('s, 'a) go\<close>, with \<open>go_bind\<close> for the early return on errors and
  \<open>go_defer\<close> for \<^verbatim>\<open>defer\<close>; \<open>wp\<close> and \<open>keeps\<close> are the proof rules for it. Errors are values
  of \<open>goerror\<close>. Random numbers, clock readings and identifiers are arguments.

  \<^bold>\<open>The model\<close>, each theory with the code it translates:
  \<^item> Schema: schema/task.go and amqp.go. Json_Signature: the JSON form of a signature, as
    encoding/json writes and reads this structure; Json_Text: a printer and a parser that meet
    what it assumes of the text layer. Config: config/. Validation: internal/validation.
    Go_Utils: internal/utils. App_Errors: schema/errors. Logger: logger/logger.go.
  \<^item> Amqp_Interface: \<open>AmqpProviderInterface\<close> as a record of operations (\<open>amqp_iface\<close>) and its
    contracts as locales, \<open>amqp_publisher\<close> and \<open>amqp_topology\<close>. Amqp_Provider:
    internal/provider/amqp.go over the state \<open>provider\<close> (the fields of the Go structure, and
    what library and server know of connections and channels). Amqp_Pool: effect lemmas, the
    ownership invariant \<open>pool_inv\<close> (nobody shares a connection) and its counterpart
    \<open>nothing_lost\<close> (every connection stays pooled, lent out or closed), the step relation \<open>pool_step\<close> of a shared pool, and the
    interpretations \<open>prov\<close> and \<open>topo\<close> of the two contracts.
  \<^item> Amqp_Broker: publishing and start-up of internal/broker/amqp/broker.go, and the broker
    contract \<open>task_broker\<close> with its interpretation \<open>amqp\<close>. Amqp_Consumer: \<open>StartConsumer\<close>
    and \<open>processDelivery\<close> of the same file over the contract \<open>delivery_sink\<close>, which Work_Group
    states for any job type as \<open>job_sink\<close> and meets (interpretations \<open>group\<close>, \<open>deliveries\<close>).
    The rest of the process acts before every \<^verbatim>\<open>select\<close> of the consumer (\<open>env\<close>).
  \<^item> Task_Registrar: internal/task/memory/task.go. Task_Processing: the decisions of the
    registrar as functions (\<open>retry_plan\<close>, \<open>timeout_plan\<close>, \<open>disposition\<close>) and the settlement of
    a delivery, proved over \<open>task_broker\<close>. Retry_Lifecycle: what a consumer reads from the
    message a signature was published as, in both formats.
  \<^item> Work_Group: internal/workergroup/workergroup.go as a step relation: a hand-over is the
    choice of a worker (\<open>select_worker\<close>) and, later, the send (\<open>send_job\<close>); \<open>AssignJob\<close> is a
    whole call under one schedule, shown to be a path of the relation.
  \<^item> Worker_Pool: internal/factory and workerpool/workerpool.go. Pool_Lifecycle: its \<open>Start\<close> and
    \<open>Stop\<close> as the step relation \<open>life_step\<close> of the main goroutine, the consumer goroutine and
    the workers, with \<open>StopConsumer\<close> as their meeting on the stop channels.
  \<^item> Mongo_Provider: internal/provider/mongodb.go. Example_Programs: example/ and bench/.

  \<^bold>\<open>The results.\<close> Sample_Inputs holds the concrete inputs of the witnesses.
  \<^item> Pool_Properties: connections are owned exclusively; a publish returns nil exactly when the
    server confirmed the message, once; creation is all or nothing; rotation, replacement and
    growth of the pool; dial settings.
  \<^item> Broker_Properties: the message of a signature, its time to live, the declared routes and
    the messages no queue receives, and the state of a broker that has come up.
  \<^item> Failing_Task: the course of a task that always fails, each turn of it a whole run of the
    processor on the redelivery of the message it published last (\<open>task_life\<close>).
  \<^item> Failing_Task and Task_Properties: a delivery is settled as its disposition says; no task is
    acknowledged away; the way of a task that always fails, up to the failed queue, and what
    the overflow of the fiftieth delay does to it.
  \<^item> Registry_Properties: round trips of both message formats, unreadable deliveries,
    registration, start timeouts, identity, configuration.
  \<^item> Worker_Properties: the exact round-robin deal; the outcome of the consumer and its survival
    of errors; the safety of a running pool, the crash of a pool stopped under load, and the
    exit that does not wait for tasks.
  \<^item> Worker_Tasks: a worker with its registrar settles every job once and survives them all.
  \<^item> Program_Properties: the creation of a pool, the bounds of the store client, and the example
    consumer.

  \<^bold>\<open>Parameters, bounds and assumptions.\<close> The AMQP library and network are the parameter
  \<open>amqp_net\<close>: the outcome of the library call at every tick; the MongoDB driver is \<open>mongo_net\<close>;
  the JSON codec, the validator and the environment parser are functions, with their
  documented behaviour as named hypotheses (\<open>json_documented\<close>, \<open>validator_documented\<close>); where
  the codec matters it is \<open>encoding_json\<close>, and only its text layer stays a parameter.
  Nothing runs on fuel: the loops recurse on the pool size, on the attempts left, or on the
  deliveries and rounds given, so a call that never returns has no outcome. The retry results
  hold up to 49 retries, the last whose delay fits 64 bits. The worker results need a
  positive number of workers below \<open>2 ^ 63\<close>, the range of the index. A confirmed message has
  been accepted by the server; it is not said to have reached a queue, which the routing
  results treat. A message whose confirmation had not come when the wait for it ran out counts
  as unconfirmed, though the server may have it. \<open>checkTaskTimeout\<close> compares exactly where the code compares floating-point
  seconds, the same below \<open>2 ^ 22\<close> seconds.

  \<^bold>\<open>Not modelled.\<close> Log output of the components (only the default logger itself is); data races
  on \<^verbatim>\<open>wp.started\<close> and on a signature shared by goroutines; the server's redelivery; the
  backend interface, which has no implementation; a call of the public \<open>Stop\<close> from another
  goroutine than the main one; what the server does to a message it has no queue for or whose
  time to live ends, except in the routing and retry results. The publisher example's goroutines run one
  after the other. A registered task is what its caller sees of it: the signature it leaves
  and whether it returned, panicked or was still running at its limit.
\<close>

end
